(* ===== verification/GoPrelude.thy ===== *)
theory GoPrelude
  imports Main "HOL-Library.Word" "HOL-Library.Multiset" "HOL-Library.Sublist" "HOL-Library.AList"
begin

text \<open>
  The shared vocabulary of the development: Go's built-in values, the outcome of a call
  that may panic, and the functions of the standard packages \<open>strings\<close> and \<open>strconv\<close> that
  the components use. A Go string is a sequence of bytes, so it is a \<^typ>\<open>string\<close> here
  (Isabelle's characters are bytes) and \<open>len\<close> is \<^const>\<open>length\<close>. An error value made by
  \<open>errors.New\<close> or \<open>fmt.Errorf\<close> is its message. A value of type \<open>int\<close> is an unbounded
  \<^typ>\<open>int\<close> where the code only counts or indexes, and a \<open>64 word\<close> where overflow matters.
\<close>

section \<open>Types and outcomes\<close>

type_synonym byte = "8 word"
type_synonym int64 = "64 word"
type_synonym uint64 = "64 word"
type_synonym gerror = string
type_synonym 'a result = "gerror + 'a"

text \<open>A call returns a value or panics; a panic propagates through the callers.\<close>

datatype 'a go = Ret 'a | Panic string

fun go_bind :: "'a go \<Rightarrow> ('a \<Rightarrow> 'b go) \<Rightarrow> 'b go" where
  "go_bind (Ret x) f = f x"
| "go_bind (Panic m) f = Panic m"

named_theorems go_defs \<open>definitions of small Go operations, unfolded by the component proofs\<close>
named_theorems go_inv \<open>preservation lemmas of the component invariants\<close>

abbreviation nil_deref :: string where
  "nil_deref \<equiv> ''invalid memory address or nil pointer dereference''"

abbreviation out_of_range :: string where
  "out_of_range \<equiv> ''slice bounds out of range''"

lemma go_bind_Ret_iff [simp]: "go_bind m f = Ret y \<longleftrightarrow> (\<exists>x. m = Ret x \<and> f x = Ret y)"
  by (cases m) auto

text \<open>Go's integer division truncates towards zero.\<close>

definition go_div :: "int \<Rightarrow> int \<Rightarrow> int" where
  "go_div a b = sgn a * sgn b * (\<bar>a\<bar> div \<bar>b\<bar>)"

lemma go_div_nonneg [simp]: "0 \<le> a \<Longrightarrow> 0 < b \<Longrightarrow> go_div a b = a div b"
  by (cases "a = 0") (auto simp: go_div_def)

text \<open>Slice expressions \<open>s[lo:hi]\<close>, which panic outside \<open>0 \<le> lo \<le> hi \<le> len(s)\<close>.\<close>

definition slice :: "'a list \<Rightarrow> int \<Rightarrow> int \<Rightarrow> 'a list go" where
  "slice xs lo hi =
     (if 0 \<le> lo \<and> lo \<le> hi \<and> hi \<le> int (length xs)
      then Ret (take (nat (hi - lo)) (drop (nat lo) xs)) else Panic out_of_range)"

section \<open>Package strings\<close>

definition HasPrefix :: "string \<Rightarrow> string \<Rightarrow> bool" where
  [go_defs]: "HasPrefix s p \<longleftrightarrow> take (length p) s = p"

definition HasSuffix :: "string \<Rightarrow> string \<Rightarrow> bool" where
  [go_defs]: "HasSuffix s p \<longleftrightarrow> length p \<le> length s \<and> drop (length s - length p) s = p"

definition TrimPrefix :: "string \<Rightarrow> string \<Rightarrow> string" where
  [go_defs]: "TrimPrefix s p = (if HasPrefix s p then drop (length p) s else s)"

definition TrimSuffix :: "string \<Rightarrow> string \<Rightarrow> string" where
  [go_defs]: "TrimSuffix s p = (if HasSuffix s p then take (length s - length p) s else s)"

lemma HasPrefix_prefix: "HasPrefix s p \<longleftrightarrow> prefix p s"
  unfolding HasPrefix_def by (metis append_eq_conv_conj prefix_def take_is_prefix)

lemma HasPrefix_append [simp]: "HasPrefix (p @ s) p"
  by (simp add: HasPrefix_def)

lemma TrimPrefix_append [simp]: "TrimPrefix (p @ s) p = s"
  by (simp add: TrimPrefix_def)

lemma HasSuffix_append [simp]: "HasSuffix (s @ p) p"
  by (simp add: HasSuffix_def)

lemma TrimSuffix_append [simp]: "TrimSuffix (s @ p) p = s"
  by (simp add: TrimSuffix_def)

text \<open>\<open>strings.Cut\<close>, \<open>strings.Split\<close> and \<open>strings.LastIndex\<close> for a separator of one byte.\<close>

fun Cut :: "string \<Rightarrow> char \<Rightarrow> string \<times> string \<times> bool" where
  "Cut [] c = ([], [], False)"
| "Cut (x # xs) c =
     (if x = c then ([], xs, True)
      else (case Cut xs c of (b, a, found) \<Rightarrow> (x # b, a, found)))"

fun Split :: "string \<Rightarrow> char \<Rightarrow> string list" where
  "Split [] c = [[]]"
| "Split (x # xs) c =
     (if x = c then [] # Split xs c
      else (case Split xs c of [] \<Rightarrow> [[x]] | y # ys \<Rightarrow> (x # y) # ys))"

fun Join :: "string list \<Rightarrow> string \<Rightarrow> string" where
  "Join [] sep = []"
| "Join [x] sep = x"
| "Join (x # y # ys) sep = x @ sep @ Join (y # ys) sep"

fun LastIndex :: "string \<Rightarrow> char \<Rightarrow> int" where
  "LastIndex [] c = -1"
| "LastIndex (x # xs) c =
     (let i = LastIndex xs c in if 0 \<le> i then i + 1 else if x = c then 0 else -1)"

lemma Cut_found: "Cut s c = (b, a, True) \<Longrightarrow> s = b @ c # a \<and> c \<notin> set b"
  by (induction s arbitrary: b) (auto split: if_splits prod.splits)

lemma Cut_not_found: "Cut s c = (b, a, False) \<Longrightarrow> b = s \<and> a = [] \<and> c \<notin> set s"
  by (induction s arbitrary: b) (auto split: if_splits prod.splits)

lemma Cut_append [simp]: "c \<notin> set b \<Longrightarrow> Cut (b @ c # a) c = (b, a, True)"
  by (induction b) auto

lemma Cut_none [simp]: "c \<notin> set s \<Longrightarrow> Cut s c = (s, [], False)"
  by (induction s) auto

lemma Split_nonempty [simp]: "Split s c \<noteq> []"
  by (induction s) (auto split: list.splits)

lemma Split_no_sep: "p \<in> set (Split s c) \<Longrightarrow> c \<notin> set p"
  by (induction s arbitrary: p) (auto split: list.splits if_splits)

lemma Join_Cons: "ys \<noteq> [] \<Longrightarrow> Join (x # ys) sep = x @ sep @ Join ys sep"
  by (cases ys) auto

lemma Join_Split: "Join (Split s c) [c] = s"
proof (induction s)
  case (Cons x xs)
  obtain y ys where "Split xs c = y # ys" by (cases "Split xs c") auto
  with Cons show ?case by (cases ys) (auto simp: Join_Cons)
qed simp

section \<open>Package strconv: decimal numbers\<close>

definition is_digit :: "char \<Rightarrow> bool" where
  "is_digit c \<longleftrightarrow> 48 \<le> (of_char c :: nat) \<and> (of_char c :: nat) \<le> 57"

definition digit_val :: "char \<Rightarrow> nat" where
  "digit_val c = of_char c - 48"

definition digit_char :: "nat \<Rightarrow> char" where
  "digit_char d = char_of (48 + d)"

lemma is_digit_digit_char [simp]: "d < 10 \<Longrightarrow> is_digit (digit_char d)"
  by (simp add: is_digit_def digit_char_def)

lemma digit_val_digit_char [simp]: "d < 10 \<Longrightarrow> digit_val (digit_char d) = d"
  by (simp add: digit_val_def digit_char_def)

lemma digit_val_less: "is_digit c \<Longrightarrow> digit_val c < 10"
  by (auto simp: is_digit_def digit_val_def)

fun Itoa_nat :: "nat \<Rightarrow> string" where
  "Itoa_nat n = (if n < 10 then [digit_char n] else Itoa_nat (n div 10) @ [digit_char (n mod 10)])"

declare Itoa_nat.simps [simp del]

definition Itoa :: "int \<Rightarrow> string" where
  "Itoa i = (if i < 0 then CHR ''-'' # Itoa_nat (nat (- i)) else Itoa_nat (nat i))"

text \<open>The number that a sequence of digits denotes, on top of the digits already read.\<close>

definition dec_from :: "nat \<Rightarrow> string \<Rightarrow> nat" where
  "dec_from n ds = foldl (\<lambda>n c. n * 10 + digit_val c) n ds"

lemma dec_from_simps [simp]:
  "dec_from n [] = n" "dec_from n (c # cs) = dec_from (n * 10 + digit_val c) cs"
  "dec_from n (cs @ [c]) = dec_from n cs * 10 + digit_val c"
  by (simp_all add: dec_from_def)

lemma dec_from_ge: "n \<le> dec_from n ds"
proof (induction ds arbitrary: n)
  case (Cons c cs)
  have "n \<le> n * 10 + digit_val c" by simp
  also have "\<dots> \<le> dec_from (n * 10 + digit_val c) cs" by (rule Cons)
  finally show ?case by simp
qed simp

lemma Itoa_nat_digits: "c \<in> set (Itoa_nat n) \<Longrightarrow> is_digit c"
proof (induction n rule: Itoa_nat.induct)
  case (1 n)
  then show ?case by (cases "n < 10") (auto simp: Itoa_nat.simps [of n])
qed

lemma Itoa_nat_nonempty [simp]: "Itoa_nat n \<noteq> []"
  by (subst Itoa_nat.simps) simp

lemma dec_from_Itoa_nat [simp]: "dec_from 0 (Itoa_nat n) = n"
proof (induction n rule: Itoa_nat.induct)
  case (1 n)
  then show ?case by (cases "n < 10") (simp_all add: Itoa_nat.simps [of n])
qed

lemma takeWhile_digits [simp]:
  "(\<And>c. c \<in> set ds \<Longrightarrow> is_digit c) \<Longrightarrow> rest = [] \<or> \<not> is_digit (hd rest) \<Longrightarrow>
   takeWhile is_digit (ds @ rest) = ds \<and> dropWhile is_digit (ds @ rest) = rest"
  by (cases rest) (auto simp: takeWhile_append2 dropWhile_append2)

text \<open>
  \<open>strconv.ParseInt(s, 10, 64)\<close>: the value and the error. A value out of range is reported with
  the nearest representable number; the unsigned accumulator overflows before later bytes are
  looked at.
\<close>

datatype num_error = ErrSyntax | ErrRange

fun ParseUint_loop :: "nat \<Rightarrow> string \<Rightarrow> num_error + nat" where
  "ParseUint_loop n [] = Inr n"
| "ParseUint_loop n (c # cs) =
     (if \<not> is_digit c then Inl ErrSyntax
      else if n \<ge> 2 ^ 64 div 10 + 1 then Inl ErrRange
      else if n * 10 + digit_val c \<ge> 2 ^ 64 then Inl ErrRange
      else ParseUint_loop (n * 10 + digit_val c) cs)"

definition ParseInt :: "string \<Rightarrow> int \<times> num_error option" where
  "ParseInt s =
     (if s = [] then (0, Some ErrSyntax)
      else
        let neg = (hd s = CHR ''-'');
            s' = (if hd s = CHR ''-'' \<or> hd s = CHR ''+'' then tl s else s)
        in if s' = [] then (0, Some ErrSyntax)
           else case ParseUint_loop 0 s' of
             Inl ErrSyntax \<Rightarrow> (0, Some ErrSyntax)
           | Inl ErrRange \<Rightarrow> (if neg then - (2 ^ 63) else 2 ^ 63 - 1, Some ErrRange)
           | Inr n \<Rightarrow>
               if \<not> neg \<and> n \<ge> 2 ^ 63 then (2 ^ 63 - 1, Some ErrRange)
               else if neg \<and> n > 2 ^ 63 then (- (2 ^ 63), Some ErrRange)
               else (if neg then - int n else int n, None))"

lemma ParseUint_loop_digits:
  "(\<And>c. c \<in> set ds \<Longrightarrow> is_digit c) \<Longrightarrow> dec_from n ds < 2 ^ 64 \<Longrightarrow> ParseUint_loop n ds = Inr (dec_from n ds)"
proof (induction ds arbitrary: n)
  case (Cons c cs)
  have b: "n * 10 + digit_val c < 2 ^ 64"
    using Cons.prems(2) dec_from_ge [of "n * 10 + digit_val c" cs] by simp
  then have "n < 2 ^ 64 div 10 + 1" by simp
  then show ?case using Cons b by simp
qed simp

lemma hd_Itoa_nat: "is_digit (hd (Itoa_nat n))"
  by (rule Itoa_nat_digits [of _ n]) simp

lemma ParseInt_Itoa: "- (2 ^ 63) \<le> i \<Longrightarrow> i < 2 ^ 63 \<Longrightarrow> ParseInt (Itoa i) = (i, None)"
proof -
  assume i: "- (2 ^ 63) \<le> i" "i < 2 ^ 63"
  have d: "ParseUint_loop 0 (Itoa_nat n) = Inr n" if "n < 2 ^ 64" for n
    using ParseUint_loop_digits [of "Itoa_nat n" 0] Itoa_nat_digits that by simp
  have sgn: "hd (Itoa_nat n) \<noteq> CHR ''-''" "hd (Itoa_nat n) \<noteq> CHR ''+''" for n
    using hd_Itoa_nat [of n] by (auto simp: is_digit_def)
  show ?thesis
  proof (cases "i < 0")
    case True
    then have "nat (- i) < 2 ^ 64" "\<not> nat (- i) > 2 ^ 63" using i by simp_all
    then show ?thesis using True d [of "nat (- i)"] by (simp add: ParseInt_def Itoa_def Let_def)
  next
    case False
    then have "nat i < 2 ^ 64" "\<not> nat i \<ge> 2 ^ 63" using i by simp_all
    then show ?thesis using False d [of "nat i"] sgn [of "nat i"]
      by (simp add: ParseInt_def Itoa_def Let_def)
  qed
qed

text \<open>The two ranges of a \<open>64 word\<close> read as a signed number.\<close>

lemma mod_shift:
  fixes u :: int
  assumes "0 \<le> u" "u < 2 * m"
  shows "(u + m) mod (2 * m) - m = (if u < m then u else u - 2 * m)"
proof (cases "u < m")
  case True
  then show ?thesis using assms by (simp add: mod_pos_pos_trivial)
next
  case False
  then have "(u + m) mod (2 * m) = (u + m - 2 * m) mod (2 * m)" "u + m - 2 * m < 2 * m" "0 \<le> u + m - 2 * m"
    using assms by (simp_all only: minus_mod_self2)
  then show ?thesis using False by (simp add: mod_pos_pos_trivial)
qed

lemma sint_unat_cases:
  "unat (x :: int64) < 2 ^ 64 \<and>
   sint x = (if unat x < 2 ^ 63 then int (unat x) else int (unat x) - 2 ^ 64)"
proof
  show lt: "unat x < 2 ^ 64" using unsigned_less [of x] by simp
  have "sint x = (int (unat x) + 2 ^ 63) mod (2 * 2 ^ 63) - 2 ^ 63"
    by (simp add: sint_uint signed_take_bit_eq_take_bit_shift take_bit_eq_mod)
  also have "\<dots> = (if int (unat x) < 2 ^ 63 then int (unat x) else int (unat x) - 2 * 2 ^ 63)"
    by (rule mod_shift) (use uint_lt2p [of x] in simp_all)
  also have "(int (unat x) < 2 ^ 63) = (unat x < 2 ^ 63)"
    by (metis of_nat_less_iff of_nat_numeral of_nat_power)
  finally show "sint x = (if unat x < 2 ^ 63 then int (unat x) else int (unat x) - 2 ^ 64)"
    by simp
qed

lemma sint_small: "unat (x :: int64) < 2 ^ 63 \<Longrightarrow> sint x = int (unat x)"
  using sint_unat_cases [of x] by simp

lemma sint_big: "2 ^ 63 \<le> unat (x :: int64) \<Longrightarrow> sint x = int (unat x) - 2 ^ 64"
  using sint_unat_cases [of x] by simp

lemma sint_neg_iff: "sint (x :: int64) < 0 \<longleftrightarrow> 2 ^ 63 \<le> unat x"
proof (cases "unat x < 2 ^ 63")
  case True
  then show ?thesis using sint_small [of x] by simp
next
  case False
  then show ?thesis using sint_big [of x] uint_lt2p [of x] by simp
qed

section \<open>Maps, the order of range, and package sort\<close>

text \<open>
  A Go map is an association list with distinct keys. The order in which \<open>range\<close> visits a map is
  not specified and may differ from call to call, so an operation that ranges over a map takes
  the order as an argument; \<open>range_order\<close> is what the language guarantees of it. In the same
  way \<open>sort.Sort\<close> is an argument: it is not stable, and \<open>sort_spec\<close> is what its documentation
  promises for a slice ordered by a key.
\<close>

type_synonym ('k, 'v) gomap = "('k \<times> 'v) list"

definition gomap_ok :: "('k, 'v) gomap \<Rightarrow> bool" where
  "gomap_ok m \<longleftrightarrow> distinct (map fst m)"

definition range_order :: "('a list \<Rightarrow> 'a list) \<Rightarrow> bool" where
  "range_order iter \<longleftrightarrow> (\<forall>m. mset (iter m) = mset m)"

definition sort_spec :: "('a \<Rightarrow> 'b::linorder) \<Rightarrow> ('a list \<Rightarrow> 'a list) \<Rightarrow> bool" where
  "sort_spec key srt \<longleftrightarrow> (\<forall>xs. mset (srt xs) = mset xs \<and> sorted (map key (srt xs)))"

lemma range_order_set [simp]: "range_order iter \<Longrightarrow> set (iter m) = set m"
  by (metis range_order_def mset_eq_setD)

lemma range_order_length [simp]: "range_order iter \<Longrightarrow> length (iter m) = length m"
  by (metis range_order_def mset_eq_length)

lemma range_order_distinct: "range_order iter \<Longrightarrow> gomap_ok m \<Longrightarrow> distinct (map fst (iter m))"
  by (metis gomap_ok_def mset_eq_imp_distinct_iff mset_map range_order_def)

lemma range_order_map: "range_order iter \<Longrightarrow> mset (map f (iter m)) = mset (map f m)"
  by (simp add: range_order_def)

lemma range_order_id [simp]: "range_order (\<lambda>m. m)"
  by (simp add: range_order_def)

lemma range_order_rev [simp]: "range_order rev"
  by (simp add: range_order_def)

lemma sort_spec_sort_key [simp]: "sort_spec key (sort_key key)"
  by (simp add: sort_spec_def)

lemma sort_specD:
  assumes "sort_spec key srt"
  shows "mset (srt xs) = mset xs" "sorted (map key (srt xs))" "set (srt xs) = set xs"
    "length (srt xs) = length xs"
  using assms unfolding sort_spec_def by (blast, blast, metis mset_eq_setD, metis mset_eq_length)

text \<open>A sort by distinct keys has one result, whatever the algorithm.\<close>

lemma sort_spec_unique:
  assumes "sort_spec key srt" "mset xs = mset ys" "sorted (map key ys)" "distinct (map key ys)"
  shows "srt xs = ys"
proof -
  have m: "mset (srt xs) = mset ys" using sort_specD(1) [OF assms(1)] assms(2) by simp
  then have "mset (map key (srt xs)) = mset (map key ys)" by (metis mset_map)
  then have k: "map key (srt xs) = map key ys"
    using sort_specD(2) [OF assms(1)] assms(3) by (metis properties_for_sort)
  have "inj_on key (set ys)" using assms(4) by (simp add: distinct_map)
  then show ?thesis using k m by (metis map_inj_on mset_eq_setD sup.idem)
qed

end
