(* ===== verification/RingQueue.thy ===== *)
theory RingQueue
  imports GoPrelude
begin

text \<open>
  \<open>wrapper/queue.go\<close>: the fixed-capacity queue \<open>RingQueue\<close> over \<open>container/ring\<close>. The
  nodes of the ring live in an explicit store (two pointer fields and a value per address),
  because \<open>Remove\<close> relinks nodes and its correctness depends on the aliasing between the
  anchor pointer \<open>r.r\<close> and the nodes it unlinks. A method body runs under the queue's mutex,
  so each operation is one function of the state; a walk that never meets its end pointer is
  \<^const>\<open>None\<close>. The abstraction of a queue is the list of its values from front to back.
\<close>

section \<open>Package container/ring\<close>

record 'a ring_store =
  next_of :: "nat \<Rightarrow> nat"
  prev_of :: "nat \<Rightarrow> nat"
  value_of :: "nat \<Rightarrow> 'a option"
  next_free :: nat

definition empty_store :: "'a ring_store" where
  "empty_store = \<lparr>next_of = (\<lambda>_. 0), prev_of = (\<lambda>_. 0), value_of = (\<lambda>_. None), next_free = 0\<rparr>"

text \<open>\<open>ring.New(n)\<close> allocates \<open>n\<close> nodes linked in a circle; it is nil for \<open>n \<le> 0\<close>.\<close>

definition ring_New :: "int \<Rightarrow> 'a ring_store \<Rightarrow> nat option \<times> 'a ring_store" where
  "ring_New n h =
     (if n \<le> 0 then (None, h)
      else let b = next_free h; k = nat n in
        (Some b, \<lparr>next_of = (\<lambda>a. if b \<le> a \<and> a < b + k then b + (a - b + 1) mod k else next_of h a),
                  prev_of = (\<lambda>a. if b \<le> a \<and> a < b + k then b + (a - b + k - 1) mod k else prev_of h a),
                  value_of = (\<lambda>a. if b \<le> a \<and> a < b + k then None else value_of h a),
                  next_free = b + k\<rparr>))"

definition ring_Move :: "'a ring_store \<Rightarrow> nat \<Rightarrow> int \<Rightarrow> nat" where
  "ring_Move h r n =
     (if n < 0 then (prev_of h ^^ nat (- n)) r else (next_of h ^^ nat n) r)"

text \<open>\<open>r.Link(s)\<close>: \<open>n := r.next; p := s.prev; r.next = s; s.prev = r; n.prev = p; p.next = n\<close>.\<close>

definition ring_Link :: "'a ring_store \<Rightarrow> nat \<Rightarrow> nat \<Rightarrow> 'a ring_store" where
  "ring_Link h r s =
     (let n = next_of h r; p = prev_of h s in
      h\<lparr>next_of := (next_of h)(r := s, p := n), prev_of := (prev_of h)(s := r, n := p)\<rparr>)"

section \<open>The queue and its operations\<close>

datatype queue_error = QueueFull | QueueNull

record 'a RingQueue =
  rq_store :: "'a ring_store"
  rq_ring :: "nat option" \<comment> \<open>the field \<open>r\<close>\<close>
  rq_start :: int \<comment> \<open>the field \<open>start\<close>\<close>
  rq_end :: int \<comment> \<open>the field \<open>end\<close>\<close>
  rq_max :: int \<comment> \<open>the field \<open>max\<close>\<close>

definition NewRingQueue :: "int \<Rightarrow> 'a RingQueue" where
  "NewRingQueue n =
     (case ring_New (n + 1) empty_store of (r, h) \<Rightarrow>
       \<lparr>rq_store = h, rq_ring = r, rq_start = 0, rq_end = 0, rq_max = n + 1\<rparr>)"

text \<open>The walk shared by \<open>Do\<close> and \<open>List\<close>: the values from one node up to another.
  \<open>start.Value.(T)\<close> panics on a node that holds no value.\<close>

partial_function (option) walk ::
  "'a ring_store \<Rightarrow> nat \<Rightarrow> nat \<Rightarrow> 'a list \<Rightarrow> 'a list go option" where
  "walk h s e acc =
     (if s = e then Some (Ret acc)
      else case value_of h s of
        None \<Rightarrow> Some (Panic ''interface conversion'')
      | Some v \<Rightarrow> walk h (next_of h s) e (acc @ [v]))"

definition RingQueue_List :: "'a RingQueue \<Rightarrow> 'a list go option" where
  "RingQueue_List q =
     (case rq_ring q of
        None \<Rightarrow> Some (Panic nil_deref)
      | Some r \<Rightarrow> walk (rq_store q) (ring_Move (rq_store q) r (rq_start q))
                    (ring_Move (rq_store q) r (rq_end q)) [])"

text \<open>\<open>Do\<close> threads the state that its callback changes.\<close>

partial_function (option) do_loop ::
  "('a \<Rightarrow> 's \<Rightarrow> 's) \<Rightarrow> 'a ring_store \<Rightarrow> nat \<Rightarrow> nat \<Rightarrow> 's \<Rightarrow> 's go option" where
  "do_loop f h s e st =
     (if s = e then Some (Ret st)
      else case value_of h s of
        None \<Rightarrow> Some (Panic ''interface conversion'')
      | Some v \<Rightarrow> do_loop f h (next_of h s) e (f v st))"

definition RingQueue_Do :: "('a \<Rightarrow> 's \<Rightarrow> 's) \<Rightarrow> 'a RingQueue \<Rightarrow> 's \<Rightarrow> 's go option" where
  "RingQueue_Do f q st =
     (case rq_ring q of
        None \<Rightarrow> Some (Panic nil_deref)
      | Some r \<Rightarrow> do_loop f (rq_store q) (ring_Move (rq_store q) r (rq_start q))
                    (ring_Move (rq_store q) r (rq_end q)) st)"

text \<open>The removal of the node \<open>s\<close> inside the loop of \<open>Remove\<close>: a new node after \<open>e\<close>, the
  adjustment of one index, then the unlinking of \<open>s\<close>. It returns the node before \<open>s\<close>.\<close>

definition remove_adjust :: "bool \<Rightarrow> 'a RingQueue \<Rightarrow> 'a RingQueue" where
  "remove_adjust isPrev q =
     (if rq_start q > rq_end q \<and> \<not> isPrev
      then let s' = rq_start q + 1 in
        q\<lparr>rq_start := (if s' \<ge> rq_max q then s' - rq_max q else s')\<rparr>
      else let e' = rq_end q - 1 in
        q\<lparr>rq_end := (if e' < 0 then e' + rq_max q else e')\<rparr>)"

definition remove_node :: "nat \<Rightarrow> nat \<Rightarrow> bool \<Rightarrow> 'a RingQueue \<Rightarrow> 'a RingQueue \<times> nat" where
  "remove_node s e isPrev q =
     (case ring_New 1 (rq_store q) of (n, h) \<Rightarrow>
       let h1 = ring_Link h e (the n);
           q1 = remove_adjust isPrev (q\<lparr>rq_store := h1\<rparr>);
           p = prev_of h1 s
       in (q1\<lparr>rq_store := ring_Link h1 p (next_of h1 s)\<rparr>, p))"

partial_function (option) remove_loop ::
  "('a \<Rightarrow> bool) \<Rightarrow> nat \<Rightarrow> nat \<Rightarrow> bool \<Rightarrow> 'a RingQueue \<Rightarrow> 'a RingQueue go option" where
  "remove_loop f s e isPrev q =
     (if s = e then Some (Ret q)
      else let isPrev' = (isPrev \<or> rq_ring q = Some s) in
        case value_of (rq_store q) s of
          None \<Rightarrow> Some (Panic ''interface conversion'')
        | Some v \<Rightarrow>
            (if f v
             then let r = remove_node s e isPrev' q in
               remove_loop f (next_of (rq_store (fst r)) (snd r)) e isPrev' (fst r)
             else remove_loop f (next_of (rq_store q) s) e isPrev' q))"

definition RingQueue_Remove :: "('a \<Rightarrow> bool) \<Rightarrow> 'a RingQueue \<Rightarrow> 'a RingQueue go option" where
  "RingQueue_Remove f q =
     (case rq_ring q of
        None \<Rightarrow> Some (Panic nil_deref)
      | Some r \<Rightarrow> remove_loop f (ring_Move (rq_store q) r (rq_start q))
                    (ring_Move (rq_store q) r (rq_end q)) False q)"

definition RingQueue_Put :: "'a RingQueue \<Rightarrow> 'a \<Rightarrow> ('a RingQueue \<times> queue_error option) go" where
  "RingQueue_Put q v =
     (if rq_start q = rq_end q + 1 then Ret (q, Some QueueFull)
      else if rq_end q + 1 = rq_max q \<and> rq_start q = 0 then Ret (q, Some QueueFull)
      else case rq_ring q of
        None \<Rightarrow> Panic nil_deref
      | Some r \<Rightarrow>
          let a = ring_Move (rq_store q) r (rq_end q); e' = rq_end q + 1 in
          Ret (q\<lparr>rq_store := (rq_store q)\<lparr>value_of := (value_of (rq_store q))(a := Some v)\<rparr>,
                 rq_end := (if e' = rq_max q then 0 else e')\<rparr>, None))"

definition RingQueue_Get :: "'a RingQueue \<Rightarrow> ('a RingQueue \<times> (queue_error + 'a)) go" where
  "RingQueue_Get q =
     (if rq_start q = rq_end q then Ret (q, Inl QueueNull)
      else case rq_ring q of
        None \<Rightarrow> Panic nil_deref
      | Some r \<Rightarrow>
          let a = ring_Move (rq_store q) r (rq_start q) in
          (case value_of (rq_store q) a of
             None \<Rightarrow> Panic ''interface conversion''
           | Some v \<Rightarrow>
               let s' = rq_start q + 1 in
               Ret (q\<lparr>rq_store := (rq_store q)\<lparr>value_of := (value_of (rq_store q))(a := None)\<rparr>,
                      rq_start := (if s' = rq_max q then 0 else s')\<rparr>, Inr v)))"

definition RingQueue_Len :: "'a RingQueue \<Rightarrow> int" where
  "RingQueue_Len q =
     (if rq_start q < rq_end q then rq_end q - rq_start q
      else if rq_start q = rq_end q then 0
      else rq_end q + rq_max q - rq_start q)"

text \<open>The three walks are executable: their recursion equations serve as code equations.\<close>

declare walk.simps [code] do_loop.simps [code] remove_loop.simps [code]

section \<open>Circular node lists\<close>

text \<open>\<open>ring h L\<close>: the nodes of \<open>L\<close>, in this order, form one circle of the store \<open>h\<close>.\<close>

definition ring :: "'a ring_store \<Rightarrow> nat list \<Rightarrow> bool" where
  "ring h L \<longleftrightarrow> L \<noteq> [] \<and> distinct L \<and> (\<forall>a \<in> set L. a < next_free h) \<and>
     (\<forall>i < length L. next_of h (L ! i) = L ! (Suc i mod length L) \<and>
                     prev_of h (L ! (Suc i mod length L)) = L ! i)"

lemma ringD:
  assumes "ring h L"
  shows "L \<noteq> []" "distinct L" "a \<in> set L \<Longrightarrow> a < next_free h"
    "i < length L \<Longrightarrow> next_of h (L ! i) = L ! (Suc i mod length L)"
    "i < length L \<Longrightarrow> prev_of h (L ! (Suc i mod length L)) = L ! i"
  using assms unfolding ring_def by blast+

lemma ring_cong_links:
  "ring h L \<Longrightarrow> next_of h' = next_of h \<Longrightarrow> prev_of h' = prev_of h \<Longrightarrow> next_free h' = next_free h
   \<Longrightarrow> ring h' L"
  unfolding ring_def by simp

lemma ring_rotate:
  assumes "ring h L"
  shows "ring h (rotate m L)"
proof -
  let ?n = "length L"
  have step: "rotate m L ! (Suc i mod ?n) = L ! (Suc ((m + i) mod ?n) mod ?n)"
    if "i < ?n" for i
  proof -
    have "Suc i mod ?n < ?n" using that by (cases ?n) simp_all
    then have "rotate m L ! (Suc i mod ?n) = L ! ((m + Suc i mod ?n) mod ?n)"
      by (rule nth_rotate)
    also have "(m + Suc i mod ?n) mod ?n = Suc ((m + i) mod ?n) mod ?n"
      by (simp add: mod_simps)
    finally show ?thesis .
  qed
  have here: "rotate m L ! i = L ! ((m + i) mod ?n)" if "i < ?n" for i
    using that by (rule nth_rotate)
  show ?thesis
    unfolding ring_def
  proof (intro conjI allI impI ballI)
    show "rotate m L \<noteq> []" "distinct (rotate m L)"
      using ringD(1,2) [OF assms] by simp_all
    show "a < next_free h" if "a \<in> set (rotate m L)" for a
      using that ringD(3) [OF assms] by simp
    fix i assume "i < length (rotate m L)"
    then have i: "i < ?n" by simp
    then have "(m + i) mod ?n < ?n" by (cases ?n) simp_all
    then show "next_of h (rotate m L ! i) = rotate m L ! (Suc i mod length (rotate m L))"
      "prev_of h (rotate m L ! (Suc i mod length (rotate m L))) = rotate m L ! i"
      using ringD(4,5) [OF assms] by (simp_all add: step [OF i] here [OF i])
  qed
qed

lemma ring_swap: "ring h (xs @ ys) \<longleftrightarrow> ring h (ys @ xs)"
  using ring_rotate [of h "xs @ ys" "length xs"] ring_rotate [of h "ys @ xs" "length ys"]
  by (auto simp: rotate_append)

lemma ring_next_funpow:
  "ring h L \<Longrightarrow> i < length L \<Longrightarrow> (next_of h ^^ n) (L ! i) = L ! ((i + n) mod length L)"
proof (induction n)
  case (Suc n)
  have "(i + n) mod length L < length L" using Suc.prems(2) by (cases "length L") simp_all
  with Suc show ?case by (simp add: ringD(4) mod_simps)
qed simp

lemma ring_Move_nth:
  "ring h L \<Longrightarrow> i < length L \<Longrightarrow> ring_Move h (L ! i) (int n) = L ! ((i + n) mod length L)"
  by (simp add: ring_Move_def ring_next_funpow)

lemma ring_next_mid: "ring h (xs @ a # b # ys) \<Longrightarrow> next_of h a = b"
  using ringD(4) [of h "xs @ a # b # ys" "length xs"] by (simp add: nth_append)

text \<open>\<open>ring.New(n + 1)\<close> on an empty store makes the circle \<open>0, \<dots>, n\<close>.\<close>

lemma ring_New_ring:
  assumes "0 < k"
  shows "ring (snd (ring_New (int k) h)) [next_free h..<next_free h + k]"
  unfolding ring_def
proof (intro conjI allI impI ballI)
  let ?b = "next_free h"
  show "[?b..<?b + k] \<noteq> []" "distinct [?b..<?b + k]" using assms by simp_all
  show "a < next_free (snd (ring_New (int k) h))" if "a \<in> set [?b..<?b + k]" for a
    using that assms by (simp add: ring_New_def Let_def)
  fix i assume "i < length [?b..<?b + k]"
  then have i: "i < k" by simp
  have m: "Suc i mod k < k" using assms by simp
  have "(Suc i mod k + k - 1) mod k = i"
  proof (cases "Suc i = k")
    case False
    with i have "Suc i mod k = Suc i" by simp
    with i show ?thesis by simp
  qed (use assms in \<open>simp; linarith\<close>)
  then show "next_of (snd (ring_New (int k) h)) ([?b..<?b + k] ! i)
      = [?b..<?b + k] ! (Suc i mod length [?b..<?b + k])"
    "prev_of (snd (ring_New (int k) h)) ([?b..<?b + k] ! (Suc i mod length [?b..<?b + k]))
      = [?b..<?b + k] ! i"
    using assms i m by (simp_all add: ring_New_def Let_def)
qed

text \<open>Linking a fresh node behind the head, and unlinking the head.\<close>

lemma ring_Link_fresh:
  assumes r: "ring h (e # ys)" and n: "n \<notin> set (e # ys)" "n < next_free h" "prev_of h n = n"
  shows "ring (ring_Link h e n) (e # n # ys)"
proof -
  let ?L = "e # ys" and ?L' = "e # n # ys" and ?h = "ring_Link h e n"
  let ?f = "next_of h e"
  have len: "length ?L = Suc (length ys)" by simp
  have f: "?f = (ys @ [e]) ! 0" using ringD(4) [OF r, of 0] by (cases ys) simp_all
  have nx: "next_of ?h = (next_of h)(e := n, n := ?f)"
    and pv: "prev_of ?h = (prev_of h)(n := e, ?f := n)"
    using n(3) by (simp_all add: ring_Link_def Let_def)
  have d: "distinct ?L'" using ringD(2) [OF r] n(1) by auto
  have link: "next_of ?h (?L' ! i) = ?L' ! (Suc i mod length ?L')
      \<and> prev_of ?h (?L' ! (Suc i mod length ?L')) = ?L' ! i" if i: "i < length ?L'" for i
  proof (cases i)
    case 0
    then show ?thesis using d f by (cases ys) (auto simp: nx pv)
  next
    case (Suc k)
    show ?thesis
    proof (cases k)
      case 0
      then show ?thesis using Suc d f by (cases ys) (auto simp: nx pv)
    next
      case (Suc l)
      have l: "l < length ys" using i \<open>i = Suc k\<close> Suc by simp
      have o: "next_of h (ys ! l) = ?L ! (Suc (Suc l) mod length ?L)"
        "prev_of h (?L ! (Suc (Suc l) mod length ?L)) = ys ! l"
        using ringD(4,5) [OF r, of "Suc l"] l by simp_all
      have ne: "ys ! l \<noteq> e" "ys ! l \<noteq> n" using d l nth_mem by fastforce+
      show ?thesis
      proof (cases "Suc l = length ys")
        case True
        have fe: "?f \<noteq> e" using f l d by (cases ys) auto
        have i': "i = Suc (Suc l)" and ly: "length ys = Suc l"
          using True \<open>i = Suc k\<close> Suc by simp_all
        have "next_of h (ys ! l) = e" "prev_of h e = ys ! l" using o True by simp_all
        moreover have "e \<noteq> n" using d by auto
        ultimately show ?thesis using fe ne by (simp add: i' ly nx pv)
      next
        case False
        with l have sl: "Suc l < length ys" by simp
        have "ys ! Suc l \<noteq> ?f"
          using f d sl by (cases ys) (auto dest: nth_mem)
        moreover have "ys ! Suc l \<noteq> n" using d sl nth_mem by fastforce
        ultimately show ?thesis using o ne sl \<open>i = Suc k\<close> Suc by (auto simp: nx pv)
      qed
    qed
  qed
  moreover have "a < next_free ?h" if "a \<in> set ?L'" for a
    using that ringD(3) [OF r] n(2) by (auto simp: ring_Link_def Let_def)
  ultimately show ?thesis using d unfolding ring_def by blast
qed

lemma ring_Link_unlink:
  assumes r: "ring h (s # zs)" and zs: "zs \<noteq> []"
  shows "ring (ring_Link h (prev_of h s) (next_of h s)) zs"
    "prev_of h s = last zs" "next_of h s = hd zs"
proof -
  let ?L = "s # zs"
  show p: "prev_of h s = last zs"
    using ringD(5) [OF r, of "length zs"] zs by (simp add: last_conv_nth nth_Cons' split: if_splits)
  show nx: "next_of h s = hd zs"
    using ringD(4) [OF r, of 0] zs by (simp add: hd_conv_nth)
  let ?h = "ring_Link h (prev_of h s) (next_of h s)"
  have d: "distinct ?L" by (rule ringD(2) [OF r])
  have np: "next_of h (last zs) = s"
    using ringD(4) [OF r, of "length zs"] zs by (simp add: last_conv_nth nth_Cons' split: if_splits)
  have pn: "prev_of h (hd zs) = s"
    using ringD(5) [OF r, of 0] zs by (simp add: hd_conv_nth)
  have n': "next_of ?h = (next_of h)(last zs := hd zs, s := s)"
    and p': "prev_of ?h = (prev_of h)(hd zs := last zs, s := s)"
    by (simp_all add: ring_Link_def Let_def p nx np pn)
  have link: "next_of ?h (zs ! i) = zs ! (Suc i mod length zs)
      \<and> prev_of ?h (zs ! (Suc i mod length zs)) = zs ! i" if i: "i < length zs" for i
  proof (cases "Suc i = length zs")
    case True
    then have "zs ! i = last zs" using zs by (metis diff_Suc_1 last_conv_nth)
    moreover have "last zs \<noteq> s" "hd zs \<noteq> s" using d zs by auto
    ultimately show ?thesis using True zs by (simp add: n' p' hd_conv_nth)
  next
    case False
    with i have si: "Suc i < length zs" by simp
    have "next_of h (zs ! i) = zs ! Suc i" "prev_of h (zs ! Suc i) = zs ! i"
      using ringD(4,5) [OF r, of "Suc i"] si by simp_all
    moreover have "zs ! i \<noteq> last zs" "zs ! Suc i \<noteq> hd zs"
      using d zs si by (auto simp: last_conv_nth hd_conv_nth nth_eq_iff_index_eq)
    moreover have "zs ! i \<noteq> s" "zs ! Suc i \<noteq> s" using d si nth_mem [of i zs] nth_mem [of "Suc i" zs] by auto
    ultimately show ?thesis using si by (simp add: n' p')
  qed
  moreover have "a < next_free ?h" if "a \<in> set zs" for a
    using that ringD(3) [OF r] by (auto simp: ring_Link_def Let_def)
  ultimately show "ring ?h zs" using d zs unfolding ring_def by auto
qed

section \<open>The representation relation\<close>

text \<open>
  \<open>rq_rep q ns e fr j\<close>: read from the front, the circle of \<open>q\<close> is the nodes \<open>ns\<close> that hold
  the elements, the node \<open>e\<close> that \<open>end\<close> designates, and the free nodes \<open>fr\<close>; the anchor is
  the \<open>j\<close>-th node of this sequence, and \<open>start\<close> and \<open>end\<close> count from the anchor.
  \<open>rq_abs q es\<close>: the queue \<open>q\<close> holds \<open>es\<close>, front first.
\<close>

definition rq_rep :: "'a RingQueue \<Rightarrow> nat list \<Rightarrow> nat \<Rightarrow> nat list \<Rightarrow> nat \<Rightarrow> bool" where
  "rq_rep q ns e fr j \<longleftrightarrow>
     (let L = ns @ e # fr; m = length L in
        ring (rq_store q) L \<and> j < m \<and> rq_ring q = Some (L ! j) \<and> rq_max q = int m \<and>
        rq_start q = int ((m - j) mod m) \<and> rq_end q = int ((m - j + length ns) mod m))"

definition rq_abs :: "'a RingQueue \<Rightarrow> 'a list \<Rightarrow> bool" where
  "rq_abs q es \<longleftrightarrow>
     (\<exists>ns e fr j. rq_rep q ns e fr j \<and> map (value_of (rq_store q)) ns = map Some es)"

definition rq_cap :: "'a RingQueue \<Rightarrow> nat" where
  "rq_cap q = nat (rq_max q) - 1"

lemma rq_repD:
  assumes "rq_rep q ns e fr j"
  shows "ring (rq_store q) (ns @ e # fr)" "j < length (ns @ e # fr)"
    "rq_ring q = Some ((ns @ e # fr) ! j)" "rq_max q = int (length (ns @ e # fr))"
    "rq_start q = int ((length (ns @ e # fr) - j) mod length (ns @ e # fr))"
    "rq_end q = int ((length (ns @ e # fr) - j + length ns) mod length (ns @ e # fr))"
  using assms unfolding rq_rep_def Let_def by blast+

lemma mod_back: "j < m \<Longrightarrow> (j + (m - j + k) mod m) mod m = k mod (m :: nat)"
proof -
  assume "j < m"
  then have "j + (m - j + k) = m + k" by simp
  then show ?thesis by (metis mod_add_right_eq mod_add_self1)
qed

lemma rq_rep_start:
  assumes "rq_rep q ns e fr j"
  shows "ring_Move (rq_store q) ((ns @ e # fr) ! j) (rq_start q) = hd (ns @ [e])"
proof -
  let ?m = "length (ns @ e # fr)"
  have "ring_Move (rq_store q) ((ns @ e # fr) ! j) (rq_start q)
      = (ns @ e # fr) ! ((j + (?m - j) mod ?m) mod ?m)"
    unfolding rq_repD(5) [OF assms] by (rule ring_Move_nth [OF rq_repD(1,2) [OF assms]])
  also have "\<dots> = (ns @ e # fr) ! 0"
    using mod_back [OF rq_repD(2) [OF assms], of 0] by (simp only: add_0_right mod_0)
  finally show ?thesis by (cases ns) simp_all
qed

lemma rq_rep_end:
  assumes "rq_rep q ns e fr j"
  shows "ring_Move (rq_store q) ((ns @ e # fr) ! j) (rq_end q) = e"
proof -
  let ?m = "length (ns @ e # fr)"
  have "ring_Move (rq_store q) ((ns @ e # fr) ! j) (rq_end q)
      = (ns @ e # fr) ! ((j + (?m - j + length ns) mod ?m) mod ?m)"
    unfolding rq_repD(6) [OF assms] by (rule ring_Move_nth [OF rq_repD(1,2) [OF assms]])
  also have "\<dots> = (ns @ e # fr) ! (length ns mod ?m)"
    by (simp only: mod_back [OF rq_repD(2) [OF assms]])
  finally show ?thesis by simp
qed

text \<open>The indices of the code as plain numbers, and its wrap-around comparisons in terms of
  the position of the anchor.\<close>

lemma mod_wrap: "s < m \<Longrightarrow> k < m \<Longrightarrow> (s + k) mod m = (if s + k < m then s + k else s + k - (m :: nat))"
  by (simp add: mod_if)

lemma rq_rep_idx:
  assumes "rq_rep q ns e fr j"
  obtains s m where "m = length ns + Suc (length fr)" "j < m" "s < m"
    "s = (if j = 0 then 0 else m - j)" "rq_start q = int s" "rq_max q = int m"
    "rq_end q = int (if s + length ns < m then s + length ns else s + length ns - m)"
proof -
  define m where "m = length ns + Suc (length fr)"
  define s where "s = (if j = 0 then 0 else m - j)"
  have m: "length (ns @ e # fr) = m" "length ns < m" by (simp_all add: m_def)
  note D = rq_repD [OF assms, unfolded m(1)]
  have s: "(m - j) mod m = s" "s < m" using D(2) by (auto simp: s_def)
  have "(m - j + length ns) mod m = (s + length ns) mod m"
    unfolding s(1) [symmetric] by (simp add: mod_add_left_eq)
  then have "(m - j + length ns) mod m = (if s + length ns < m then s + length ns else s + length ns - m)"
    using mod_wrap [OF s(2) m(2)] by simp
  with D s show thesis using m_def s_def that by simp
qed

lemma rq_rep_wrapped:
  "rq_rep q ns e fr j \<Longrightarrow> ns \<noteq> [] \<Longrightarrow> rq_start q > rq_end q \<longleftrightarrow> 0 < j \<and> j \<le> length ns"
  by (erule rq_rep_idx) (auto split: if_splits simp: neq_Nil_conv)

lemma rq_rep_full_iff:
  "rq_rep q ns e fr j \<Longrightarrow>
     rq_start q = rq_end q + 1 \<or> (rq_end q + 1 = rq_max q \<and> rq_start q = 0) \<longleftrightarrow> fr = []"
  by (erule rq_rep_idx) (cases fr; auto split: if_splits)

lemma rq_rep_empty_iff: "rq_rep q ns e fr j \<Longrightarrow> rq_start q = rq_end q \<longleftrightarrow> ns = []"
  by (erule rq_rep_idx) (cases ns; auto split: if_splits)

lemma rq_rep_Len: "rq_rep q ns e fr j \<Longrightarrow> RingQueue_Len q = int (length ns)"
  by (erule rq_rep_idx) (cases ns; auto simp: RingQueue_Len_def split: if_splits)

lemma mod_Suc_wrap:
  "0 < (m::nat) \<Longrightarrow> (if int (a mod m) + 1 = int m then 0 else int (a mod m) + 1) = int (Suc a mod m)"
  by (auto simp: mod_Suc)

section \<open>The operations on the representation\<close>

lemma NewRingQueue_abs:
  assumes "0 \<le> n"
  shows "rq_abs (NewRingQueue n :: 'a RingQueue) []" "rq_cap (NewRingQueue n :: 'a RingQueue) = nat n"
proof -
  let ?k = "Suc (nat n)" and ?q = "NewRingQueue n :: 'a RingQueue"
  have k: "n + 1 = int ?k" using assms by simp
  have r: "ring (rq_store ?q) [0..<?k]"
    using ring_New_ring [of ?k empty_store] unfolding NewRingQueue_def k
    by (simp add: split_def empty_store_def)
  have L: "[0..<?k] = 0 # [Suc 0..<?k]" by (simp add: upt_conv_Cons)
  have "rq_rep ?q [] 0 [Suc 0..<?k] 0"
    unfolding rq_rep_def Let_def
  proof (intro conjI)
    show "ring (rq_store ?q) ([] @ 0 # [Suc 0..<?k])" using r by (simp only: L append_Nil)
  qed (use assms in \<open>auto simp: NewRingQueue_def ring_New_def Let_def empty_store_def\<close>)
  then show "rq_abs ?q []" unfolding rq_abs_def by force
  show "rq_cap ?q = nat n"
    using assms by (simp add: rq_cap_def NewRingQueue_def split_def)
qed

lemma Put_full:
  "rq_rep q ns e [] j \<Longrightarrow> RingQueue_Put q v = Ret (q, Some QueueFull)"
  using rq_rep_full_iff [of q ns e "[]" j] by (auto simp: RingQueue_Put_def)

lemma Put_rep:
  assumes rep: "rq_rep q ns e (f # fr) j" and vals: "map (value_of (rq_store q)) ns = map Some es"
  shows "\<exists>q'. RingQueue_Put q v = Ret (q', None) \<and> rq_rep q' (ns @ [e]) f fr j
    \<and> map (value_of (rq_store q')) (ns @ [e]) = map Some (es @ [v]) \<and> rq_max q' = rq_max q"
proof -
  let ?m = "length (ns @ e # f # fr)"
  let ?q = "q\<lparr>rq_store := (rq_store q)\<lparr>value_of := (value_of (rq_store q))(e := Some v)\<rparr>,
              rq_end := (if rq_end q + 1 = rq_max q then 0 else rq_end q + 1)\<rparr>"
  note D = rq_repD [OF rep]
  have "RingQueue_Put q v = Ret (?q, None)"
    using rq_rep_full_iff [OF rep] D(3) rq_rep_end [OF rep]
    by (auto simp: RingQueue_Put_def Let_def)
  moreover have "rq_rep ?q (ns @ [e]) f fr j"
  proof -
    have "ring (rq_store ?q) (ns @ e # f # fr)"
      by (rule ring_cong_links [OF D(1)]) simp_all
    moreover have "(if rq_end q + 1 = rq_max q then 0 else rq_end q + 1)
        = int (Suc (?m - j + length ns) mod ?m)"
      unfolding D(4,6) by (rule mod_Suc_wrap) simp
    ultimately show ?thesis
      using D(2-5) unfolding rq_rep_def Let_def by simp
  qed
  moreover have "e \<notin> set ns" using ringD(2) [OF D(1)] by simp
  then have "map (value_of (rq_store ?q)) (ns @ [e]) = map Some (es @ [v])"
    using vals by simp
  ultimately show ?thesis by (intro exI [of _ ?q]) simp
qed

lemma Get_rep:
  assumes rep: "rq_rep q (s # ns) e fr j"
    and vals: "map (value_of (rq_store q)) (s # ns) = map Some (x # es)"
  shows "\<exists>q' j'. RingQueue_Get q = Ret (q', Inr x) \<and> rq_rep q' ns e (fr @ [s]) j'
    \<and> map (value_of (rq_store q')) ns = map Some es \<and> rq_max q' = rq_max q"
proof -
  let ?L = "s # ns @ e # fr"
  let ?m = "length ?L"
  define j' where "j' = (if j = 0 then ?m - 1 else j - 1)"
  let ?q = "q\<lparr>rq_store := (rq_store q)\<lparr>value_of := (value_of (rq_store q))(s := None)\<rparr>,
              rq_start := (if rq_start q + 1 = rq_max q then 0 else rq_start q + 1)\<rparr>"
  note D = rq_repD [OF rep]
  have "value_of (rq_store q) s = Some x" using vals by simp
  then have get: "RingQueue_Get q = Ret (?q, Inr x)"
    using rq_rep_empty_iff [OF rep] D(3) rq_rep_start [OF rep]
    by (auto simp: RingQueue_Get_def Let_def)
  have j': "j' < ?m" "(ns @ e # fr @ [s]) ! j' = ?L ! j" "(?m - j') mod ?m = Suc (?m - j) mod ?m"
  proof -
    show "j' < ?m" using D(2) by (auto simp: j'_def)
    show "(ns @ e # fr @ [s]) ! j' = ?L ! j"
    proof (cases j)
      case 0
      have "(ns @ e # fr @ [s]) ! length (ns @ e # fr) = s"
        using nth_append_length [of "ns @ e # fr" s "[]"] by simp
      with 0 show ?thesis by (simp add: j'_def)
    next
      case (Suc k)
      then have "k < length (ns @ e # fr)" using D(2) by simp
      then have "((ns @ e # fr) @ [s]) ! k = (ns @ e # fr) ! k" by (rule nth_append_left)
      with Suc show ?thesis by (simp add: j'_def)
    qed
    show "(?m - j') mod ?m = Suc (?m - j) mod ?m"
    proof (cases j)
      case 0
      then show ?thesis by (simp add: j'_def mod_Suc)
    next
      case (Suc k)
      then have "?m - j' = Suc (?m - j)" using D(2) by (simp add: j'_def)
      then show ?thesis by (rule arg_cong)
    qed
  qed
  have "rq_rep ?q ns e (fr @ [s]) j'"
  proof -
    have "ring (rq_store q) ([s] @ (ns @ e # fr))" using D(1) by simp
    then have "ring (rq_store q) ((ns @ e # fr) @ [s])" by (rule ring_swap [THEN iffD1])
    then have "ring (rq_store ?q) ((ns @ e # fr) @ [s])"
      by (rule ring_cong_links) simp_all
    moreover have "(if rq_start q + 1 = rq_max q then 0 else rq_start q + 1)
        = int (Suc (length (( s # ns) @ e # fr) - j) mod length ((s # ns) @ e # fr))"
      unfolding D(4,5) by (rule mod_Suc_wrap) simp
    moreover have "(?m - j' + length ns) mod ?m = (?m - j + length (s # ns)) mod ?m"
    proof -
      have "(?m - j' + length ns) mod ?m = ((?m - j') mod ?m + length ns) mod ?m"
        by (simp add: mod_simps)
      also have "\<dots> = (Suc (?m - j) + length ns) mod ?m"
        unfolding j'(3) by (simp add: mod_simps)
      finally show ?thesis by simp
    qed
    ultimately show ?thesis
      using D(3,4,6) j' unfolding rq_rep_def Let_def by simp
  qed
  moreover have "s \<notin> set ns" using ringD(2) [OF D(1)] by simp
  then have "map (value_of (rq_store ?q)) ns = map Some es"
    using vals by simp
  ultimately show ?thesis using get by (intro exI [of _ ?q] exI [of _ j']) simp
qed

text \<open>One removal inside the loop of \<open>Remove\<close>: allowed when the node is not the anchor.\<close>

lemma ring_New_frame: "ring h L \<Longrightarrow> ring (snd (ring_New 1 h)) L"
proof -
  assume r: "ring h L"
  then have "next_of (snd (ring_New 1 h)) a = next_of h a \<and> prev_of (snd (ring_New 1 h)) a = prev_of h a"
    if "a \<in> set L" for a
    using that ringD(3) [OF r that] by (simp add: ring_New_def Let_def)
  with r show ?thesis
    unfolding ring_def by (auto simp: ring_New_def Let_def less_Suc_eq)
qed

lemma ring_last_next: "ring h zs \<Longrightarrow> next_of h (last zs) = hd zs"
  using ringD(4) [of h zs "length zs - 1"] by (cases "zs = []") (auto simp: last_conv_nth hd_conv_nth ring_def)

lemma value_of_Link [simp]: "value_of (ring_Link h a b) = value_of h"
  by (simp add: ring_Link_def Let_def)

lemma next_free_Link [simp]: "next_free (ring_Link h a b) = next_free h"
  by (simp add: ring_Link_def Let_def)

lemma remove_node_ring:
  fixes q :: "'a RingQueue" and isPrev :: bool
  assumes "ring (rq_store q) (ds @ s # rs @ e # fr)"
  defines "n \<equiv> next_free (rq_store q)"
  defines "q' \<equiv> fst (remove_node s e isPrev q)"
  shows "ring (rq_store q') (ds @ rs @ e # n # fr)"
    "next_of (rq_store q') (snd (remove_node s e isPrev q)) = hd (rs @ [e])"
    "a \<in> set (ds @ s # rs @ e # fr) \<Longrightarrow> value_of (rq_store q') a = value_of (rq_store q) a"
proof -
  let ?h = "snd (ring_New 1 (rq_store q))"
  let ?h1 = "ring_Link ?h e n"
  let ?h2 = "ring_Link ?h1 (prev_of ?h1 s) (next_of ?h1 s)"
  let ?zs = "rs @ e # n # fr @ ds"
  have new: "fst (ring_New 1 (rq_store q)) = Some n" "prev_of ?h n = n" "n < next_free ?h"
    by (simp_all add: ring_New_def Let_def n_def)
  have st: "rq_store q' = ?h2" and pr: "snd (remove_node s e isPrev q) = prev_of ?h1 s"
    using new(1) by (simp_all add: q'_def remove_node_def split_def Let_def)
  have nin: "n \<notin> set (ds @ s # rs @ e # fr)"
    using ringD(3) [OF assms(1)] n_def by blast
  have "ring ?h ((ds @ s # rs) @ (e # fr))"
    using ring_New_frame [OF assms(1)] by simp
  then have "ring ?h ((e # fr) @ (ds @ s # rs))" by (rule ring_swap [THEN iffD1])
  then have "ring ?h1 (e # n # (fr @ ds @ s # rs))"
    using ring_Link_fresh [of ?h e "fr @ ds @ s # rs" n] nin new by auto
  then have "ring ?h1 ((e # n # fr @ ds) @ (s # rs))" by simp
  then have "ring ?h1 ((s # rs) @ (e # n # fr @ ds))" by (rule ring_swap [THEN iffD1])
  then have r1: "ring ?h1 (s # ?zs)" by simp
  have ne: "?zs \<noteq> []" by simp
  note un = ring_Link_unlink [OF r1 ne]
  from un(1) have "ring ?h2 ((rs @ e # n # fr) @ ds)" by simp
  then have "ring ?h2 (ds @ (rs @ e # n # fr))" by (rule ring_swap [THEN iffD1])
  then show "ring (rq_store q') (ds @ rs @ e # n # fr)" by (simp add: st)
  have "next_of ?h2 (last ?zs) = hd ?zs" by (rule ring_last_next [OF un(1)])
  moreover have "hd ?zs = hd (rs @ [e])" by (cases rs) simp_all
  ultimately show "next_of (rq_store q') (snd (remove_node s e isPrev q)) = hd (rs @ [e])"
    by (simp only: st pr un(2))
  show "value_of (rq_store q') a = value_of (rq_store q) a" if "a \<in> set (ds @ s # rs @ e # fr)"
    using that ringD(3) [OF assms(1) that] by (simp add: st ring_New_def Let_def)
qed

lemma remove_adjust_fields [simp]:
  "rq_ring (remove_adjust b q) = rq_ring q" "rq_max (remove_adjust b q) = rq_max q"
  "rq_ring (fst (remove_node s e b q)) = rq_ring q" "rq_max (fst (remove_node s e b q)) = rq_max q"
  by (simp_all add: remove_adjust_def remove_node_def Let_def split_def)

lemma remove_node_rep:
  assumes rep: "rq_rep q (ds @ s # rs) e fr j" and j: "j \<noteq> length ds" and ip: "isPrev \<longleftrightarrow> j < length ds"
  shows "\<exists>n j'. rq_rep (fst (remove_node s e isPrev q)) (ds @ rs) e (n # fr) j'
    \<and> (j' < length ds \<longleftrightarrow> j < length ds)"
proof -
  let ?q' = "fst (remove_node s e isPrev q)" and ?n = "next_free (rq_store q)"
  let ?L = "ds @ s # rs @ e # fr" and ?L' = "ds @ rs @ e # next_free (rq_store q) # fr"
  define wrap where "wrap \<longleftrightarrow> length ds < j \<and> j \<le> length (ds @ s # rs)"
  define j' where "j' = (if wrap then j - 1 else j)"
  define m where "m = length ?L"
  define k where "k = length (ds @ rs)"
  note D = rq_repD [OF rep, simplified, folded m_def]
  have len: "length ?L' = m" "length (ds @ s # rs) = Suc k" "Suc k < m \<or> Suc k = m - 1"
    by (simp_all add: m_def k_def)
  have jm: "j < m" using D(2) by (simp add: m_def)
  have "rq_start q > rq_end q \<and> \<not> isPrev \<longleftrightarrow> wrap"
    using rq_rep_wrapped [OF rep] ip j by (auto simp: wrap_def)
  then have adj: "rq_start ?q' = (if wrap then if rq_start q + 1 \<ge> rq_max q then rq_start q + 1 - rq_max q
        else rq_start q + 1 else rq_start q)"
    "rq_end ?q' = (if wrap then rq_end q else if rq_end q - 1 < 0 then rq_end q - 1 + rq_max q
        else rq_end q - 1)"
    by (simp_all add: remove_node_def remove_adjust_def Let_def split_def)
  obtain s0 m0 where I: "m0 = length (ds @ s # rs) + Suc (length fr)" "j < m0" "s0 < m0"
    "s0 = (if j = 0 then 0 else m0 - j)" "rq_start q = int s0" "rq_max q = int m0"
    "rq_end q = int (if s0 + length (ds @ s # rs) < m0 then s0 + length (ds @ s # rs)
        else s0 + length (ds @ s # rs) - m0)"
    using rep by (rule rq_rep_idx)
  have m0: "m0 = m" "k + 2 \<le> m" using I(1) by (simp_all add: m_def k_def)
  have anchor: "?L' ! j' = ?L ! j"
    using jm j by (auto simp: j'_def wrap_def m_def nth_append nth_Cons' split: if_splits)
  have j': "j' < m" using jm by (auto simp: j'_def)
  have s1: "(m - j') mod m = (if j' = 0 then 0 else m - j')" using j' by simp
  have s': "rq_start ?q' = int ((m - j') mod m)"
    unfolding s1 using I(2-6) m0 by (auto simp: adj j'_def wrap_def split: if_splits)
  have "rq_end ?q' = int (((m - j') mod m + k) mod m)"
  proof -
    have w: "((m - j') mod m + k) mod m
        = (if (m - j') mod m + k < m then (m - j') mod m + k else (m - j') mod m + k - m)"
      using m0(2) j' by (intro mod_wrap) simp_all
    have e0: "rq_end q = int (if s0 + Suc k < m then s0 + Suc k else s0 + Suc k - m)"
      using I(7) by (simp only: len(2) m0(1))
    have s0: "s0 = (if j = 0 then 0 else m - j)" "rq_max q = int m"
      using I(4,6) by (simp_all only: m0(1))
    show ?thesis
    proof (cases wrap)
      case True
      then have J: "0 < j" "j \<le> Suc k" "j' = j - 1" by (auto simp: wrap_def k_def j'_def)
      then have "rq_end q = int (Suc k - j)" using e0 s0 jm by simp
      moreover have "((m - j') mod m + k) mod m = Suc k - j"
        unfolding w unfolding s1 using J jm m0(2) by (cases "j = 1") auto
      ultimately show ?thesis using True adj(2) by simp
    next
      case False
      then have J: "j \<le> k \<or> Suc k < j" "j' = j" using j by (auto simp: wrap_def len(2) j'_def k_def)
      have "((m - j') mod m + k) mod m = (if j = 0 \<or> Suc k < j then s0 + k else k - j)"
        unfolding w unfolding s1 using J jm m0(2) s0(1) by auto
      moreover have "rq_end q = int (if j = 0 \<or> Suc k < j then s0 + Suc k else Suc k - j)"
        unfolding e0 using J jm m0(2) s0(1) by auto
      ultimately show ?thesis using False adj(2) J by auto
    qed
  qed
  then have e': "rq_end ?q' = int ((m - j' + length (ds @ rs)) mod m)"
    by (simp add: mod_add_left_eq k_def)
  have r': "ring (rq_store ?q') ?L'"
    by (rule remove_node_ring(1) [OF D(1)])
  have "rq_rep ?q' (ds @ rs) e (?n # fr) j'"
    unfolding rq_rep_def Let_def append.assoc len(1)
    using r' j' anchor s' e' D(3,4) by (simp add: m_def)
  moreover have "j' < length ds \<longleftrightarrow> j < length ds" using j by (auto simp: j'_def wrap_def)
  ultimately show ?thesis by blast
qed

text \<open>\<open>anchor_kept f q\<close>: the value in the anchor node, if there is one, is not removed.\<close>

definition anchor_kept :: "('a \<Rightarrow> bool) \<Rightarrow> 'a RingQueue \<Rightarrow> bool" where
  "anchor_kept f q =
     (case rq_ring q of
        None \<Rightarrow> True
      | Some a \<Rightarrow> (case value_of (rq_store q) a of None \<Rightarrow> True | Some v \<Rightarrow> \<not> f v))"

lemma anchor_keptD: "anchor_kept f q \<Longrightarrow> rq_ring q = Some a \<Longrightarrow> value_of (rq_store q) a = Some v \<Longrightarrow> \<not> f v"
  by (simp add: anchor_kept_def)

lemma rq_rep_anchor_iff:
  assumes "rq_rep q (ds @ s # rs) e fr j"
  shows "rq_ring q = Some s \<longleftrightarrow> j = length ds"
proof -
  let ?L = "ds @ s # rs @ e # fr"
  have "s = ?L ! length ds" "length ds < length ?L" by simp_all
  then show ?thesis
    using nth_eq_iff_index_eq [OF ringD(2) [OF rq_repD(1) [OF assms, simplified]], of j "length ds"]
      rq_repD(2,3) [OF assms] by simp
qed

lemma remove_loop_rep:
  assumes "rq_rep q (ds @ rs) e fr j" "map (value_of (rq_store q)) ds = map Some xs"
    "map (value_of (rq_store q)) rs = map Some ys" "isPrev \<longleftrightarrow> j < length ds" "anchor_kept f q"
  shows "\<exists>q'. remove_loop f (hd (rs @ [e])) e isPrev q = Some (Ret q')
    \<and> rq_abs q' (xs @ filter (\<lambda>v. \<not> f v) ys) \<and> rq_max q' = rq_max q"
  using assms
proof (induction rs arbitrary: q ds fr j xs ys isPrev)
  case Nil
  then have "rq_abs q xs" unfolding rq_abs_def by auto
  with Nil.prems show ?case by (simp add: remove_loop.simps [of f e e])
next
  case (Cons s rs)
  obtain y zs where ys: "ys = y # zs" using Cons.prems(3) by (cases ys) auto
  have y: "value_of (rq_store q) s = Some y" using Cons.prems(3) by (simp add: ys)
  have se: "s \<noteq> e" using ringD(2) [OF rq_repD(1) [OF Cons.prems(1)]] by auto
  define ip where "ip \<longleftrightarrow> isPrev \<or> rq_ring q = Some s"
  have ip: "ip \<longleftrightarrow> j \<le> length ds"
    using rq_rep_anchor_iff [OF Cons.prems(1)] Cons.prems(4) by (auto simp: ip_def)
  show ?case
  proof (cases "f y")
    case False
    have "map (value_of (rq_store q)) (ds @ [s]) = map Some (xs @ [y])"
      using Cons.prems(2) y by simp
    moreover have "rq_rep q ((ds @ [s]) @ rs) e fr j" using Cons.prems(1) by simp
    moreover have "map (value_of (rq_store q)) rs = map Some zs" using Cons.prems(3) ys by simp
    moreover have "ip \<longleftrightarrow> j < length (ds @ [s])" using ip by auto
    ultimately have IH: "\<exists>q'. remove_loop f (hd (rs @ [e])) e ip q = Some (Ret q')
        \<and> rq_abs q' ((xs @ [y]) @ filter (\<lambda>v. \<not> f v) zs) \<and> rq_max q' = rq_max q"
      using Cons.IH Cons.prems(5) by blast
    have "next_of (rq_store q) s = hd (rs @ [e])"
      using ring_next_mid [of "rq_store q" ds s] rq_repD(1) [OF Cons.prems(1)]
      by (cases rs) auto
    then show ?thesis using IH False se y
      by (simp add: remove_loop.simps [of f s] Let_def ys ip_def)
  next
    case True
    let ?r = "remove_node s e ip q"
    have jd: "j \<noteq> length ds"
      using True y anchor_keptD [OF Cons.prems(5)] rq_rep_anchor_iff [OF Cons.prems(1)] by blast
    with ip have ip': "ip \<longleftrightarrow> j < length ds" by auto
    obtain n j' where rep': "rq_rep (fst ?r) (ds @ rs) e (n # fr) j'"
      and j': "j' < length ds \<longleftrightarrow> j < length ds"
      using remove_node_rep [OF Cons.prems(1) jd ip'] by blast
    have R: "ring (rq_store q) (ds @ s # rs @ e # fr)"
      using rq_repD(1) [OF Cons.prems(1)] by simp
    note node = remove_node_ring [OF R, where isPrev = ip]
    have vals: "map (value_of (rq_store (fst ?r))) ds = map Some xs"
      "map (value_of (rq_store (fst ?r))) rs = map Some zs"
      using node(3) Cons.prems(2,3) ys by (simp_all cong: map_cong)
    have "rq_ring q = Some ((ds @ s # rs @ e # fr) ! j)" "j < length (ds @ s # rs @ e # fr)"
      using rq_repD(2,3) [OF Cons.prems(1)] by simp_all
    then have kept: "anchor_kept f (fst ?r)"
      using Cons.prems(5) node(3) [OF nth_mem] by (simp add: anchor_kept_def)
    have "\<exists>q'. remove_loop f (hd (rs @ [e])) e ip (fst ?r) = Some (Ret q')
        \<and> rq_abs q' (xs @ filter (\<lambda>v. \<not> f v) zs) \<and> rq_max q' = rq_max (fst ?r)"
      using Cons.IH [OF rep' vals _ kept] ip' j' by simp
    then show ?thesis using True se y node(2)
      by (simp add: remove_loop.simps [of f s] Let_def ys ip_def)
  qed
qed

lemma walk_rep:
  "ring h (ds @ rs @ e # fr) \<Longrightarrow> map (value_of h) rs = map Some ys \<Longrightarrow>
   walk h (hd (rs @ [e])) e acc = Some (Ret (acc @ ys))"
proof (induction rs arbitrary: ds ys acc)
  case (Cons s rs)
  obtain y zs where ys: "ys = y # zs" using Cons.prems(2) by (cases ys) auto
  have se: "s \<noteq> e" using ringD(2) [OF Cons.prems(1)] by auto
  have "next_of h s = hd (rs @ [e])"
    using ring_next_mid [of h ds s] Cons.prems(1) by (cases rs) auto
  moreover have "walk h (hd (rs @ [e])) e (acc @ [y]) = Some (Ret ((acc @ [y]) @ zs))"
    using Cons.IH [of "ds @ [s]" zs "acc @ [y]"] Cons.prems ys by simp
  ultimately show ?case using se Cons.prems(2) ys by (simp add: walk.simps [of h s])
qed (simp add: walk.simps)

lemma do_loop_rep:
  "ring h (ds @ rs @ e # fr) \<Longrightarrow> map (value_of h) rs = map Some ys \<Longrightarrow>
   do_loop f h (hd (rs @ [e])) e st = Some (Ret (fold f ys st))"
proof (induction rs arbitrary: ds ys st)
  case (Cons s rs)
  obtain y zs where ys: "ys = y # zs" using Cons.prems(2) by (cases ys) auto
  have se: "s \<noteq> e" using ringD(2) [OF Cons.prems(1)] by auto
  have "next_of h s = hd (rs @ [e])"
    using ring_next_mid [of h ds s] Cons.prems(1) by (cases rs) auto
  moreover have "do_loop f h (hd (rs @ [e])) e (f y st) = Some (Ret (fold f zs (f y st)))"
    using Cons.IH [of "ds @ [s]" zs "f y st"] Cons.prems ys by simp
  ultimately show ?case using se Cons.prems(2) ys by (simp add: do_loop.simps [of f h s])
qed (simp add: do_loop.simps)

section \<open>The operations on the abstract queue\<close>

lemma rq_rep_cap: "rq_rep q ns e fr j \<Longrightarrow> rq_cap q = length ns + length fr"
  by (erule rq_rep_idx) (simp add: rq_cap_def)

lemma abs_Put_full:
  assumes "rq_abs q es" "length es = rq_cap q"
  shows "RingQueue_Put q v = Ret (q, Some QueueFull)"
proof -
  obtain ns e fr j where r: "rq_rep q ns e fr j" "map (value_of (rq_store q)) ns = map Some es"
    using assms(1) by (auto simp: rq_abs_def)
  have "length ns = length es" using r(2) by (rule map_eq_imp_length_eq)
  then have "fr = []" using assms(2) rq_rep_cap [OF r(1)] by simp
  with r(1) show ?thesis by (simp add: Put_full)
qed

lemma abs_Put:
  assumes "rq_abs q es" "length es < rq_cap q"
  shows "\<exists>q'. RingQueue_Put q v = Ret (q', None) \<and> rq_abs q' (es @ [v]) \<and> rq_cap q' = rq_cap q"
proof -
  obtain ns e fr j where r: "rq_rep q ns e fr j" "map (value_of (rq_store q)) ns = map Some es"
    using assms(1) by (auto simp: rq_abs_def)
  have "length ns = length es" using r(2) by (rule map_eq_imp_length_eq)
  then obtain f fr' where "fr = f # fr'"
    using assms(2) rq_rep_cap [OF r(1)] by (cases fr) simp_all
  then show ?thesis using Put_rep [of q ns e f fr' j es v] r unfolding rq_abs_def rq_cap_def by metis
qed

lemma abs_Get_empty: "rq_abs q [] \<Longrightarrow> RingQueue_Get q = Ret (q, Inl QueueNull)"
  by (auto simp: rq_abs_def RingQueue_Get_def dest: rq_rep_empty_iff)

lemma abs_Get:
  assumes "rq_abs q (x # es)"
  shows "\<exists>q'. RingQueue_Get q = Ret (q', Inr x) \<and> rq_abs q' es \<and> rq_cap q' = rq_cap q"
proof -
  obtain s ns e fr j where "rq_rep q (s # ns) e fr j"
    "map (value_of (rq_store q)) (s # ns) = map Some (x # es)"
    using assms by (auto simp: rq_abs_def map_eq_Cons_conv)
  then show ?thesis using Get_rep [of q s ns e fr j x es] unfolding rq_abs_def rq_cap_def by metis
qed

lemma abs_Len: "rq_abs q es \<Longrightarrow> RingQueue_Len q = int (length es)"
  by (auto simp: rq_abs_def rq_rep_Len dest: map_eq_imp_length_eq)

lemma abs_List: "rq_abs q es \<Longrightarrow> RingQueue_List q = Some (Ret es)"
  unfolding rq_abs_def RingQueue_List_def
  using rq_repD(3) rq_rep_start rq_rep_end walk_rep [of _ "[]"] rq_repD(1) by fastforce

lemma abs_Do: "rq_abs q es \<Longrightarrow> RingQueue_Do f q st = Some (Ret (fold f es st))"
  unfolding rq_abs_def RingQueue_Do_def
  using rq_repD(3) rq_rep_start rq_rep_end do_loop_rep [of _ "[]"] rq_repD(1) by fastforce

lemma abs_cap: "rq_abs q es \<Longrightarrow> length es \<le> rq_cap q"
  by (auto simp: rq_abs_def dest!: rq_rep_cap map_eq_imp_length_eq)

lemma abs_Remove:
  assumes "rq_abs q es" "anchor_kept f q"
  shows "\<exists>q'. RingQueue_Remove f q = Some (Ret q') \<and> rq_abs q' (filter (\<lambda>v. \<not> f v) es)
    \<and> rq_cap q' = rq_cap q"
proof -
  obtain ns e fr j where r: "rq_rep q ns e fr j" "map (value_of (rq_store q)) ns = map Some es"
    using assms(1) by (auto simp: rq_abs_def)
  show ?thesis
    using remove_loop_rep [of q "[]" ns e fr j "[]" es False f] r assms(2)
      rq_repD(3) [OF r(1)] rq_rep_start [OF r(1)] rq_rep_end [OF r(1)]
    by (auto simp: RingQueue_Remove_def rq_cap_def)
qed

section \<open>The contract of a bounded first-in first-out queue\<close>

text \<open>
  A client's session: any list of \<open>Put\<close> and \<open>Get\<close> calls. \<open>run_code\<close> collects what the
  operations return; \<open>run_spec\<close> is the same session on a list of at most \<open>n\<close> values.
\<close>

datatype 'a cmd = CPut 'a | CGet

datatype 'a obs = OPut "queue_error option" | OGet "queue_error + 'a"

fun run_code :: "('q \<Rightarrow> 'a \<Rightarrow> ('q \<times> queue_error option) go) \<Rightarrow> ('q \<Rightarrow> ('q \<times> (queue_error + 'a)) go)
    \<Rightarrow> 'q \<Rightarrow> 'a cmd list \<Rightarrow> ('q \<times> 'a obs list) go" where
  "run_code put get q [] = Ret (q, [])"
| "run_code put get q (CPut v # cs) =
     go_bind (put q v) (\<lambda>(q', r).
       go_bind (run_code put get q' cs) (\<lambda>(q'', os). Ret (q'', OPut r # os)))"
| "run_code put get q (CGet # cs) =
     go_bind (get q) (\<lambda>(q', r).
       go_bind (run_code put get q' cs) (\<lambda>(q'', os). Ret (q'', OGet r # os)))"

fun run_spec :: "nat \<Rightarrow> 'a list \<Rightarrow> 'a cmd list \<Rightarrow> 'a list \<times> 'a obs list" where
  "run_spec n es [] = (es, [])"
| "run_spec n es (CPut v # cs) =
     (if length es < n then (case run_spec n (es @ [v]) cs of (es', os) \<Rightarrow> (es', OPut None # os))
      else (case run_spec n es cs of (es', os) \<Rightarrow> (es', OPut (Some QueueFull) # os)))"
| "run_spec n [] (CGet # cs) = (case run_spec n [] cs of (es', os) \<Rightarrow> (es', OGet (Inl QueueNull) # os))"
| "run_spec n (x # es) (CGet # cs) = (case run_spec n es cs of (es', os) \<Rightarrow> (es', OGet (Inr x) # os))"

text \<open>
  What a client of the queue relies on: \<open>rep q es\<close> relates a state to its contents, and the
  two operations act on the contents. That every session behaves like the session on the
  bounded list is proved once, from the contract.
\<close>

locale bounded_fifo =
  fixes rep :: "'q \<Rightarrow> 'a list \<Rightarrow> bool"
    and cap :: "'q \<Rightarrow> nat"
    and put :: "'q \<Rightarrow> 'a \<Rightarrow> ('q \<times> queue_error option) go"
    and get :: "'q \<Rightarrow> ('q \<times> (queue_error + 'a)) go"
  assumes put_full: "rep q es \<Longrightarrow> length es = cap q \<Longrightarrow> put q v = Ret (q, Some QueueFull)"
    and put_ok: "rep q es \<Longrightarrow> length es < cap q \<Longrightarrow>
      \<exists>q'. put q v = Ret (q', None) \<and> rep q' (es @ [v]) \<and> cap q' = cap q"
    and get_empty: "rep q [] \<Longrightarrow> get q = Ret (q, Inl QueueNull)"
    and get_ok: "rep q (x # es) \<Longrightarrow> \<exists>q'. get q = Ret (q', Inr x) \<and> rep q' es \<and> cap q' = cap q"
    and within_cap: "rep q es \<Longrightarrow> length es \<le> cap q"
begin

lemma run_refines:
  "rep q es \<Longrightarrow> cap q = n \<Longrightarrow>
   \<exists>q'. run_code put get q cs = Ret (q', snd (run_spec n es cs)) \<and> rep q' (fst (run_spec n es cs))
     \<and> cap q' = n"
proof (induction n es cs arbitrary: q rule: run_spec.induct)
  case (2 n es v cs)
  show ?case
  proof (cases "length es < n")
    case True
    with "2.prems" obtain q1 where q1: "put q v = Ret (q1, None)" "rep q1 (es @ [v])" "cap q1 = n"
      using put_ok by metis
    show ?thesis using "2.IH"(1) [OF True q1(2,3)] q1(1) True by (auto simp: split_def)
  next
    case False
    then have "length es = cap q" using within_cap [OF "2.prems"(1)] "2.prems"(2) by simp
    then have "put q v = Ret (q, Some QueueFull)" by (rule put_full [OF "2.prems"(1)])
    then show ?thesis using "2.IH"(2) [OF False "2.prems"] False by (auto simp: split_def)
  qed
next
  case (3 n cs)
  show ?case using "3.IH" [OF "3.prems"] get_empty [OF "3.prems"(1)] by (auto simp: split_def)
next
  case (4 n x es cs)
  obtain q1 where q1: "get q = Ret (q1, Inr x)" "rep q1 es" "cap q1 = n"
    using get_ok [OF "4.prems"(1)] "4.prems"(2) by metis
  show ?case using "4.IH" [OF q1(2,3)] q1(1) by (auto simp: split_def)
qed auto

lemma run_bounded: "rep q es \<Longrightarrow> run_code put get q cs = Ret (q', os) \<Longrightarrow>
    \<exists>es'. rep q' es' \<and> length es' \<le> cap q"
  using run_refines [of q es "cap q" cs] within_cap by fastforce

end

interpretation rq: bounded_fifo rq_abs rq_cap RingQueue_Put RingQueue_Get
  by unfold_locales (fact abs_Put_full abs_Put abs_Get_empty abs_Get abs_cap)+

section \<open>Properties of the queue\<close>

text \<open>
  C1: for every capacity \<open>n \<ge> 0\<close> and every sequence of \<open>Put\<close> and \<open>Get\<close> calls on a new
  \<open>RingQueue\<close>, the code never panics and returns exactly what a bounded list returns: values
  come out in the order they went in, \<open>QueueFull\<close> exactly when \<open>n\<close> values are held, \<open>QueueNull\<close>
  exactly when none is; afterwards \<open>List\<close> and \<open>Len\<close> report the contents of the bounded list.
\<close>

theorem ring_queue_fifo:
  assumes "0 \<le> n"
  shows "\<exists>q'. run_code RingQueue_Put RingQueue_Get (NewRingQueue n) cs
      = Ret (q', snd (run_spec (nat n) [] cs))
    \<and> RingQueue_List q' = Some (Ret (fst (run_spec (nat n) [] cs)))
    \<and> RingQueue_Len q' = int (length (fst (run_spec (nat n) [] cs)))"
  using rq.run_refines [OF NewRingQueue_abs [OF assms], of cs] abs_List abs_Len by metis

theorem ring_queue_fifo_witness:
  "(0::int) \<le> 2 \<and> (\<exists>q'. run_code RingQueue_Put RingQueue_Get (NewRingQueue 2)
       [CPut (7::int), CPut 8, CPut 9, CGet, CGet, CGet]
     = Ret (q', [OPut None, OPut None, OPut (Some QueueFull), OGet (Inr 7), OGet (Inr 8), OGet (Inl QueueNull)]))"
  using ring_queue_fifo [of 2 "[CPut (7::int), CPut 8, CPut 9, CGet, CGet, CGet]"] by auto

text \<open>
  \<open>Do\<close> terminates without a panic and calls its callback once per value, front to back, on
  every queue state that a session of \<open>Put\<close> and \<open>Get\<close> calls reaches.
\<close>

theorem ring_queue_do:
  assumes "0 \<le> n" and "run_code RingQueue_Put RingQueue_Get (NewRingQueue n) cs = Ret (q, os)"
  shows "RingQueue_Do f q st = Some (Ret (fold f (fst (run_spec (nat n) [] cs)) st))"
  using rq.run_refines [OF NewRingQueue_abs [OF assms(1)], of cs] assms(2) abs_Do by fastforce

theorem ring_queue_do_witness:
  "\<exists>q os. run_code RingQueue_Put RingQueue_Get (NewRingQueue 2) [CPut CHR ''a'', CPut CHR ''b'', CGet] = Ret (q, os)
     \<and> RingQueue_Do (\<lambda>c cs. cs @ [c]) q [] = Some (Ret ''b'')"
proof -
  have n: "(0::int) \<le> 2" by simp
  obtain q os where r: "run_code RingQueue_Put RingQueue_Get (NewRingQueue 2)
      [CPut CHR ''a'', CPut CHR ''b'', CGet] = Ret (q, os)"
    using rq.run_refines [OF NewRingQueue_abs [OF n], of "[CPut CHR ''a'', CPut CHR ''b'', CGet]"] by blast
  show ?thesis using ring_queue_do [OF n r, of "\<lambda>c cs. cs @ [c]" "[]"] r by auto
qed

text \<open>
  C22: \<open>Remove\<close> terminates, does not panic and keeps exactly the values its predicate rejects, in
  order and with the same capacity, whenever the value in the anchor node is not removed;
  the result is again a queue on which every other theorem applies.
\<close>

theorem ring_queue_remove:
  assumes "rq_abs q es" and "anchor_kept f q"
  shows "\<exists>q'. RingQueue_Remove f q = Some (Ret q') \<and> rq_abs q' (filter (\<lambda>v. \<not> f v) es)
    \<and> rq_cap q' = rq_cap q \<and> RingQueue_List q' = Some (Ret (filter (\<lambda>v. \<not> f v) es))
    \<and> RingQueue_Len q' = int (length (filter (\<lambda>v. \<not> f v) es))"
  using abs_Remove [OF assms] abs_List abs_Len by metis

definition queue_12 :: "int RingQueue" where
  "queue_12 = (case run_code RingQueue_Put RingQueue_Get (NewRingQueue 2) [CPut 1, CPut 2] of Ret (q, _) \<Rightarrow> q | Panic _ \<Rightarrow> NewRingQueue 2)"

lemma queue_12_abs: "rq_abs queue_12 [1, 2]"
proof -
  have "(0::int) \<le> 2" by simp
  note new = NewRingQueue_abs [OF this, where 'a = int]
  have "\<exists>q'. run_code RingQueue_Put RingQueue_Get (NewRingQueue 2) [CPut 1, CPut 2] = Ret (q', [OPut None, OPut None]) \<and> rq_abs q' [1, 2::int]"
    using rq.run_refines [OF new, of "[CPut 1, CPut 2]"] by auto
  then show ?thesis by (auto simp: queue_12_def simp del: run_code.simps)
qed

theorem ring_queue_remove_witness:
  "rq_abs queue_12 [1, 2] \<and> anchor_kept (\<lambda>v. v = 2) queue_12 \<and>
   (\<exists>q'. RingQueue_Remove (\<lambda>v. v = 2) queue_12 = Some (Ret q') \<and> RingQueue_List q' = Some (Ret [1]))"
proof -
  have k: "anchor_kept (\<lambda>v. v = 2) queue_12" by code_simp
  show ?thesis using ring_queue_remove [OF queue_12_abs k] queue_12_abs k by auto
qed

text \<open>
  without that condition \<open>Remove\<close> is wrong. On the queue that holds 1 and 2, removing the
  value 1, which sits in the anchor node, unlinks the node that every later operation starts
  from: \<open>List\<close> is then empty although 2 was never removed, while \<open>Len\<close> still reports one
  element and \<open>Get\<close> returns the removed value 1.
\<close>

theorem ring_queue_remove_anchor_loses:
  "\<exists>q' q''. RingQueue_Remove (\<lambda>v. v = 1) queue_12 = Some (Ret q') \<and>
     RingQueue_List q' = Some (Ret []) \<and> RingQueue_Len q' = 1 \<and>
     RingQueue_Get q' = Ret (q'', Inr 1)"
proof -
  have "case RingQueue_Remove (\<lambda>v. v = 1) queue_12 of
      Some (Ret q') \<Rightarrow> RingQueue_List q' = Some (Ret []) \<and> RingQueue_Len q' = 1 \<and>
        (case RingQueue_Get q' of Ret (q'', r) \<Rightarrow> r = Inr 1 | Panic _ \<Rightarrow> False)
    | _ \<Rightarrow> False"
    by code_simp
  then show ?thesis by (auto split: option.splits go.splits)
qed

end
