(* ===== verification/Sets.thy ===== *)
theory Sets
  imports GoPrelude
begin

text \<open>
  \<open>sets/sets.go\<close>: the generic type \<open>Set[T]\<close>, a map from the elements to the number of elements
  the set had when each was inserted. The element type is linearly ordered (a floating-point
  NaN, which is not equal to itself, is outside the model). Methods that range over the map
  take the iteration order, methods that sort take the sort.
\<close>

section \<open>The type and its operations\<close>

type_synonym 't Set = "('t, int) gomap"

definition Set_Len :: "'t Set \<Rightarrow> int" where
  "Set_Len s = int (length s)"

fun Set_Insert :: "'t Set \<Rightarrow> 't list \<Rightarrow> 't Set" where
  "Set_Insert s [] = s"
| "Set_Insert s (item # items) =
     Set_Insert (case map_of s item of
                   None \<Rightarrow> AList.update item (Set_Len s) s
                 | Some _ \<Rightarrow> s) items"

definition Set_New :: "'t list \<Rightarrow> 't Set" where
  "Set_New items = Set_Insert [] items"

fun Set_Delete :: "'t Set \<Rightarrow> 't list \<Rightarrow> 't Set" where
  "Set_Delete s [] = s"
| "Set_Delete s (item # items) = Set_Delete (AList.delete item s) items"

definition Set_Has :: "'t Set \<Rightarrow> 't \<Rightarrow> bool" where
  "Set_Has s item = (case map_of s item of None \<Rightarrow> False | Some _ \<Rightarrow> True)"

fun Set_HasAll :: "'t Set \<Rightarrow> 't list \<Rightarrow> bool" where
  "Set_HasAll s [] = True"
| "Set_HasAll s (item # items) = (if \<not> Set_Has s item then False else Set_HasAll s items)"

fun Set_HasAny :: "'t Set \<Rightarrow> 't list \<Rightarrow> bool" where
  "Set_HasAny s [] = False"
| "Set_HasAny s (item # items) = (if Set_Has s item then True else Set_HasAny s items)"

text \<open>\<open>List\<close> sorts the pairs of index and item by index; \<open>sortableSet.List\<close> drops the indices.\<close>

definition Set_List :: "('t Set \<Rightarrow> 't Set) \<Rightarrow> ((int \<times> 't) list \<Rightarrow> (int \<times> 't) list) \<Rightarrow> 't Set \<Rightarrow> 't list" where
  "Set_List iter srt s = map snd (srt (map (\<lambda>(item, index). (index, item)) (iter s)))"

definition Set_SortedList :: "('t Set \<Rightarrow> 't Set) \<Rightarrow> ('t list \<Rightarrow> 't list) \<Rightarrow> 't Set \<Rightarrow> 't list" where
  "Set_SortedList iter srt s = srt (map fst (iter s))"

definition Set_Clone :: "('t Set \<Rightarrow> 't Set) \<Rightarrow> ((int \<times> 't) list \<Rightarrow> (int \<times> 't) list) \<Rightarrow> 't Set \<Rightarrow> 't Set" where
  "Set_Clone iter srt s = Set_New (Set_List iter srt s)"

fun difference_loop :: "'t Set \<Rightarrow> 't list \<Rightarrow> 't Set \<Rightarrow> 't Set" where
  "difference_loop s2 [] result = result"
| "difference_loop s2 (key # keys) result =
     difference_loop s2 keys (if \<not> Set_Has s2 key then Set_Insert result [key] else result)"

definition Set_Difference :: "('t Set \<Rightarrow> 't Set) \<Rightarrow> 't Set \<Rightarrow> 't Set \<Rightarrow> 't Set" where
  "Set_Difference iter s s2 = difference_loop s2 (map fst (iter s)) (Set_New [])"

fun union_loop :: "'t list \<Rightarrow> 't Set \<Rightarrow> 't Set" where
  "union_loop [] result = result"
| "union_loop (key # keys) result = union_loop keys (Set_Insert result [key])"

definition Set_Union :: "('t Set \<Rightarrow> 't Set) \<Rightarrow> ('t Set \<Rightarrow> 't Set) \<Rightarrow> 't Set \<Rightarrow> 't Set \<Rightarrow> 't Set" where
  "Set_Union iter iter2 s s2 = union_loop (map fst (iter2 s2)) (union_loop (map fst (iter s)) (Set_New []))"

fun intersection_loop :: "'t Set \<Rightarrow> 't list \<Rightarrow> 't Set \<Rightarrow> 't Set" where
  "intersection_loop other [] result = result"
| "intersection_loop other (key # keys) result =
     intersection_loop other keys (if Set_Has other key then Set_Insert result [key] else result)"

definition Set_Intersection :: "('t Set \<Rightarrow> 't Set) \<Rightarrow> 't Set \<Rightarrow> 't Set \<Rightarrow> 't Set" where
  "Set_Intersection iter s s2 =
     (let (walk, other) = (if Set_Len s < Set_Len s2 then (s, s2) else (s2, s))
      in intersection_loop other (map fst (iter walk)) (Set_New []))"

fun superset_loop :: "'t Set \<Rightarrow> 't list \<Rightarrow> bool" where
  "superset_loop s [] = True"
| "superset_loop s (item # items) = (if \<not> Set_Has s item then False else superset_loop s items)"

definition Set_IsSuperset :: "('t Set \<Rightarrow> 't Set) \<Rightarrow> 't Set \<Rightarrow> 't Set \<Rightarrow> bool" where
  "Set_IsSuperset iter s s2 = superset_loop s (map fst (iter s2))"

definition Set_Equal :: "('t Set \<Rightarrow> 't Set) \<Rightarrow> 't Set \<Rightarrow> 't Set \<Rightarrow> bool" where
  "Set_Equal iter s s2 \<longleftrightarrow> Set_Len s = Set_Len s2 \<and> Set_IsSuperset iter s s2"

text \<open>\<open>PopAny\<close> takes the first key of the iteration; \<^const>\<open>None\<close> is the pair of the zero value
  and \<open>false\<close>.\<close>

definition Set_PopAny :: "('t Set \<Rightarrow> 't Set) \<Rightarrow> 't Set \<Rightarrow> 't Set \<times> 't option" where
  "Set_PopAny iter s =
     (case iter s of [] \<Rightarrow> (s, None) | (key, _) # _ \<Rightarrow> (Set_Delete s [key], Some key))"

section \<open>The set contract\<close>

abbreviation members :: "'t Set \<Rightarrow> 't set" where
  "members s \<equiv> fst ` set s"

text \<open>The contract of a finite set with insertion, deletion, membership and size, and what
  follows from it for code that builds a set by repeated insertion.\<close>

locale set_contract =
  fixes empty :: 's
    and insert1 :: "'s \<Rightarrow> 't \<Rightarrow> 's"
    and delete1 :: "'s \<Rightarrow> 't \<Rightarrow> 's"
    and has :: "'s \<Rightarrow> 't \<Rightarrow> bool"
    and len :: "'s \<Rightarrow> int"
    and elems :: "'s \<Rightarrow> 't set"
    and ok :: "'s \<Rightarrow> bool"
  assumes empty_elems: "elems empty = {}"
    and empty_ok: "ok empty"
    and insert_elems: "ok s \<Longrightarrow> elems (insert1 s x) = insert x (elems s)"
    and insert_ok: "ok s \<Longrightarrow> ok (insert1 s x)"
    and delete_elems: "ok s \<Longrightarrow> elems (delete1 s x) = elems s - {x}"
    and delete_ok: "ok s \<Longrightarrow> ok (delete1 s x)"
    and has_iff: "ok s \<Longrightarrow> has s x \<longleftrightarrow> x \<in> elems s"
    and len_card: "ok s \<Longrightarrow> len s = int (card (elems s))"
    and finite_elems: "ok s \<Longrightarrow> finite (elems s)"
begin

lemma foldl_insert: "ok s \<Longrightarrow> ok (foldl insert1 s xs) \<and> elems (foldl insert1 s xs) = elems s \<union> set xs"
  by (induction xs arbitrary: s) (auto simp: insert_elems insert_ok)

lemma foldl_delete: "ok s \<Longrightarrow> ok (foldl delete1 s xs) \<and> elems (foldl delete1 s xs) = elems s - set xs"
  by (induction xs arbitrary: s) (auto simp: delete_elems delete_ok)

lemma foldl_insert_filter:
  "ok s \<Longrightarrow> ok (foldl (\<lambda>r k. if p k then insert1 r k else r) s xs) \<and>
     elems (foldl (\<lambda>r k. if p k then insert1 r k else r) s xs) = elems s \<union> {x \<in> set xs. p x}"
  by (induction xs arbitrary: s) (auto simp: insert_elems insert_ok)

lemma equal_by_size: "ok s \<Longrightarrow> ok t \<Longrightarrow> len s = len t \<and> elems t \<subseteq> elems s \<longleftrightarrow> elems s = elems t"
proof -
  assume "ok s" "ok t"
  then have "len s = len t \<longleftrightarrow> card (elems t) = card (elems s)" by (auto simp: len_card)
  then show ?thesis using card_subset_eq [OF finite_elems [OF \<open>ok s\<close>], of "elems t"] by auto
qed

end

lemma update_append: "x \<notin> members s \<Longrightarrow> AList.update x v s = s @ [(x, v)]"
  by (induction s) auto

lemma map_of_members: "map_of s x = None \<longleftrightarrow> x \<notin> members s"
  by (simp add: map_of_eq_None_iff)

lemma Set_Has_iff: "Set_Has s x \<longleftrightarrow> x \<in> members s"
  using map_of_members [of s x] by (cases "map_of s x") (simp_all add: Set_Has_def)

lemma Set_Insert1: "Set_Insert s [x] = (if x \<in> members s then s else s @ [(x, Set_Len s)])"
  using map_of_members [of s x] by (cases "map_of s x") (simp_all add: update_append)

lemma Set_Insert_foldl: "Set_Insert s xs = foldl (\<lambda>s x. Set_Insert s [x]) s xs"
  by (induction xs arbitrary: s) simp_all

lemma Set_Insert_append: "Set_Insert (Set_Insert s xs) ys = Set_Insert s (xs @ ys)"
  by (induction xs arbitrary: s) simp_all

lemma Set_Delete_foldl: "Set_Delete s xs = foldl (\<lambda>s x. Set_Delete s [x]) s xs"
  by (induction xs arbitrary: s) simp_all

lemma AList_delete_members: "members (AList.delete x s) = members s - {x}"
  by (auto simp: AList.delete_eq)

interpretation goset: set_contract "[] :: 't Set" "\<lambda>s x. Set_Insert s [x]" "\<lambda>s x. Set_Delete s [x]"
  Set_Has Set_Len members gomap_ok
proof (unfold_locales, goal_cases)
  case (3 s x)
  show ?case unfolding Set_Insert1 by auto
next
  case (4 s x)
  then show ?case unfolding Set_Insert1 by (auto simp: gomap_ok_def)
next
  case (5 s x)
  then show ?case by (simp add: AList_delete_members)
next
  case (6 s x)
  then show ?case by (simp add: gomap_ok_def distinct_delete)
next
  case (8 s)
  then show ?case by (metis Set_Len_def distinct_card gomap_ok_def length_map list.set_map)
qed (simp_all add: gomap_ok_def Set_Has_iff)

lemma difference_loop_foldl:
  "difference_loop s2 keys r = foldl (\<lambda>r k. if \<not> Set_Has s2 k then Set_Insert r [k] else r) r keys"
  by (induction s2 keys r rule: difference_loop.induct) simp_all

lemma union_loop_foldl: "union_loop keys r = foldl (\<lambda>r k. Set_Insert r [k]) r keys"
  by (induction keys r rule: union_loop.induct) simp_all

lemma intersection_loop_foldl:
  "intersection_loop s2 keys r = foldl (\<lambda>r k. if Set_Has s2 k then Set_Insert r [k] else r) r keys"
  by (induction s2 keys r rule: intersection_loop.induct) simp_all

lemma superset_loop_iff: "superset_loop s keys \<longleftrightarrow> set keys \<subseteq> members s"
  by (induction s keys rule: superset_loop.induct) (auto simp: Set_Has_iff)

lemma Set_New_ok [simp]: "gomap_ok (Set_New xs)" "members (Set_New xs) = set xs"
  using goset.foldl_insert [OF goset.empty_ok, of xs]
  by (simp_all add: Set_New_def Set_Insert_foldl [of "[]" xs] del: Set_Insert.simps)

lemmas goset_loops = difference_loop_foldl union_loop_foldl intersection_loop_foldl
  goset.foldl_insert goset.foldl_insert_filter goset.foldl_delete

section \<open>Properties of the set operations\<close>

text \<open>
  the binary operations compute difference, union and intersection of the memberships,
  whatever order the language chooses to range over the maps, and their results are
  well-formed sets (every element once).
\<close>

theorem set_algebra:
  assumes "gomap_ok s" "gomap_ok s2" "range_order iter" "range_order iter2"
  shows "members (Set_Difference iter s s2) = members s - members s2 \<and>
    members (Set_Union iter iter2 s s2) = members s \<union> members s2 \<and>
    members (Set_Intersection iter s s2) = members s \<inter> members s2 \<and>
    gomap_ok (Set_Difference iter s s2) \<and> gomap_ok (Set_Union iter iter2 s s2) \<and>
    gomap_ok (Set_Intersection iter s s2)"
proof (intro conjI)
  show "members (Set_Difference iter s s2) = members s - members s2" "gomap_ok (Set_Difference iter s s2)"
    using assms by (auto simp: Set_Difference_def goset_loops Set_Has_iff)
  show "members (Set_Union iter iter2 s s2) = members s \<union> members s2" "gomap_ok (Set_Union iter iter2 s s2)"
    using assms by (auto simp: Set_Union_def goset_loops simp del: Set_Insert.simps)
  show "members (Set_Intersection iter s s2) = members s \<inter> members s2" "gomap_ok (Set_Intersection iter s s2)"
    using assms by (auto simp: Set_Intersection_def goset_loops Set_Has_iff Let_def)
qed

theorem set_algebra_witness:
  "members (Set_Difference rev (Set_New [1, 2, 3::int]) (Set_New [2])) = {1, 2, 3} - {2} \<and>
   members (Set_Intersection rev (Set_New [1, 2, 3::int]) (Set_New [2])) = {1, 2, 3} \<inter> {2}"
  using set_algebra [of "Set_New [1, 2, 3::int]" "Set_New [2]" rev rev] by simp

lemma HasAll_iff: "Set_HasAll s xs \<longleftrightarrow> set xs \<subseteq> members s"
  by (induction s xs rule: Set_HasAll.induct) (auto simp: Set_Has_iff)

lemma HasAny_iff: "Set_HasAny s xs \<longleftrightarrow> set xs \<inter> members s \<noteq> {}"
  by (induction s xs rule: Set_HasAny.induct) (auto simp: Set_Has_iff)

text \<open>
  \<open>Equal\<close> and \<open>IsSuperset\<close> decide equality and inclusion of the memberships, \<open>Has\<close>,
  \<open>HasAll\<close> and \<open>HasAny\<close> decide membership.
\<close>

theorem set_predicates:
  assumes "gomap_ok s" "gomap_ok s2" "range_order iter"
  shows "(Set_Equal iter s s2 \<longleftrightarrow> members s = members s2) \<and>
    (Set_IsSuperset iter s s2 \<longleftrightarrow> members s2 \<subseteq> members s) \<and>
    (Set_HasAll s xs \<longleftrightarrow> set xs \<subseteq> members s) \<and> (Set_HasAny s xs \<longleftrightarrow> set xs \<inter> members s \<noteq> {})"
proof -
  have "Set_IsSuperset iter s s2 \<longleftrightarrow> members s2 \<subseteq> members s"
    using assms(3) by (simp add: Set_IsSuperset_def superset_loop_iff)
  then show ?thesis
    using goset.equal_by_size [OF assms(1,2)] by (simp add: Set_Equal_def HasAll_iff HasAny_iff)
qed

theorem set_predicates_witness:
  "(Set_Equal rev (Set_New ''ab'') (Set_New ''ba'') \<longleftrightarrow> set ''ab'' = set ''ba'') \<and>
   (Set_HasAny (Set_New ''ab'') ''b'' \<longleftrightarrow> set ''b'' \<inter> set ''ab'' \<noteq> {})"
  using set_predicates [of "Set_New ''ab''" "Set_New ''ba''" rev "''b''"] by (simp del: Set_HasAny.simps)

text \<open>
  \<open>PopAny\<close> removes exactly the element it returns, and reports none exactly on an empty
  set; \<open>Delete\<close> removes exactly its arguments.
\<close>

theorem set_removal:
  assumes "gomap_ok s" "range_order iter"
  shows "members (Set_Delete s xs) = members s - set xs \<and> gomap_ok (Set_Delete s xs) \<and>
    (case Set_PopAny iter s of
       (s', None) \<Rightarrow> members s = {} \<and> s' = s
     | (s', Some x) \<Rightarrow> x \<in> members s \<and> members s' = members s - {x} \<and> Set_Len s' = Set_Len s - 1)"
proof (intro conjI)
  show "members (Set_Delete s xs) = members s - set xs" "gomap_ok (Set_Delete s xs)"
    using goset.foldl_delete [OF assms(1), of xs] by (simp_all add: Set_Delete_foldl [of s xs])
  show "case Set_PopAny iter s of (s', None) \<Rightarrow> members s = {} \<and> s' = s
     | (s', Some x) \<Rightarrow> x \<in> members s \<and> members s' = members s - {x} \<and> Set_Len s' = Set_Len s - 1"
  proof (cases "iter s")
    case Nil
    then show ?thesis using range_order_set [OF assms(2), of s] by (simp add: Set_PopAny_def)
  next
    case (Cons kv kvs)
    then have x: "fst kv \<in> members s" using range_order_set [OF assms(2), of s] by force
    have ok: "gomap_ok (Set_Delete s [fst kv])" by (rule goset.delete_ok [OF assms(1)])
    have mem: "members (Set_Delete s [fst kv]) = members s - {fst kv}"
      by (rule goset.delete_elems [OF assms(1)])
    have "Set_Len (Set_Delete s [fst kv]) = Set_Len s - 1"
      unfolding goset.len_card [OF ok] goset.len_card [OF assms(1)] mem
      using x card_gt_0_iff [of "members s"] by (auto simp: of_nat_diff Suc_le_eq)
    then show ?thesis using Cons x mem by (cases kv) (simp add: Set_PopAny_def)
  qed
qed

theorem set_removal_witness:
  "members (Set_Delete (Set_New [1, 2, 3::int]) [2, 9]) = {1, 2, 3} - {2, 9}"
  using set_removal [of "Set_New [1, 2, 3::int]" rev "[2, 9]"] by simp

text \<open>
  The insertion order: \<open>indexed s xs\<close> says that the elements of \<open>s\<close> are \<open>xs\<close> and that the stored
  index of each is its position.
\<close>

definition indexed :: "'t Set \<Rightarrow> 't list \<Rightarrow> bool" where
  "indexed s xs \<longleftrightarrow> s = zip xs (map int [0..<length xs]) \<and> distinct xs"

definition first_occurrences :: "'t list \<Rightarrow> 't list" where
  "first_occurrences xs = foldl (\<lambda>acc x. if x \<in> set acc then acc else acc @ [x]) [] xs"

lemma indexed_insert: "indexed s xs \<Longrightarrow> indexed (Set_Insert s [x]) (if x \<in> set xs then xs else xs @ [x])"
proof -
  assume i: "indexed s xs"
  then have "members s = set xs" "Set_Len s = int (length xs)"
    unfolding indexed_def Set_Len_def by (metis list.set_map map_fst_zip length_map length_upt minus_nat.diff_0, simp)
  with i show ?thesis unfolding Set_Insert1 by (auto simp: indexed_def)
qed

lemma indexed_foldl:
  "indexed s acc \<Longrightarrow> indexed (Set_Insert s xs) (foldl (\<lambda>acc x. if x \<in> set acc then acc else acc @ [x]) acc xs)"
proof (induction xs arbitrary: s acc)
  case (Cons x xs)
  have "Set_Insert s (x # xs) = Set_Insert (Set_Insert s [x]) xs" by simp
  then show ?case using Cons.IH [OF indexed_insert [OF Cons.prems, of x]] by simp
qed simp

lemma indexed_List:
  assumes "indexed s xs" "range_order iter" "sort_spec fst srt"
  shows "Set_List iter srt s = xs"
proof -
  let ?ys = "zip (map int [0..<length xs]) xs"
  have "mset (map (\<lambda>(a, b). (b, a)) (iter s)) = mset (map (\<lambda>(a, b). (b, a)) s)"
    by (rule range_order_map [OF assms(2)])
  also have "map (\<lambda>(a, b). (b, a)) s = ?ys"
    using assms(1) by (simp add: indexed_def zip_commute [of "map int [0..<length xs]" xs])
  finally have "srt (map (\<lambda>(a, b). (b, a)) (iter s)) = ?ys"
    by (rule sort_spec_unique [OF assms(3)]) (simp_all add: distinct_map inj_on_def sorted_wrt_iff_nth_less)
  then show ?thesis by (simp add: Set_List_def)
qed

text \<open>
  as long as nothing is deleted, \<open>List\<close> returns the elements in the order of their first
  insertion, for every iteration order of the map and every correct sort; and \<open>Clone\<close> keeps
  both the membership and the order.
\<close>

theorem set_list_insertion_order:
  assumes "range_order iter" "sort_spec fst srt"
  shows "Set_List iter srt (Set_Insert (Set_New xs) ys) = first_occurrences (xs @ ys) \<and>
    Set_List iter srt (Set_Clone iter srt (Set_Insert (Set_New xs) ys)) = first_occurrences (xs @ ys)"
proof -
  have "Set_Insert (Set_New xs) ys = Set_New (xs @ ys)"
    by (simp add: Set_New_def Set_Insert_append)
  moreover have new: "indexed (Set_New zs) (first_occurrences zs)" for zs :: "'a list"
    unfolding Set_New_def first_occurrences_def by (rule indexed_foldl) (simp add: indexed_def)
  moreover have "first_occurrences zs = zs" if "distinct zs" for zs :: "'a list"
    using that by (induction zs rule: rev_induct) (auto simp: first_occurrences_def)
  ultimately show ?thesis
    using indexed_List [OF new assms] by (simp add: Set_Clone_def indexed_def)
qed

theorem set_list_insertion_order_witness:
  "Set_List rev (sort_key fst) (Set_Insert (Set_New [3, 1, 3]) [2, 1::int]) = [3, 1, 2]"
  using set_list_insertion_order [OF range_order_rev sort_spec_sort_key, of "[3, 1, 3]" "[2, 1::int]"]
  by (simp add: first_occurrences_def)

text \<open>
  after a deletion the documented insertion order is lost, because the index of a new
  element is the size of the set: delete \<open>a\<close> and \<open>b\<close> from a set built as \<open>a, b, c\<close>, then
  insert \<open>d\<close>, and every iteration order and every correct sort list \<open>d\<close> before \<open>c\<close>.
\<close>

theorem set_list_order_lost:
  assumes "range_order iter" "sort_spec fst srt"
  shows "Set_List iter srt (Set_Insert (Set_Delete (Set_New ''abc'') ''ab'') ''d'') = ''dc''"
proof -
  have s: "Set_Insert (Set_Delete (Set_New ''abc'') ''ab'') ''d'' = [(CHR ''c'', 2), (CHR ''d'', 1)]"
    by (simp add: Set_New_def Set_Len_def)
  have "mset (map (\<lambda>(a, b). (b, a)) (iter [(CHR ''c'', 2::int), (CHR ''d'', 1)])) =
      mset (map (\<lambda>(a, b). (b, a)) [(CHR ''c'', 2::int), (CHR ''d'', 1)])"
    by (rule range_order_map [OF assms(1)])
  then have "mset (map (\<lambda>(a, b). (b, a)) (iter [(CHR ''c'', 2::int), (CHR ''d'', 1)])) =
      mset [(1::int, CHR ''d''), (2, CHR ''c'')]"
    by simp
  then have "srt (map (\<lambda>(a, b). (b, a)) (iter [(CHR ''c'', 2::int), (CHR ''d'', 1)]))
      = [(1, CHR ''d''), (2, CHR ''c'')]"
    by (rule sort_spec_unique [OF assms(2)]) simp_all
  then show ?thesis unfolding s Set_List_def by simp
qed

theorem set_list_order_lost_witness:
  "Set_List rev (sort_key fst) (Set_Insert (Set_Delete (Set_New ''abc'') ''ab'') ''d'') = ''dc''"
  by (rule set_list_order_lost [OF range_order_rev sort_spec_sort_key])

lemma SortedList_members:
  assumes "gomap_ok s" "range_order iter" "sort_spec (\<lambda>x. x) srt"
  shows "Set_SortedList iter srt s = sorted_list_of_set (members s)"
proof -
  let ?l = "srt (map fst (iter s))"
  have m: "mset ?l = mset (map fst (iter s))" by (rule sort_specD(1) [OF assms(3)])
  have "sorted ?l" using sort_specD(2) [OF assms(3), of "map fst (iter s)"] by simp
  moreover have "distinct ?l"
    using m range_order_distinct [OF assms(2,1)] mset_eq_imp_distinct_iff by blast
  moreover have "set ?l = members s"
    using m range_order_set [OF assms(2), of s] by (metis list.set_map mset_eq_setD)
  ultimately show ?thesis
    unfolding Set_SortedList_def by (metis sorted_list_of_set.idem_if_sorted_distinct)
qed

text \<open>
  \<open>SortedList\<close> returns every element once, in increasing order.
\<close>

theorem set_sorted_list:
  assumes "gomap_ok s" "range_order iter" "sort_spec (\<lambda>x. x) srt"
  shows "Set_SortedList iter srt s = sorted_list_of_set (members s)"
  using assms by (rule SortedList_members)

theorem set_sorted_list_witness:
  "Set_SortedList rev (sort_key (\<lambda>x. x)) (Set_New [3, 1, 2::int]) = sorted_list_of_set {3, 1, 2}"
  using set_sorted_list [of "Set_New [3, 1, 2::int]" rev "sort_key (\<lambda>x. x)"] by simp

section \<open>The sets refine mathematical sets\<close>

text \<open>
  A sequence of mutations with what they return. The specification works on a mathematical set: \<open>PopAny\<close> may return any
  element, and nothing exactly when there is none; \<open>allowed\<close> is the set that is left if the outputs are
  possible.
\<close>

datatype 't set_op = OpInsert "'t list" | OpDelete "'t list" | OpPopAny

fun run_ops :: "('t Set \<Rightarrow> 't Set) \<Rightarrow> 't set_op list \<Rightarrow> 't Set \<Rightarrow> 't Set \<times> 't option list" where
  "run_ops iter [] s = (s, [])"
| "run_ops iter (OpInsert xs # ops) s = run_ops iter ops (Set_Insert s xs)"
| "run_ops iter (OpDelete xs # ops) s = run_ops iter ops (Set_Delete s xs)"
| "run_ops iter (OpPopAny # ops) s =
     (case Set_PopAny iter s of (s', out) \<Rightarrow> (case run_ops iter ops s' of (s'', outs) \<Rightarrow> (s'', out # outs)))"

fun allowed :: "'t set_op list \<Rightarrow> 't option list \<Rightarrow> 't set \<Rightarrow> 't set option" where
  "allowed [] [] A = Some A"
| "allowed (OpInsert xs # ops) outs A = allowed ops outs (A \<union> set xs)"
| "allowed (OpDelete xs # ops) outs A = allowed ops outs (A - set xs)"
| "allowed (OpPopAny # ops) (None # outs) A = (if A = {} then allowed ops outs A else None)"
| "allowed (OpPopAny # ops) (Some x # outs) A = (if x \<in> A then allowed ops outs (A - {x}) else None)"
| "allowed _ _ _ = None"

lemma Insert_members: "gomap_ok s \<Longrightarrow> members (Set_Insert s xs) = members s \<union> set xs \<and> gomap_ok (Set_Insert s xs)"
  using goset.foldl_insert [of s xs] by (simp add: Set_Insert_foldl [of s xs] del: Set_Insert.simps)

lemma Delete_members: "gomap_ok s \<Longrightarrow> members (Set_Delete s xs) = members s - set xs \<and> gomap_ok (Set_Delete s xs)"
  using goset.foldl_delete [of s xs] by (simp add: Set_Delete_foldl [of s xs] del: Set_Delete.simps)

lemma PopAny_members:
  assumes "gomap_ok s" "range_order iter" "Set_PopAny iter s = (s', out)"
  shows "gomap_ok s' \<and>
    (case out of None \<Rightarrow> members s = {} | Some x \<Rightarrow> x \<in> members s) \<and>
    members s' = (case out of None \<Rightarrow> members s | Some x \<Rightarrow> members s - {x})"
proof -
  have set: "set (iter s) = set s" by (rule range_order_set [OF assms(2)])
  show ?thesis
  proof (cases "iter s")
    case Nil
    then have "s = []" using set by simp
    then show ?thesis using Nil assms by (simp add: Set_PopAny_def)
  next
    case (Cons kv kvs)
    then have "kv \<in> set s" using set by auto
    then have "fst kv \<in> members s" by simp
    moreover have "s' = Set_Delete s [fst kv]" "out = Some (fst kv)"
      using Cons assms(3) by (auto simp: Set_PopAny_def split: prod.splits)
    ultimately show ?thesis using Delete_members [OF assms(1), of "[fst kv]"] by (simp del: Set_Delete.simps)
  qed
qed

lemma run_ops_allowed:
  "range_order iter \<Longrightarrow> gomap_ok s \<Longrightarrow> run_ops iter ops s = (s', outs) \<Longrightarrow>
     allowed ops outs (members s) = Some (members s') \<and> gomap_ok s'"
proof (induction iter ops s arbitrary: s' outs rule: run_ops.induct)
  case (2 iter xs ops s)
  then show ?case using Insert_members [OF 2(3), of xs] by simp
next
  case (3 iter xs ops s)
  then show ?case using Delete_members [OF 3(3), of xs] by simp
next
  case (4 iter ops s)
  obtain s1 out where pop: "Set_PopAny iter s = (s1, out)" by (meson surj_pair)
  obtain outs' where rest: "run_ops iter ops s1 = (s', outs')" "outs = out # outs'"
    using 4(4) pop by (auto split: prod.splits)
  note p = PopAny_members [OF 4(3,2) pop]
  note ih = 4(1) [OF pop [symmetric] 4(2) conjunct1 [OF p] rest(1)]
  show ?case
  proof (cases out)
    case None
    then show ?thesis using ih rest(2) p by simp
  next
    case (Some x)
    then show ?thesis using ih rest(2) p by simp
  qed
qed simp

text \<open>
  C8: the map-backed set refines a mathematical set. After any sequence of \<open>Insert\<close>, \<open>Delete\<close> and
  \<open>PopAny\<close> on a new set, and for every order in which the language ranges over the map, the values that
  \<open>PopAny\<close> returned are ones the mathematical set can give, what the map holds is the set that is left, and
  \<open>Has\<close>, \<open>Len\<close> and \<open>SortedList\<close> report that set.
\<close>

theorem set_refines:
  assumes "range_order iter" "sort_spec (\<lambda>x. x) srt" "run_ops iter ops (Set_New xs) = (s, outs)"
  shows "allowed ops outs (set xs) = Some (members s) \<and> gomap_ok s \<and> (Set_Has s x \<longleftrightarrow> x \<in> members s) \<and>
    Set_Len s = int (card (members s)) \<and> Set_SortedList iter srt s = sorted_list_of_set (members s)"
proof -
  have ok: "allowed ops outs (set xs) = Some (members s) \<and> gomap_ok s"
    using run_ops_allowed [OF assms(1) _ assms(3)] by simp
  then have g: "gomap_ok s" ..
  show ?thesis
    using ok goset.has_iff [OF g, of x] goset.len_card [OF g] SortedList_members [OF g assms(1,2)] by simp
qed

theorem set_refines_witness:
  "allowed [OpPopAny, OpInsert [5, 1], OpDelete [2], OpPopAny] [Some 3, Some 5] {1, 2, 3} = Some {1::int} \<and>
   Set_SortedList rev (sort_key (\<lambda>x. x)) [(1::int, 0)] = sorted_list_of_set {1}"
  using set_refines [of rev "sort_key (\<lambda>x. x)" "[OpPopAny, OpInsert [5, 1], OpDelete [2], OpPopAny]" "[1, 2, 3::int]"
      "[(1, 0)]" "[Some 3, Some 5]" 1]
  by (simp add: Set_New_def Set_PopAny_def Set_Len_def)

section \<open>Text\<close>

text \<open>\<open>%v\<close> of a slice: the texts of the elements, with blanks between them, in brackets.\<close>

definition Set_String :: "('t \<Rightarrow> string) \<Rightarrow> ('t Set \<Rightarrow> 't Set) \<Rightarrow> ((int \<times> 't) list \<Rightarrow> (int \<times> 't) list) \<Rightarrow> 't Set \<Rightarrow> string" where
  "Set_String fmt iter srt s = ''['' @ Join (map fmt (Set_List iter srt s)) '' '' @ '']''"

end
