(* ===== verification/ArraySet.thy ===== *)
theory ArraySet
  imports GoPrelude Complex_Main
begin

text \<open>
  \<open>sets/array.go\<close>: the fixed-capacity \<open>ArraySet[T]\<close>. Its elements are compared through
  \<open>interface{}\<close> values, so they are modelled with their dynamic type: nil, a value of one of the
  basic types that the type switch of \<open>compare\<close> lists, or a value of any other type, with its
  reflect kind, its type and an opaque payload. \<open>reflect.DeepEqual\<close> on the latter is the
  argument \<open>deq\<close>; the zero value of \<open>T\<close> is the argument \<open>z\<close>. The registered callback is an
  argument too: it sees the set (the closures that users pass call \<open>Reset\<close> on it) and may
  change it.
\<close>

section \<open>Interface values and their comparison\<close>

datatype gofloat = FFin rat | FInf bool | FNaN

datatype 'p goval =
    GNil
  | GInt string int
  | GFloat string gofloat
  | GString string
  | GBool bool
  | GOther string string 'p

fun is_base :: "'p goval \<Rightarrow> bool" where
  "is_base (GInt _ _) = True"
| "is_base (GFloat _ _) = True"
| "is_base (GString _) = True"
| "is_base (GBool _) = True"
| "is_base _ = False"

fun kind_of :: "'p goval \<Rightarrow> string go" where
  "kind_of GNil = Panic nil_deref"
| "kind_of (GInt t _) = Ret t"
| "kind_of (GFloat t _) = Ret t"
| "kind_of (GString _) = Ret ''string''"
| "kind_of (GBool _) = Ret ''bool''"
| "kind_of (GOther k _ _) = Ret k"

text \<open>The operator \<open>==\<close> on two interface values of basic types: same dynamic type and equal
  values; NaN is not equal to itself.\<close>

fun iface_eq :: "'p goval \<Rightarrow> 'p goval \<Rightarrow> bool" where
  "iface_eq (GInt t x) (GInt t' y) \<longleftrightarrow> t = t' \<and> x = y"
| "iface_eq (GFloat t x) (GFloat t' y) \<longleftrightarrow> t = t' \<and> x = y \<and> x \<noteq> FNaN"
| "iface_eq (GString x) (GString y) \<longleftrightarrow> x = y"
| "iface_eq (GBool x) (GBool y) \<longleftrightarrow> x = y"
| "iface_eq _ _ \<longleftrightarrow> False"

definition compare :: "('p goval \<Rightarrow> 'p goval \<Rightarrow> bool) \<Rightarrow> 'p goval \<Rightarrow> 'p goval \<Rightarrow> bool go" where
  "compare deq a b =
     (if is_base a \<and> is_base b then Ret (iface_eq a b)
      else go_bind (kind_of a) (\<lambda>ka. go_bind (kind_of b) (\<lambda>kb.
        if ka = kb then Ret (deq a b) else Ret False)))"

section \<open>The type and its operations\<close>

definition ErrorSetFull :: gerror where
  "ErrorSetFull = ''set Is Full''"

record 'p ArraySet =
  arr :: "'p goval list"
  cur :: int
  size_of :: int

type_synonym 'p full_callback = "'p ArraySet \<Rightarrow> 'p ArraySet \<times> gerror option"

text \<open>The inner loop of \<open>Append\<close>, \<open>Include\<close> and \<open>Index\<close>: the first position of the whole backing
  array that compares equal.\<close>

fun find_equal :: "('p goval \<Rightarrow> 'p goval \<Rightarrow> bool) \<Rightarrow> 'p goval list \<Rightarrow> 'p goval \<Rightarrow> int \<Rightarrow> int go" where
  "find_equal deq [] v i = Ret (-1)"
| "find_equal deq (x # xs) v i =
     go_bind (compare deq x v) (\<lambda>b. if b then Ret i else find_equal deq xs v (i + 1))"

definition ArraySet_Index :: "('p goval \<Rightarrow> 'p goval \<Rightarrow> bool) \<Rightarrow> 'p ArraySet \<Rightarrow> 'p goval \<Rightarrow> int go" where
  "ArraySet_Index deq s v = find_equal deq (arr s) v 0"

definition ArraySet_Include :: "('p goval \<Rightarrow> 'p goval \<Rightarrow> bool) \<Rightarrow> 'p ArraySet \<Rightarrow> 'p goval \<Rightarrow> bool go" where
  "ArraySet_Include deq s v = go_bind (find_equal deq (arr s) v 0) (\<lambda>i. Ret (0 \<le> i))"

definition store_at :: "'p ArraySet \<Rightarrow> int \<Rightarrow> 'p goval \<Rightarrow> 'p ArraySet go" where
  "store_at s idx v =
     (if 0 \<le> idx \<and> idx < int (length (arr s)) then Ret (s\<lparr>arr := (arr s)[nat idx := v]\<rparr>)
      else Panic ''index out of range'')"

fun ArraySet_Append :: "('p goval \<Rightarrow> 'p goval \<Rightarrow> bool) \<Rightarrow> 'p full_callback option \<Rightarrow> 'p ArraySet \<Rightarrow>
    'p goval list \<Rightarrow> ('p ArraySet \<times> gerror option) go" where
  "ArraySet_Append deq cb s [] = Ret (s, None)"
| "ArraySet_Append deq cb s (value # values) =
     go_bind (find_equal deq (arr s) value 0) (\<lambda>i.
       if 0 \<le> i then ArraySet_Append deq cb s values
       else
         let idx = cur s + 1 in
         if idx \<ge> size_of s then
           (case cb of
              None \<Rightarrow> Ret (s, Some ErrorSetFull)
            | Some f \<Rightarrow>
                (case f s of
                   (s', Some err) \<Rightarrow> Ret (s', Some err)
                 | (s', None) \<Rightarrow>
                     let idx' = cur s' + 1 in
                     if idx' \<ge> size_of s' then Ret (s', None)
                     else go_bind (store_at (s'\<lparr>cur := idx'\<rparr>) idx' value)
                            (\<lambda>s''. ArraySet_Append deq cb s'' values)))
         else go_bind (store_at (s\<lparr>cur := idx\<rparr>) idx value)
                (\<lambda>s'. ArraySet_Append deq cb s' values))"

definition NewArraySet :: "('p goval \<Rightarrow> 'p goval \<Rightarrow> bool) \<Rightarrow> 'p goval \<Rightarrow> int \<Rightarrow> 'p goval list \<Rightarrow>
    ('p ArraySet \<times> gerror option) go" where
  "NewArraySet deq z n val =
     (if n < 0 then Panic ''makeslice: len out of range''
      else ArraySet_Append deq None \<lparr>arr = replicate (nat n) z, cur = -1, size_of = n\<rparr> val)"

definition ArraySet_Reset :: "'p goval \<Rightarrow> 'p ArraySet \<Rightarrow> 'p ArraySet" where
  "ArraySet_Reset z s = s\<lparr>arr := replicate (nat (size_of s)) z, cur := -1\<rparr>"

definition ArraySet_CallFullCallback :: "'p full_callback option \<Rightarrow> 'p ArraySet \<Rightarrow> 'p ArraySet \<times> gerror option" where
  "ArraySet_CallFullCallback cb s = (case cb of Some f \<Rightarrow> f s | None \<Rightarrow> (s, None))"

definition ArraySet_Size :: "'p ArraySet \<Rightarrow> int" where
  "ArraySet_Size s = size_of s"

definition ArraySet_Length :: "'p ArraySet \<Rightarrow> int" where
  "ArraySet_Length s = cur s + 1"

definition ArraySet_List :: "'p ArraySet \<Rightarrow> 'p goval list go" where
  "ArraySet_List s = slice (arr s) 0 (cur s + 1)"

section \<open>Comparison of plain values\<close>

text \<open>A plain value has a basic type and is not NaN: \<open>compare\<close> is then equality.\<close>

definition plain :: "'p goval \<Rightarrow> bool" where
  "plain v \<longleftrightarrow> is_base v \<and> (\<forall>t. v \<noteq> GFloat t FNaN)"

lemma compare_plain: "plain a \<Longrightarrow> plain b \<Longrightarrow> compare deq a b = Ret (a = b)"
  by (cases a; cases b) (auto simp: plain_def compare_def)

lemma find_equal_plain:
  "\<forall>x \<in> set xs. plain x \<Longrightarrow> plain v \<Longrightarrow> 0 \<le> i \<Longrightarrow>
   \<exists>j. find_equal deq xs v i = Ret j \<and> (0 \<le> j \<longleftrightarrow> v \<in> set xs) \<and>
     (0 \<le> j \<longrightarrow> i \<le> j \<and> nat (j - i) < length xs \<and> xs ! nat (j - i) = v)"
proof (induction xs arbitrary: i)
  case (Cons x xs)
  show ?case
  proof (cases "x = v")
    case False
    obtain j where j: "find_equal deq xs v (i + 1) = Ret j" "0 \<le> j \<longleftrightarrow> v \<in> set xs"
      "0 \<le> j \<longrightarrow> i + 1 \<le> j \<and> nat (j - (i + 1)) < length xs \<and> xs ! nat (j - (i + 1)) = v"
      using Cons.IH [of "i + 1"] Cons.prems by auto
    have "0 \<le> j \<Longrightarrow> nat (j - i) = Suc (nat (j - (i + 1)))" using j(3) by auto
    with j False Cons.prems show ?thesis by (auto simp: compare_plain)
  qed (use Cons.prems in \<open>auto simp: compare_plain\<close>)
qed simp

section \<open>The representation\<close>

text \<open>\<open>aset_rep z s xs\<close>: the set holds \<open>xs\<close>, and the rest of the backing array is zero values.\<close>

definition aset_rep :: "'p goval \<Rightarrow> 'p ArraySet \<Rightarrow> 'p goval list \<Rightarrow> bool" where
  "aset_rep z s xs \<longleftrightarrow>
     size_of s = int (length (arr s)) \<and> cur s = int (length xs) - 1 \<and> length xs \<le> length (arr s) \<and>
     arr s = xs @ replicate (length (arr s) - length xs) z"

lemma aset_rep_new: "0 \<le> n \<Longrightarrow> aset_rep z \<lparr>arr = replicate (nat n) z, cur = -1, size_of = n\<rparr> []"
  by (simp add: aset_rep_def)

lemma aset_rep_set:
  assumes "aset_rep z s xs"
  shows "v \<in> set (arr s) \<longleftrightarrow> v \<in> set xs \<or> (v = z \<and> length xs < length (arr s))"
proof -
  have "set (arr s) = set xs \<union> set (replicate (length (arr s) - length xs) z)"
    using assms unfolding aset_rep_def by (metis set_append)
  then show ?thesis by auto
qed

lemma aset_rep_List: "aset_rep z s xs \<Longrightarrow> ArraySet_List s = Ret xs \<and> ArraySet_Length s = int (length xs)"
  unfolding aset_rep_def ArraySet_List_def slice_def ArraySet_Length_def
  by (auto, metis append_eq_conv_conj)

lemma aset_rep_store:
  assumes "aset_rep z s xs" "length xs < length (arr s)"
  shows "\<exists>s'. store_at (s\<lparr>cur := cur s + 1\<rparr>) (cur s + 1) v = Ret s' \<and> aset_rep z s' (xs @ [v])
    \<and> size_of s' = size_of s"
proof -
  let ?n = "length (arr s)" and ?k = "length xs"
  have idx: "cur s + 1 = int ?k" using assms(1) by (simp add: aset_rep_def)
  have "?n - ?k = Suc (?n - Suc ?k)" using assms(2) by simp
  then have "arr s = xs @ z # replicate (?n - Suc ?k) z"
    using assms(1) unfolding aset_rep_def by (metis replicate_Suc)
  then have "(arr s)[?k := v] = (xs @ [v]) @ replicate (?n - Suc ?k) z"
    by (metis append.assoc append_Cons append_Nil list_update_length)
  then show ?thesis
    using assms idx by (auto simp: store_at_def aset_rep_def)
qed

text \<open>The reference behaviour of \<open>Append\<close> without a callback.\<close>

fun aset_spec :: "nat \<Rightarrow> 'p goval \<Rightarrow> 'p goval list \<Rightarrow> 'p goval list \<Rightarrow> 'p goval list \<times> gerror option" where
  "aset_spec n z xs [] = (xs, None)"
| "aset_spec n z xs (v # vs) =
     (if v \<in> set xs \<or> (v = z \<and> length xs < n) then aset_spec n z xs vs
      else if length xs < n then aset_spec n z (xs @ [v]) vs
      else (xs, Some ErrorSetFull))"

lemma Append_refines:
  "aset_rep z s xs \<Longrightarrow> \<forall>v \<in> set xs \<union> set vs \<union> {z}. plain v \<Longrightarrow> size_of s = int n \<Longrightarrow>
   \<exists>s'. ArraySet_Append deq None s vs = Ret (s', snd (aset_spec n z xs vs))
     \<and> aset_rep z s' (fst (aset_spec n z xs vs)) \<and> size_of s' = int n"
proof (induction n z xs vs arbitrary: s rule: aset_spec.induct)
  case (2 n z xs v vs)
  have n: "length (arr s) = n" "cur s + 1 = int (length xs)" "length xs \<le> n"
    using "2.prems"(1,3) by (simp_all add: aset_rep_def)
  have "\<forall>x \<in> set (arr s). plain x" using "2.prems"(2) aset_rep_set [OF "2.prems"(1)] by blast
  moreover have "plain v" using "2.prems"(2) by simp
  ultimately obtain j where j: "find_equal deq (arr s) v 0 = Ret j" "0 \<le> j \<longleftrightarrow> v \<in> set (arr s)"
    using find_equal_plain [of "arr s" v 0 deq] by auto
  note mem = j(2) [unfolded aset_rep_set [OF "2.prems"(1)] n(1)]
  consider (dup) "v \<in> set xs \<or> (v = z \<and> length xs < n)"
    | (room) "\<not> (v \<in> set xs \<or> (v = z \<and> length xs < n))" "length xs < n"
    | (full) "\<not> (v \<in> set xs \<or> (v = z \<and> length xs < n))" "length xs = n"
    using n(3) by linarith
  then show ?case
  proof cases
    case dup
    then show ?thesis using "2.IH"(1) [OF dup "2.prems"(1) _ "2.prems"(3)] "2.prems"(2) j mem by auto
  next
    case room
    obtain s' where s': "store_at (s\<lparr>cur := cur s + 1\<rparr>) (cur s + 1) v = Ret s'"
      "aset_rep z s' (xs @ [v])" "size_of s' = size_of s"
      using aset_rep_store [OF "2.prems"(1)] room(2) n(1) by metis
    have "\<not> cur s + 1 \<ge> size_of s" using room(2) n "2.prems"(3) by simp
    then have "ArraySet_Append deq None s (v # vs) = ArraySet_Append deq None s' vs"
      using j(1) mem room(1) s'(1) by (simp add: Let_def)
    then show ?thesis
      using "2.IH"(2) [OF room s'(2)] "2.prems"(2,3) s'(3) room by simp
  next
    case full
    then show ?thesis using j mem n "2.prems" by (auto simp: Let_def)
  qed
qed auto

section \<open>Properties of the bounded set\<close>

text \<open>
  on plain values and without a callback, \<open>NewArraySet\<close> and \<open>Append\<close> behave as the
  reference: they never panic, keep the first occurrence of each value that is not the zero
  value of the element type, in order and up to the capacity, and return \<open>ErrorSetFull\<close> at the
  first new value that does not fit; \<open>List\<close> and \<open>Length\<close> then report the stored values.
\<close>

theorem array_set_append:
  assumes "0 \<le> n" and "\<forall>v \<in> set (z # us @ vs). plain v"
  shows "\<exists>s1 s2. NewArraySet deq z n us = Ret (s1, snd (aset_spec (nat n) z [] us)) \<and>
    ArraySet_Append deq None s1 vs
      = Ret (s2, snd (aset_spec (nat n) z (fst (aset_spec (nat n) z [] us)) vs)) \<and>
    ArraySet_List s2 = Ret (fst (aset_spec (nat n) z (fst (aset_spec (nat n) z [] us)) vs)) \<and>
    ArraySet_Length s2 \<le> n \<and> ArraySet_Size s2 = n"
proof -
  have sub: "set (fst (aset_spec m z xs ws)) \<subseteq> set xs \<union> set ws" for m xs ws
    by (induction m z xs ws rule: aset_spec.induct) auto
  let ?xs = "fst (aset_spec (nat n) z [] us)"
  obtain s1 where s1: "NewArraySet deq z n us = Ret (s1, snd (aset_spec (nat n) z [] us))"
    "aset_rep z s1 ?xs" "size_of s1 = n"
    using Append_refines [OF aset_rep_new [OF assms(1), of z], of us "nat n" deq] assms
    by (auto simp: NewArraySet_def)
  have "\<forall>v \<in> set ?xs \<union> set vs \<union> {z}. plain v" using sub [of "nat n" "[]" us] assms(2) by auto
  then obtain s2 where s2: "ArraySet_Append deq None s1 vs = Ret (s2, snd (aset_spec (nat n) z ?xs vs))"
    "aset_rep z s2 (fst (aset_spec (nat n) z ?xs vs))" "size_of s2 = n"
    using Append_refines [OF s1(2), of vs "nat n" deq] s1(3) assms(1) by auto
  have "ArraySet_Length s2 \<le> n"
    using s2(2) unfolding s2(3) [symmetric] by (auto simp: aset_rep_def ArraySet_Length_def)
  then show ?thesis using s1(1) s2 aset_rep_List [OF s2(2)] by (auto simp: ArraySet_Size_def)
qed

theorem array_set_append_witness:
  "\<exists>s1 s2. NewArraySet (=) (GInt ''int'' 0) 2 [GInt ''int'' 4, GInt ''int'' 4] = Ret (s1, None) \<and>
     ArraySet_Append (=) None s1 [GInt ''int'' 5, GInt ''int'' 4, GInt ''int'' 6] = Ret (s2, Some ErrorSetFull) \<and>
     ArraySet_List s2 = Ret [GInt ''int'' 4, GInt ''int'' 5 :: nat goval]"
proof -
  have p: "\<forall>v \<in> set (GInt ''int'' 0 # [GInt ''int'' 4, GInt ''int'' 4] @
      [GInt ''int'' 5, GInt ''int'' 4, GInt ''int'' 6 :: nat goval]). plain v"
    by (simp add: plain_def)
  show ?thesis using array_set_append [OF _ p, of 2 "(=)"] by (auto simp del: ArraySet_Append.simps)
qed

text \<open>
  a new set of positive capacity reports that it contains the zero value of its element
  type, and appending that value stores nothing and reports no error: the search runs over
  the unused part of the backing array.
\<close>

theorem array_set_zero_value:
  assumes "0 < n" and "plain z"
  shows "\<exists>s. NewArraySet deq z n [z] = Ret (s, None) \<and> ArraySet_Length s = 0 \<and>
    ArraySet_Include deq s z = Ret True \<and> ArraySet_Index deq s z = Ret 0"
proof -
  have "0 \<le> n" using assms(1) by simp
  note rep = aset_rep_new [OF this, of z]
  obtain s where s: "NewArraySet deq z n [z] = Ret (s, None)" "aset_rep z s []" "size_of s = n"
    using Append_refines [OF rep, of "[z]" "nat n" deq] assms by (auto simp: NewArraySet_def)
  obtain m where "arr s = z # replicate m z"
    using s(2,3) assms(1) unfolding aset_rep_def
    by (metis append_Nil diff_zero gr0_conv_Suc list.size(3) of_nat_0_less_iff replicate_Suc)
  then show ?thesis
    using s assms(2) by (auto simp: ArraySet_Length_def aset_rep_def ArraySet_Include_def
        ArraySet_Index_def compare_plain)
qed

theorem array_set_zero_value_witness:
  "\<exists>s. NewArraySet (=) (GString ''''  :: nat goval) 3 [GString ''''] = Ret (s, None) \<and> ArraySet_Length s = 0"
  using array_set_zero_value [of 3 "GString ''''  :: nat goval" "(=)"] by (auto simp: plain_def)

text \<open>
  when the element type is an interface, its zero value is nil, and every \<open>Append\<close> of a
  value to a new set of positive capacity panics in \<open>compare\<close>.
\<close>

theorem array_set_interface_panics:
  assumes "0 < n"
  shows "NewArraySet deq GNil n (v # vs) = Panic nil_deref"
proof -
  obtain m where "nat n = Suc m" using assms by (metis gr0_conv_Suc zero_less_nat_eq)
  then show ?thesis using assms by (simp add: NewArraySet_def compare_def)
qed

theorem array_set_interface_panics_witness:
  "NewArraySet (=) GNil 1 [GBool True :: nat goval] = Panic nil_deref"
  by (rule array_set_interface_panics) simp

end
