(* ===== verification/Capacity.thy ===== *)
theory Capacity
  imports GoPrelude
begin

text \<open>
  Package \<open>capacity\<close> (\<open>src/capacity/capacity.go\<close>, \<open>src/capacity/format.go\<close>): a byte count of
  type \<open>int64\<close> with a human readable text form. The integers are \<open>64 word\<close>s, read with
  \<^const>\<open>sint\<close> where the code compares them as signed numbers; the 32 byte buffer of \<open>String\<close>
  is a list that is written by index, and a write below index 0 is the panic it is in Go. The
  one use of \<open>float64\<close>, in the fraction of a term, is modelled by 53 bit significands rounded
  to nearest, ties to even.
\<close>

section \<open>Constants and String\<close>

definition Byte :: int64 where "Byte = 1"
definition Kilobyte :: int64 where "Kilobyte = push_bit 10 Byte"
definition Megabyte :: int64 where "Megabyte = push_bit 10 Kilobyte"
definition Gigabyte :: int64 where "Gigabyte = push_bit 10 Megabyte"
definition Terabyte :: int64 where "Terabyte = push_bit 10 Gigabyte"

lemmas unit_values = Byte_def Kilobyte_def Megabyte_def Gigabyte_def Terabyte_def

text \<open>\<open>fmtInt\<close> writes the digits of \<open>v\<close> at the end of its buffer, from right to left.\<close>

function fmtInt_loop :: "string \<Rightarrow> nat \<Rightarrow> uint64 \<Rightarrow> (string \<times> nat) go" where
  "fmtInt_loop buf w v =
     (if v > 0 then
        if w = 0 then Panic out_of_range
        else fmtInt_loop (buf[w - 1 := digit_char (unat (v mod 10))]) (w - 1) (v div 10)
      else Ret (buf, w))"
  by pat_completeness auto

termination
  by (relation "measure (\<lambda>(buf, w, v). w)") auto

declare fmtInt_loop.simps [simp del]

definition fmtInt :: "string \<Rightarrow> uint64 \<Rightarrow> (string \<times> nat) go" where
  "fmtInt buf v =
     (let w = length buf in
      if v = 0 then
        if w = 0 then Panic out_of_range else Ret (buf[w - 1 := CHR ''0''], w - 1)
      else fmtInt_loop buf w v)"

definition magicUnit :: "string list" where
  "magicUnit = [''B'', ''KB'', ''MB'', ''GB'', ''TB'']"

text \<open>
  The loop of \<open>String\<close> over \<open>magicUnit\<close>. The call \<open>fmtInt(buf[:w], u%1024)\<close> works on a slice that
  shares the buffer, so its writes are seen in the buffer afterwards.
\<close>

definition copy_at :: "string \<Rightarrow> nat \<Rightarrow> string \<Rightarrow> string" where
  "copy_at buf w u = take w buf @ u @ drop (w + length u) buf"

primrec String_loop :: "string list \<Rightarrow> string \<Rightarrow> nat \<Rightarrow> uint64 \<Rightarrow> (string \<times> nat) go" where
  "String_loop [] buf w u = Ret (buf, w)"
| "String_loop (unit # units) buf w u =
     (if u > 0 then
        if w < length unit then Panic out_of_range
        else
          let w1 = w - length unit; buf1 = copy_at buf w1 unit
          in if u mod 1024 > 0
             then go_bind (fmtInt (take w1 buf1) (u mod 1024))
                    (\<lambda>(sub, w2). String_loop units (sub @ drop w1 buf1) w2 (u div 1024))
             else String_loop units buf1 (w1 + length unit) (u div 1024)
      else Ret (buf, w))"

text \<open>\<open>var buf [32]byte\<close>\<close>

definition zero_buf :: string where
  "zero_buf = replicate 32 (CHR 0x00)"

definition Capacities_String :: "int64 option \<Rightarrow> string go" where
  "Capacities_String c = (case c of None \<Rightarrow> Ret [] | Some c \<Rightarrow>
     let buf = zero_buf;
         neg = (sint c < 0);
         u = (if neg then - c else c)
     in go_bind (String_loop magicUnit buf (length buf) u)
          (\<lambda>(buf, w).
             if neg then
               if w = 0 then Panic out_of_range
               else Ret (drop (w - 1) (buf[w - 1 := CHR ''-'']))
             else Ret (drop w buf)))"

definition Capacities_Type :: "int64 option \<Rightarrow> string" where
  "Capacities_Type c = ''string''"

section \<open>Floating point numbers of 53 bits\<close>

text \<open>
  A positive \<open>float64\<close> is \<open>m * 2 ^ e\<close>. The exponent is not bounded here: the code divides a unit
  by a power of ten and truncates the product with an \<open>int64\<close> to an integer, so a quotient that
  \<open>float64\<close> would flush towards zero truncates to 0 in both.
\<close>

type_synonym float64 = "nat \<times> int"

fun bit_size :: "nat \<Rightarrow> nat" where
  "bit_size n = (if n = 0 then 0 else Suc (bit_size (n div 2)))"

declare bit_size.simps [simp del]

definition round_div :: "nat \<Rightarrow> nat \<Rightarrow> nat" where
  "round_div p q =
     (let d = p div q; r = p mod q
      in if 2 * r < q \<or> (2 * r = q \<and> even d) then d else d + 1)"

definition fl_round :: "nat \<Rightarrow> nat \<Rightarrow> int \<Rightarrow> float64" where
  "fl_round p q e =
     (if p = 0 then (0, 0)
      else
        let s = 53 - (int (bit_size p) - int (bit_size q));
            s = (if p * 2 ^ nat s < 2 ^ 53 * (q * 2 ^ nat (- s)) then s else s - 1)
        in (round_div (p * 2 ^ nat s) (q * 2 ^ nat (- s)), e - s))"

definition fl_of_nat :: "nat \<Rightarrow> float64" where
  "fl_of_nat n = fl_round n 1 0"

definition fl_mul :: "float64 \<Rightarrow> float64 \<Rightarrow> float64" where
  "fl_mul x y = fl_round (fst x * fst y) 1 (snd x + snd y)"

definition fl_div :: "float64 \<Rightarrow> float64 \<Rightarrow> float64" where
  "fl_div x y = fl_round (fst x) (fst y) (snd x - snd y)"

definition fl_trunc :: "float64 \<Rightarrow> nat" where
  "fl_trunc x = fst x * 2 ^ nat (snd x) div 2 ^ nat (- snd x)"

section \<open>ParseCapacities\<close>

definition unitMap :: "(string, int64) gomap" where
  "unitMap = [(''b'', Byte), (''kb'', Kilobyte), (''mb'', Megabyte), (''gb'', Gigabyte),
     (''tb'', Terabyte), (''k'', Kilobyte), (''m'', Megabyte), (''g'', Gigabyte), (''t'', Terabyte)]"

definition quote :: "string \<Rightarrow> string" where
  "quote s = CHR 0x22 # s @ [CHR 0x22]"

text \<open>
  \<open>strings.ToLower\<close> as far as a lookup in \<open>unitMap\<close> can see: ASCII letters, and the one other rune
  whose lower case is the letter of a unit, the Kelvin sign U+212A (the bytes E2 84 AA).
\<close>

definition lower_char :: "char \<Rightarrow> char" where
  "lower_char c = (let n = (of_char c :: nat) in if 65 \<le> n \<and> n \<le> 90 then char_of (n + 32) else c)"

fun ToLower :: "string \<Rightarrow> string" where
  "ToLower [] = []"
| "ToLower (c # cs) =
     (if c = CHR 0xE2 \<and> take 2 cs = [CHR 0x84, CHR 0xAA] then CHR ''k'' # ToLower (drop 2 cs)
      else lower_char c # ToLower cs)"

definition max_int64 :: int where
  "max_int64 = 2 ^ 63 - 1"

definition errLeadingInt :: gerror where
  "errLeadingInt = ''capacity: bad [0-9]*''"

fun leadingInt :: "int64 \<Rightarrow> string \<Rightarrow> gerror + int64 \<times> string" where
  "leadingInt x [] = Inr (x, [])"
| "leadingInt x (c # cs) =
     (if \<not> is_digit c then Inr (x, c # cs)
      else if sint x > go_div max_int64 10 then Inl errLeadingInt
      else
        let y = x * 10 + of_nat (of_char c) - 48
        in if sint y < 0 then Inl errLeadingInt else leadingInt y cs)"

fun leadingFraction :: "int64 \<Rightarrow> float64 \<Rightarrow> bool \<Rightarrow> string \<Rightarrow> int64 \<times> float64 \<times> string" where
  "leadingFraction x scale overflow [] = (x, scale, [])"
| "leadingFraction x scale overflow (c # cs) =
     (if \<not> is_digit c then (x, scale, c # cs)
      else if overflow then leadingFraction x scale overflow cs
      else if sint x > go_div max_int64 10 then leadingFraction x scale True cs
      else
        let y = x * 10 + of_nat (of_char c) - 48
        in if sint y < 0 then leadingFraction x scale True cs
           else leadingFraction y (fl_mul scale (fl_of_nat 10)) overflow cs)"

definition invalid_capacity :: "string \<Rightarrow> gerror" where
  "invalid_capacity orig = ''capacity: invalid capacity '' @ quote orig"

text \<open>A byte of a unit is any byte but a digit and the decimal point.\<close>

definition unit_char :: "char \<Rightarrow> bool" where
  "unit_char c \<longleftrightarrow> \<not> (c = CHR ''.'' \<or> is_digit c)"

text \<open>
  One iteration of the loop, in two steps: \<open>parse_unit\<close> consumes the unit that follows the number
  \<open>v.f\<close> and returns the value of the term and the rest of the text, \<open>parse_term\<close> reads the number.
\<close>

definition parse_unit :: "string \<Rightarrow> int64 \<Rightarrow> int64 \<Rightarrow> float64 \<Rightarrow> string \<Rightarrow> gerror + int64 \<times> string" where
  "parse_unit orig v f scale s =
     (let u = takeWhile unit_char s; s3 = dropWhile unit_char s
      in if u = [] then Inl (''capacity: missing unit in capacity '' @ quote orig)
         else case map_of unitMap (ToLower u) of
           None \<Rightarrow> Inl (''capacity: unknown unit '' @ quote u @ '' in capacity '' @ quote orig)
         | Some unit \<Rightarrow>
             if sint v > go_div max_int64 (sint unit)
             then Inl (invalid_capacity orig @ '': overflow'')
             else
               let v1 = v * unit
               in if sint f > 0 then
                    let v2 = v1 + of_nat (fl_trunc (fl_mul (fl_of_nat (unat f))
                               (fl_div (fl_of_nat (unat unit)) scale)))
                    in if sint v2 < 0 then Inl (invalid_capacity orig) else Inr (v2, s3)
                  else Inr (v1, s3))"

definition parse_term :: "string \<Rightarrow> string \<Rightarrow> gerror + int64 \<times> string" where
  "parse_term orig s =
     (if \<not> (hd s = CHR ''.'' \<or> is_digit (hd s)) then Inl (invalid_capacity orig)
      else case leadingInt 0 s of
        Inl err \<Rightarrow> Inl (invalid_capacity orig @ '': '' @ err)
      | Inr (v, s1) \<Rightarrow>
          let pre = (length s \<noteq> length s1);
              (f, scale, s2, post) =
                (if s1 \<noteq> [] \<and> hd s1 = CHR ''.''
                 then case leadingFraction 0 (fl_of_nat 1) False (tl s1) of
                        (f, scale, s2) \<Rightarrow> (f, scale, s2, length (tl s1) \<noteq> length s2)
                 else (0, fl_of_nat 1, s1, False))
          in if \<not> pre \<and> \<not> post then Inl (invalid_capacity orig)
             else parse_unit orig v f scale s2)"

lemma leadingInt_rest: "leadingInt x s = Inr (v, s1) \<Longrightarrow> s1 = dropWhile is_digit s"
  by (induction x s rule: leadingInt.induct) (auto simp: Let_def split: if_splits)

lemma leadingFraction_rest: "snd (snd (leadingFraction x sc ov s)) = dropWhile is_digit s"
  by (induction x sc ov s rule: leadingFraction.induct) (simp_all add: Let_def)

lemma parse_unit_shorter: "parse_unit orig v f sc s = Inr (v', s') \<Longrightarrow> length s' < length s"
proof -
  assume p: "parse_unit orig v f sc s = Inr (v', s')"
  then have "takeWhile unit_char s \<noteq> []" by (auto simp: parse_unit_def)
  moreover have "s' = dropWhile unit_char s"
    using p by (auto simp: parse_unit_def Let_def split: if_splits option.splits)
  ultimately show ?thesis
    by (cases s) (auto simp: length_dropWhile_le less_Suc_eq_le split: if_splits)
qed

lemma parse_term_shorter:
  assumes "parse_term orig s = Inr (v, s')" "s \<noteq> []"
  shows "length s' < length s"
proof (cases "leadingInt 0 s")
  case (Inl err)
  then show ?thesis using assms by (simp add: parse_term_def split: if_splits)
next
  case (Inr r)
  obtain v1 s1 where l: "leadingInt 0 s = Inr (v1, s1)" using Inr by (cases r) simp
  obtain f sc s2 where f: "leadingFraction 0 (fl_of_nat 1) False (tl s1) = (f, sc, s2)"
    by (cases "leadingFraction 0 (fl_of_nat 1) False (tl s1)") auto
  have s1: "length s1 \<le> length s" using leadingInt_rest [OF l] by (simp add: length_dropWhile_le)
  have "length s2 \<le> length (tl s1)"
    using leadingFraction_rest [of 0 "fl_of_nat 1" False "tl s1"] length_dropWhile_le [of is_digit "tl s1"] f by simp
  then have s2: "length s2 \<le> length s" using s1 by (simp add: le_diff_conv)
  from assms(1) l f have "parse_unit orig v1 0 (fl_of_nat 1) s1 = Inr (v, s') \<or>
      parse_unit orig v1 f sc s2 = Inr (v, s')"
    by (auto simp: parse_term_def Let_def split: if_splits)
  then show ?thesis using parse_unit_shorter s1 s2 by fastforce
qed

function parse_loop :: "string \<Rightarrow> int64 \<Rightarrow> string \<Rightarrow> gerror + int64" where
  "parse_loop orig d s =
     (if s = [] then Inr d
      else case parse_term orig s of
        Inl e \<Rightarrow> Inl e
      | Inr (v, s') \<Rightarrow>
          let d' = d + v
          in if sint d' < 0 then Inl (invalid_capacity orig) else parse_loop orig d' s')"
  by pat_completeness auto

termination
  by (relation "measure (\<lambda>(orig, d, s). length s)") (auto simp: parse_term_shorter)

declare parse_loop.simps [simp del]

definition ParseCapacities :: "string \<Rightarrow> int64 \<times> gerror option" where
  "ParseCapacities orig =
     (let neg = (orig \<noteq> [] \<and> hd orig = CHR ''-'');
          s = (if orig \<noteq> [] \<and> (hd orig = CHR ''-'' \<or> hd orig = CHR ''+'') then tl orig else orig)
      in if s = ''0'' then (0, None)
         else if s = [] then (0, Some (invalid_capacity orig))
         else case parse_loop orig 0 s of
           Inl e \<Rightarrow> (0, Some e)
         | Inr d \<Rightarrow> (if neg then - d else d, None))"

definition Capacities_Set :: "string \<Rightarrow> int64 \<times> gerror option" where
  "Capacities_Set s = (let (capacities, err) = ParseCapacities s in (capacities, err))"

section \<open>JSON, YAML and the mapstructure hook\<close>

text \<open>The receiver \<open>*c\<close> is an argument and a result: null leaves it alone, an error clears it.\<close>

datatype json_error = CapacityError gerror | NumError num_error

definition Capacities_UnmarshalJSON :: "int64 \<Rightarrow> string \<Rightarrow> int64 \<times> json_error option" where
  "Capacities_UnmarshalJSON c b =
     (if b = ''null'' then (c, None)
      else if length b > 2 \<and> b ! 0 = CHR 0x22 \<and> b ! (length b - 1) = CHR 0x22 then
        case ParseCapacities (take (length b - 2) (drop 1 b)) of
          (v, err) \<Rightarrow> (v, map_option CapacityError err)
      else case ParseInt b of (val, err) \<Rightarrow> (of_int val, map_option NumError err))"

definition Capacities_MarshalJSON :: "int64 \<Rightarrow> string go" where
  "Capacities_MarshalJSON c = go_bind (Capacities_String (Some c)) (\<lambda>s. Ret ([CHR 0x22] @ s @ [CHR 0x22]))"

text \<open>The decoder's callback is the result of decoding a string: its error, or the string.\<close>

definition Capacities_UnmarshalYAML ::
    "int64 \<Rightarrow> 'e + string \<Rightarrow> int64 \<times> ('e + gerror) option" where
  "Capacities_UnmarshalYAML c unmarshal = (case unmarshal of
     Inl err \<Rightarrow> (c, Some (Inl err))
   | Inr s \<Rightarrow> (case ParseCapacities s of (v, err) \<Rightarrow> (v, map_option Inr err)))"

definition Capacities_MarshalYAML :: "int64 \<Rightarrow> string go" where
  "Capacities_MarshalYAML c = Capacities_String (Some c)"

text \<open>
  The hook sees reflected types: the predeclared \<open>string\<close>, a named type whose kind is \<open>string\<close>,
  \<open>Capacities\<close>, or another type. The assertion \<open>data.(string)\<close> holds of the predeclared type only.
\<close>

datatype rtype = StringType | NamedString string | CapacitiesType | OtherType string
datatype rvalue = StringValue string | NamedValue string string | CapacitiesValue int64 | OtherValue string

fun kind_String :: "rtype \<Rightarrow> bool" where
  "kind_String StringType = True"
| "kind_String (NamedString n) = True"
| "kind_String CapacitiesType = False"
| "kind_String (OtherType n) = False"

definition StringToCapacityHookFunc :: "rtype \<Rightarrow> rtype \<Rightarrow> rvalue \<Rightarrow> (rvalue \<times> gerror option) go" where
  "StringToCapacityHookFunc f t data =
     (if \<not> kind_String f then Ret (data, None)
      else if t = CapacitiesType then
        (case data of
           StringValue s \<Rightarrow> (case ParseCapacities s of (v, err) \<Rightarrow> Ret (CapacitiesValue v, err))
         | _ \<Rightarrow> Panic ''interface conversion'')
      else Ret (data, None))"

section \<open>What String writes\<close>

text \<open>The text of a magnitude, from the largest unit down, units with a zero count left out.\<close>

primrec magnitude :: "string list \<Rightarrow> nat \<Rightarrow> string" where
  "magnitude [] n = []"
| "magnitude (unit # units) n =
     magnitude units (n div 1024) @ (if n mod 1024 > 0 then Itoa_nat (n mod 1024) @ unit else [])"

lemma magnitude_0 [simp]: "magnitude units 0 = []"
  by (induction units) auto

lemma fmtInt_loop_writes:
  "v \<noteq> 0 \<Longrightarrow> w = length pre \<Longrightarrow> length (Itoa_nat (unat v)) \<le> w \<Longrightarrow>
   \<exists>pre'. fmtInt_loop (pre @ acc) w v = Ret (pre' @ Itoa_nat (unat v) @ acc, length pre') \<and>
          length pre' + length (Itoa_nat (unat v)) = w"
proof (induction "unat v" arbitrary: v w pre acc rule: less_induct)
  case less
  have d: "unat (v div 10) = unat v div 10" "unat (v mod 10) = unat v mod 10"
    by (simp_all add: unat_div unat_mod)
  obtain p x where pre: "pre = p @ [x]" "w = Suc (length p)"
    using less.prems by (cases pre rule: rev_cases) auto
  let ?dig = "digit_char (unat v mod 10)"
  have step: "fmtInt_loop (pre @ acc) w v = fmtInt_loop (p @ ?dig # acc) (length p) (v div 10)"
    using less.prems(1) pre d
    by (subst fmtInt_loop.simps) (simp add: word_gt_0 list_update_append)
  show ?case
  proof (cases "unat v < 10")
    case True
    then have "v div 10 = 0" using d by (simp add: unat_eq_zero [symmetric])
    then show ?thesis using step True pre d
      by (intro exI [of _ p]) (simp add: fmtInt_loop.simps [of _ _ 0] Itoa_nat.simps [of "unat v"])
  next
    case False
    then have "v div 10 \<noteq> 0" "unat (v div 10) < unat v" using d by (auto simp: unat_eq_zero [symmetric])
    moreover have I: "Itoa_nat (unat v) = Itoa_nat (unat (v div 10)) @ [?dig]"
      using False d by (simp add: Itoa_nat.simps [of "unat v"])
    ultimately obtain pre' where
      "fmtInt_loop (p @ ?dig # acc) (length p) (v div 10)
         = Ret (pre' @ Itoa_nat (unat (v div 10)) @ ?dig # acc, length pre')"
      "length pre' + length (Itoa_nat (unat (v div 10))) = length p"
      using less.hyps [of "v div 10" "length p" p "?dig # acc"] less.prems(3) pre by auto
    then show ?thesis using step I pre by (intro exI [of _ pre']) simp
  qed
qed

lemma fmtInt_writes:
  assumes "v \<noteq> 0" "length (Itoa_nat (unat v)) \<le> length buf"
  shows "\<exists>pre'. fmtInt buf v = Ret (pre' @ Itoa_nat (unat v), length pre') \<and>
                length pre' + length (Itoa_nat (unat v)) = length buf"
  using fmtInt_loop_writes [of v "length buf" buf "[]"] assms by (simp add: fmtInt_def)

lemma Itoa_nat_short: "n < 1024 \<Longrightarrow> length (Itoa_nat n) \<le> 4"
  by (simp add: Itoa_nat.simps [of n] Itoa_nat.simps [of "n div 10"]
      Itoa_nat.simps [of "n div 100"] Itoa_nat.simps [of "n div 1000"] div_mult2_eq [symmetric])

lemma String_loop_writes:
  "4 * length units + sum_list (map length units) \<le> length pre \<Longrightarrow>
   \<exists>pre'. String_loop units (pre @ acc) (length pre) u
            = Ret (pre' @ magnitude units (unat u) @ acc, length pre') \<and>
          length pre \<le> length pre' + (4 * length units + sum_list (map length units))"
proof (induction units arbitrary: pre acc u)
  case Nil
  then show ?case by simp
next
  case (Cons unit units)
  have d: "unat (u div 1024) = unat u div 1024" "unat (u mod 1024) = unat u mod 1024"
    by (simp_all add: unat_div unat_mod)
  define p where "p = take (length pre - length unit) pre"
  have p: "length p = length pre - length unit" "length unit \<le> length pre"
    using Cons.prems by (simp_all add: p_def)
  have buf: "copy_at (pre @ acc) (length p) unit = p @ unit @ acc"
    using p by (simp add: copy_at_def p_def)
  consider "u = 0" | "u \<noteq> 0" "unat u mod 1024 = 0" | "u \<noteq> 0" "unat u mod 1024 \<noteq> 0" by blast
  then show ?case
  proof cases
    case 1
    then show ?thesis by (intro exI [of _ pre]) simp
  next
    case 2
    then have "u mod 1024 = 0" using d by (metis unat_eq_zero)
    moreover obtain pre' where "String_loop units ((p @ unit) @ acc) (length (p @ unit)) (u div 1024)
         = Ret (pre' @ magnitude units (unat (u div 1024)) @ acc, length pre')"
      "length (p @ unit) \<le> length pre' + (4 * length units + sum_list (map length units))"
      using Cons.IH [of "p @ unit" acc "u div 1024"] Cons.prems p by auto
    ultimately show ?thesis using 2 p d buf
      by (intro exI [of _ pre']) (simp add: word_gt_0)
  next
    case 3
    then have nz: "u mod 1024 \<noteq> 0" using d by (metis unat_eq_zero)
    have four: "length (Itoa_nat (unat (u mod 1024))) \<le> 4" using d by (simp add: Itoa_nat_short)
    then have "length (Itoa_nat (unat (u mod 1024))) \<le> length p" using Cons.prems p(1) by simp
    then obtain q where q: "fmtInt p (u mod 1024) = Ret (q @ Itoa_nat (unat (u mod 1024)), length q)"
      "length q + length (Itoa_nat (unat (u mod 1024))) = length p" "length p \<le> length q + 4"
      using fmtInt_writes [OF nz, of p] four by auto
    have "4 * length units + sum_list (map length units) \<le> length q" using Cons.prems p(1) q(3) by simp
    then obtain pre' where
      "String_loop units (q @ Itoa_nat (unat (u mod 1024)) @ unit @ acc) (length q) (u div 1024)
         = Ret (pre' @ magnitude units (unat (u div 1024)) @ Itoa_nat (unat (u mod 1024)) @ unit @ acc,
                length pre')"
      "length q \<le> length pre' + (4 * length units + sum_list (map length units))"
      using Cons.IH [of q "Itoa_nat (unat (u mod 1024)) @ unit @ acc" "u div 1024"] by auto
    then show ?thesis using 3 nz p d buf q
      by (intro exI [of _ pre']) (simp add: word_gt_0)
  qed
qed

definition str_spec :: "int64 \<Rightarrow> string" where
  "str_spec c = (if sint c < 0 then ''-'' else []) @ magnitude magicUnit (nat \<bar>sint c\<bar>)"

lemma unat_of_nat64: "n < 2 ^ 64 \<Longrightarrow> unat (of_nat n :: int64) = n"
  by (simp add: unsigned_of_nat take_bit_nat_eq_self)

lemma sint_of_nat64: "n < 2 ^ 63 \<Longrightarrow> sint (of_nat n :: int64) = int n"
  using sint_small [of "of_nat n"] unat_of_nat64 [of n] by simp

lemma unat_neg: "unat c \<noteq> 0 \<Longrightarrow> unat (- c) = 2 ^ 64 - unat (c :: int64)"
proof -
  assume "unat c \<noteq> 0"
  then have k: "unat (of_nat (2 ^ 64 - unat c) :: int64) = 2 ^ 64 - unat c"
    by (intro unat_of_nat64) simp
  have "c + of_nat (2 ^ 64 - unat c) = of_nat (unat c + (2 ^ 64 - unat c))"
    by (subst word_arith_nat_add) (simp only: k)
  also have "\<dots> = 0" using sint_unat_cases [of c] by (subst word_of_nat_eq_0_iff) simp
  finally have "- c = of_nat (2 ^ 64 - unat c)" by (rule minus_unique)
  then show ?thesis using k by simp
qed

lemma unat_abs: "unat (if sint c < 0 then - c else c) = nat \<bar>sint (c :: int64)\<bar>"
proof (cases "sint c < 0")
  case True
  then have b: "2 ^ 63 \<le> unat c" by (simp only: sint_neg_iff)
  then have "unat c \<noteq> 0" by (intro notI) simp
  then have "unat (- c) = 2 ^ 64 - unat c" by (rule unat_neg)
  then show ?thesis using True sint_big [OF b] by (simp add: nat_diff_distrib)
next
  case False
  then have "unat c < 2 ^ 63" by (simp only: sint_neg_iff not_le)
  then show ?thesis using False sint_small [of c] by simp
qed

lemma neg_sign: "0 \<le> sint (d :: int64) \<Longrightarrow> sint (- d) \<le> 0"
proof (cases "unat d = 0")
  case False
  assume "0 \<le> sint d"
  then have "unat d < 2 ^ 63" using sint_neg_iff [of d] by linarith
  then have "2 ^ 63 \<le> unat (- d)" by (simp add: unat_neg [OF False])
  then show ?thesis using sint_neg_iff [of "- d"] by linarith
qed (simp add: unat_eq_zero)

lemma capacity_string_spec: "Capacities_String (Some c) = Ret (str_spec c)"
proof -
  define u where "u = (if sint c < 0 then - c else c)"
  have len: "length zero_buf = 32" by (simp add: zero_buf_def)
  have room: "4 * length magicUnit + sum_list (map length magicUnit) = 29" by (simp add: magicUnit_def)
  obtain pre' where
    l: "String_loop magicUnit zero_buf (length zero_buf) u
        = Ret (pre' @ magnitude magicUnit (unat u), length pre')"
    and n: "32 \<le> length pre' + 29"
    using String_loop_writes [of magicUnit zero_buf "[]" u] unfolding room len append_Nil2 by auto
  have "3 \<le> length pre'" using n by simp
  then obtain p x where p: "pre' = p @ [x]" by (cases pre' rule: rev_cases) auto
  have m: "magnitude magicUnit (unat u) = magnitude magicUnit (nat \<bar>sint c\<bar>)"
    by (simp only: u_def unat_abs)
  have "Capacities_String (Some c) = go_bind (Ret (pre' @ magnitude magicUnit (unat u), length pre'))
     (\<lambda>(buf, w). if sint c < 0
        then if w = 0 then Panic out_of_range else Ret (drop (w - 1) (buf[w - 1 := CHR ''-'']))
        else Ret (drop w buf))"
    by (simp only: Capacities_String_def option.case Let_def l u_def [symmetric])
  then show ?thesis by (simp add: str_spec_def m p)
qed

text \<open>
  C34: \<open>String\<close> never panics: the 32 byte buffer is large enough for every value. It returns a minus
  sign for a negative value and then the counts of terabytes, gigabytes, megabytes, kilobytes and
  bytes modulo 1024, each in decimal with its unit, zero counts left out.
\<close>

theorem capacity_string_total: "Capacities_String (Some c) = Ret (str_spec c)"
  by (rule capacity_string_spec)

section \<open>What ParseCapacities accepts\<close>

lemma digit_step:
  assumes "is_digit c" shows "of_nat n * 10 + of_nat (of_char c) - 48 = (of_nat (n * 10 + digit_val c) :: int64)"
proof -
  have "(of_char c :: nat) = 48 + digit_val c" using assms by (simp add: is_digit_def digit_val_def)
  then show ?thesis by simp
qed

lemma leadingInt_from:
  "n < 2 ^ 63 \<Longrightarrow> leadingInt (of_nat n) s =
     (if dec_from n (takeWhile is_digit s) < 2 ^ 63
      then Inr (of_nat (dec_from n (takeWhile is_digit s)), dropWhile is_digit s)
      else Inl errLeadingInt)"
proof (induction s arbitrary: n)
  case (Cons c cs)
  show ?case
  proof (cases "is_digit c")
    case digit: True
    let ?m = "n * 10 + digit_val c"
    have dc: "digit_val c < 10" using digit by (rule digit_val_less)
    have ge: "?m \<le> dec_from ?m (takeWhile is_digit cs)" by (rule dec_from_ge)
    have guard: "sint (of_nat n :: int64) > go_div max_int64 10 \<longleftrightarrow> n > 922337203685477580"
      using Cons.prems by (simp add: sint_of_nat64 max_int64_def)
    have wrap: "sint (of_nat ?m :: int64) < 0 \<longleftrightarrow> 2 ^ 63 \<le> ?m" if "n \<le> 922337203685477580"
      using that dc unat_of_nat64 [of ?m] by (simp add: sint_neg_iff del: of_nat_add of_nat_mult)
    consider "n > 922337203685477580" | "n \<le> 922337203685477580" "2 ^ 63 \<le> ?m"
      | "n \<le> 922337203685477580" "?m < 2 ^ 63" by linarith
    then show ?thesis
    proof cases
      case 1
      then have "\<not> dec_from ?m (takeWhile is_digit cs) < 2 ^ 63" using ge by simp
      then show ?thesis using 1 digit guard by simp
    next
      case 2
      then have "\<not> dec_from ?m (takeWhile is_digit cs) < 2 ^ 63" using ge by simp
      then show ?thesis using 2 digit guard wrap digit_step [OF digit, of n]
        by (simp add: Let_def del: of_nat_add of_nat_mult)
    next
      case 3
      then show ?thesis using digit guard wrap digit_step [OF digit, of n] Cons.IH [OF 3(2)]
        by (simp add: Let_def del: of_nat_add of_nat_mult)
    qed
  qed (use Cons.prems in simp)
qed simp

text \<open>
  \<open>leadingInt\<close> is exact up to the largest \<open>int64\<close>: it returns the number its leading digits
  denote and the rest of the text, and reports an error exactly when that number does not fit,
  although the check is made on a product that may already have wrapped.
\<close>

theorem leadingInt_exact:
  "leadingInt 0 s =
     (let n = dec_from 0 (takeWhile is_digit s)
      in if n < 2 ^ 63 then Inr (of_nat n, dropWhile is_digit s) else Inl errLeadingInt)"
  using leadingInt_from [of 0 s] by (simp add: Let_def)

lemma unit_word_values:
  "sint Byte = 1" "sint Kilobyte = 2 ^ 10" "sint Megabyte = 2 ^ 20" "sint Gigabyte = 2 ^ 30"
  "sint Terabyte = 2 ^ 40"
  by (simp_all add: unit_values)

text \<open>The units as \<open>String\<close> prints them, with the value that \<open>ParseCapacities\<close> gives them.\<close>

definition unit_lookup :: "string \<Rightarrow> nat \<Rightarrow> bool" where
  "unit_lookup unit U \<longleftrightarrow> unit \<noteq> [] \<and> (\<forall>c\<in>set unit. unit_char c) \<and>
     map_of unitMap (ToLower unit) = Some (of_nat U) \<and> 0 < U \<and> U \<le> 2 ^ 40"

lemma ToLower_magic:
  "ToLower ''B'' = ''b''" "ToLower ''KB'' = ''kb''" "ToLower ''MB'' = ''mb''" "ToLower ''GB'' = ''gb''"
  "ToLower ''TB'' = ''tb''"
  by code_simp+

lemma magic_lookup:
  "unit_lookup ''B'' 1" "unit_lookup ''KB'' (2 ^ 10)" "unit_lookup ''MB'' (2 ^ 20)"
  "unit_lookup ''GB'' (2 ^ 30)" "unit_lookup ''TB'' (2 ^ 40)"
  by (simp_all add: unit_lookup_def unit_char_def is_digit_def ToLower_magic unitMap_def unit_values
      del: ToLower.simps)

lemma parse_term_number:
  assumes "unit_lookup unit U" "k * U < 2 ^ 63" "rest = [] \<or> is_digit (hd rest)"
  shows "parse_term orig (Itoa_nat k @ unit @ rest) = Inr (of_nat (k * U), rest)"
proof -
  have U: "unit \<noteq> []" "\<And>c. c \<in> set unit \<Longrightarrow> unit_char c" "0 < U" "U \<le> 2 ^ 40"
      "map_of unitMap (ToLower unit) = Some (of_nat U)"
    using assms(1) by (auto simp: unit_lookup_def)
  have k: "k < 2 ^ 63" using assms(2) U(3) by (metis One_nat_def Suc_leI le_less_trans mult.right_neutral mult_le_mono2)
  have hu: "\<not> is_digit (hd (unit @ rest))" "hd (unit @ rest) \<noteq> CHR ''.''"
    using U(1) U(2) [of "hd unit"] by (auto simp: unit_char_def)
  then have tw: "takeWhile is_digit (Itoa_nat k @ unit @ rest) = Itoa_nat k"
      "dropWhile is_digit (Itoa_nat k @ unit @ rest) = unit @ rest"
    using takeWhile_digits [of "Itoa_nat k" "unit @ rest"] Itoa_nat_digits by auto
  have int: "leadingInt 0 (Itoa_nat k @ unit @ rest) = Inr (of_nat k, unit @ rest)"
    using leadingInt_from [of 0 "Itoa_nat k @ unit @ rest"] k tw by simp
  have un: "takeWhile unit_char (unit @ rest) = unit" "dropWhile unit_char (unit @ rest) = rest"
    using U(2) assms(3) by (cases rest; simp add: unit_char_def)+
  have "sint (of_nat U :: int64) = int U" "sint (of_nat k :: int64) = int k"
    using U(4) k by (simp_all add: sint_of_nat64)
  moreover have "int k \<le> max_int64 div int U"
  proof -
    have "int k * int U \<le> max_int64" using assms(2) unfolding max_int64_def by (simp flip: of_nat_mult)
    then have "int k * int U div int U \<le> max_int64 div int U" using U(3) by (intro zdiv_mono1) simp_all
    then show ?thesis using U(3) by simp
  qed
  ultimately have unit: "parse_unit orig (of_nat k) 0 sc (unit @ rest) = Inr (of_nat (k * U), rest)" for sc
    using U by (simp add: parse_unit_def un max_int64_def)
  have "is_digit (hd (Itoa_nat k @ unit @ rest))" using hd_Itoa_nat [of k] by simp
  then show ?thesis using int hu unit U(1) by (simp add: parse_term_def)
qed

definition cap_term :: "nat \<Rightarrow> string \<Rightarrow> string" where
  "cap_term k unit = (if k > 0 then Itoa_nat k @ unit else [])"

definition starts_ok :: "string \<Rightarrow> bool" where
  "starts_ok s \<longleftrightarrow> s = [] \<or> is_digit (hd s)"

lemma starts_ok_term: "starts_ok rest \<Longrightarrow> starts_ok (cap_term k unit @ rest)"
  using hd_Itoa_nat [of k] by (simp add: starts_ok_def cap_term_def)

lemma parse_loop_term:
  assumes "unit_lookup unit U" "d + k * U < 2 ^ 63" "starts_ok rest"
  shows "parse_loop orig (of_nat d) (cap_term k unit @ rest) = parse_loop orig (of_nat (d + k * U)) rest"
proof (cases "k > 0")
  case True
  have t: "parse_term orig (Itoa_nat k @ unit @ rest) = Inr (of_nat (k * U), rest)"
    using parse_term_number [OF assms(1)] assms(2,3) by (simp add: starts_ok_def)
  have "\<not> sint (of_nat (d + k * U) :: int64) < 0" using assms(2) by (simp only: sint_of_nat64)
  then show ?thesis using True
    by (subst parse_loop.simps) (simp add: t cap_term_def del: of_nat_add of_nat_mult flip: of_nat_add)
qed (simp add: cap_term_def)

lemma magnitude_terms:
  "magnitude magicUnit n = cap_term (n div 2 ^ 40 mod 1024) ''TB'' @ cap_term (n div 2 ^ 30 mod 1024) ''GB'' @
     cap_term (n div 2 ^ 20 mod 1024) ''MB'' @ cap_term (n div 2 ^ 10 mod 1024) ''KB'' @ cap_term (n mod 1024) ''B''"
  by (simp add: magicUnit_def cap_term_def div_mult2_eq [symmetric])

lemma units_sum:
  fixes n :: nat
  assumes "n < 2 ^ 50"
  shows "n div 2 ^ 40 mod 1024 * 2 ^ 40 + n div 2 ^ 30 mod 1024 * 2 ^ 30 + n div 2 ^ 20 mod 1024 * 2 ^ 20 +
    n div 2 ^ 10 mod 1024 * 2 ^ 10 + n mod 1024 * 1 = n"
proof -
  have split: "n div 2 ^ (a + 10) * 2 ^ (a + 10) + n div 2 ^ a mod 1024 * 2 ^ a = n div 2 ^ a * 2 ^ a" for a
  proof -
    have "n div 2 ^ (a + 10) = n div 2 ^ a div 1024"
      by (simp add: power_add div_mult2_eq [of n "2 ^ a" 1024])
    then have "n div 2 ^ a = n div 2 ^ (a + 10) * 1024 + n div 2 ^ a mod 1024"
      by (simp only: div_mult_mod_eq)
    then have "n div 2 ^ a * 2 ^ a = (n div 2 ^ (a + 10) * 1024 + n div 2 ^ a mod 1024) * 2 ^ a" by simp
    then show ?thesis by (simp add: power_add algebra_simps)
  qed
  have "n div 2 ^ 50 = 0" using assms by simp
  then show ?thesis using split [of 0] split [of 10] split [of 20] split [of 30] split [of 40] by simp
qed

lemma partial_sums:
  fixes a :: nat
  assumes "0 + a + b + c + d + e = n" "n < m"
  shows "0 + a + b + c + d < m" "0 + a + b + c < m" "0 + a + b < m" "0 + a < m" "0 + a + b + c + d + e < m"
  using assms by simp_all

lemma parse_magnitude:
  assumes n: "n < 2 ^ 50"
  shows "parse_loop orig 0 (magnitude magicUnit n) = Inr (of_nat n)"
proof -
  let ?a = "n div 2 ^ 40 mod 1024" let ?b = "n div 2 ^ 30 mod 1024" let ?c = "n div 2 ^ 20 mod 1024"
  let ?d = "n div 2 ^ 10 mod 1024" let ?e = "n mod 1024"
  let ?t = "\<lambda>k u rest. cap_term k u @ rest"
  have sum: "0 + ?a * 2 ^ 40 + ?b * 2 ^ 30 + ?c * 2 ^ 20 + ?d * 2 ^ 10 + ?e * 1 = n"
    using units_sum [OF n] by simp
  have lt: "n < 2 ^ 63" using n by simp
  note le = partial_sums [OF sum lt]
  have s: "starts_ok []" by (simp add: starts_ok_def)
  have m: "magnitude magicUnit n =
      ?t ?a ''TB'' (?t ?b ''GB'' (?t ?c ''MB'' (?t ?d ''KB'' (?t ?e ''B'' []))))"
    by (simp add: magnitude_terms)
  have "parse_loop orig (of_nat 0) (magnitude magicUnit n) =
      parse_loop orig (of_nat (0 + ?a * 2 ^ 40 + ?b * 2 ^ 30 + ?c * 2 ^ 20 + ?d * 2 ^ 10 + ?e * 1)) []"
    by (simp only: m parse_loop_term [OF magic_lookup(5) le(4)] parse_loop_term [OF magic_lookup(4) le(3)]
        parse_loop_term [OF magic_lookup(3) le(2)] parse_loop_term [OF magic_lookup(2) le(1)]
        parse_loop_term [OF magic_lookup(1) le(5)] starts_ok_term s)
  then have "parse_loop orig (of_nat 0) (magnitude magicUnit n) = Inr (of_nat n)"
    by (simp only: sum parse_loop.simps [of _ _ "[]"] if_True simp_thms)
  then show ?thesis by simp
qed

lemma magnitude_nonempty: "0 < n \<Longrightarrow> n < 2 ^ 50 \<Longrightarrow> magnitude magicUnit n \<noteq> []"
  using parse_magnitude [of n "[]"] unat_of_nat64 [of n]
  by (intro notI) (simp add: parse_loop.simps)

lemma starts_ok_magnitude: "starts_ok (magnitude magicUnit n)"
  unfolding magnitude_terms by (intro starts_ok_term) (simp add: starts_ok_def cap_term_def hd_Itoa_nat)

lemma magnitude_last:
  "(\<And>u. u \<in> set units \<Longrightarrow> u \<noteq> [] \<and> last u = b) \<Longrightarrow> magnitude units n \<noteq> [] \<Longrightarrow> last (magnitude units n) = b"
  by (induction units arbitrary: n) (auto split: if_splits)

lemma zero_not_magnitude: "magnitude magicUnit n \<noteq> ''0''"
proof
  assume z: "magnitude magicUnit n = ''0''"
  have "last (magnitude magicUnit n) = CHR ''B''"
  proof (rule magnitude_last)
    show "magnitude magicUnit n \<noteq> []" by (simp only: z) simp
  qed (auto simp: magicUnit_def)
  then show False by (simp add: z)
qed

lemma capacity_reads_back:
  assumes "sint c \<noteq> 0" "\<bar>sint c\<bar> < 2 ^ 50"
  shows "ParseCapacities (str_spec c) = (c, None)"
proof -
  let ?n = "nat \<bar>sint c\<bar>"
  have n: "0 < ?n" "?n < 2 ^ 50" using assms by auto
  have hd: "is_digit (hd (magnitude magicUnit ?n))" and ne: "magnitude magicUnit ?n \<noteq> []"
    using starts_ok_magnitude [of ?n] magnitude_nonempty [OF n] by (auto simp: starts_ok_def)
  then have sg: "hd (magnitude magicUnit ?n) \<noteq> CHR ''-''" "hd (magnitude magicUnit ?n) \<noteq> CHR ''+''"
    by (auto simp: is_digit_def)
  have v: "(of_nat ?n :: int64) = (if sint c < 0 then - c else c)"
    unfolding unat_abs [symmetric] by (simp only: of_nat_unat ucast_id)
  show ?thesis
    using parse_magnitude [OF n(2), of "str_spec c"] ne sg zero_not_magnitude [of ?n] v
    by (cases "sint c < 0") (simp_all add: ParseCapacities_def str_spec_def)
qed

text \<open>
  C4: a capacity of a magnitude below \<open>2 ^ 50\<close> bytes and not zero survives printing and parsing:
  \<open>ParseCapacities\<close> reads back the value that \<open>String\<close> printed, of either sign, with no error.
\<close>

theorem capacity_round_trip:
  assumes "sint c \<noteq> 0" "\<bar>sint c\<bar> < 2 ^ 50"
  shows "\<exists>s. Capacities_String (Some c) = Ret s \<and> ParseCapacities s = (c, None)"
  using capacity_string_spec [of c] capacity_reads_back [OF assms] by blast

theorem capacity_round_trip_witness:
  "\<exists>s. Capacities_String (Some (- 1052672)) = Ret s \<and> ParseCapacities s = (- 1052672, None)"
  by (rule capacity_round_trip [of "- 1052672"]) simp_all

lemma MarshalJSON_spec: "Capacities_MarshalJSON c = Ret ([CHR 0x22] @ str_spec c @ [CHR 0x22])"
  by (simp add: Capacities_MarshalJSON_def capacity_string_spec)

text \<open>
  the JSON form. A value of a magnitude below \<open>2 ^ 50\<close> that is not zero is read back from
  its own JSON text whatever the receiver held, and every \<open>int64\<close> is read from its decimal number.
\<close>

theorem capacity_json_round_trip:
  assumes "sint c \<noteq> 0" "\<bar>sint c\<bar> < 2 ^ 50"
  shows "(\<exists>b. Capacities_MarshalJSON c = Ret b \<and> Capacities_UnmarshalJSON c0 b = (c, None)) \<and>
    Capacities_UnmarshalJSON c0 (Itoa (sint d)) = (d, None)"
proof
  have p: "ParseCapacities (str_spec c) = (c, None)"
    using capacity_reads_back [OF assms] .
  have "str_spec c \<noteq> []" using p by (intro notI) (simp add: ParseCapacities_def)
  then show "\<exists>b. Capacities_MarshalJSON c = Ret b \<and> Capacities_UnmarshalJSON c0 b = (c, None)"
    using p by (simp add: MarshalJSON_spec Capacities_UnmarshalJSON_def nth_append)
  have "hd (Itoa (sint d)) = CHR ''-'' \<or> is_digit (hd (Itoa (sint d)))"
    using hd_Itoa_nat by (simp add: Itoa_def)
  then have "Itoa (sint d) \<noteq> ''null''" "Itoa (sint d) ! 0 \<noteq> CHR 0x22"
    by (auto simp: is_digit_def Itoa_def hd_conv_nth)
  moreover have "ParseInt (Itoa (sint d)) = (sint d, None)"
    using sint_greater_eq [of d] sint_less [of d] by (intro ParseInt_Itoa) simp_all
  ultimately show "Capacities_UnmarshalJSON c0 (Itoa (sint d)) = (d, None)"
    by (simp add: Capacities_UnmarshalJSON_def)
qed

theorem capacity_json_round_trip_witness:
  "(\<exists>b. Capacities_MarshalJSON 1536 = Ret b \<and> Capacities_UnmarshalJSON 7 b = (1536, None)) \<and>
   Capacities_UnmarshalJSON 7 (Itoa (sint (5 :: int64))) = (5, None)"
  by (rule capacity_json_round_trip [of 1536 7 5]) simp_all

text \<open>
  the two gaps of the text form. Zero prints as the empty text, which neither the parser nor
  the JSON decoder accepts, so a zero value does not survive \<open>MarshalJSON\<close>; and everything above the
  terabytes modulo 1024 is dropped, so \<open>2 ^ 50\<close> bytes print as zero does and one byte more as one byte.
\<close>

theorem capacity_string_gaps:
  "Capacities_String (Some 0) = Ret [] \<and> snd (ParseCapacities []) \<noteq> None \<and>
   (\<exists>b. Capacities_MarshalJSON 0 = Ret b \<and> Capacities_UnmarshalJSON c b = (0, Some (NumError ErrSyntax))) \<and>
   Capacities_String (Some (2 ^ 50)) = Ret [] \<and> Capacities_String (Some (2 ^ 50 + 1)) = Ret ''1B''"
proof (intro conjI)
  have v: "sint (0 :: int64) = 0" "sint (2 ^ 50 :: int64) = 2 ^ 50" "sint (2 ^ 50 + 1 :: int64) = 2 ^ 50 + 1"
    by simp_all
  have one: "Itoa_nat (Suc 0) = ''1''" by code_simp
  show "Capacities_String (Some 0) = Ret []" "Capacities_String (Some (2 ^ 50)) = Ret []"
    "Capacities_String (Some (2 ^ 50 + 1)) = Ret ''1B''"
    unfolding capacity_string_spec str_spec_def v
    by (simp_all add: magicUnit_def one)
  show "snd (ParseCapacities []) \<noteq> None" by (simp add: ParseCapacities_def)
  have "ParseInt [CHR 0x22, CHR 0x22] = (0, Some ErrSyntax)" by code_simp
  then show "\<exists>b. Capacities_MarshalJSON 0 = Ret b \<and>
      Capacities_UnmarshalJSON c b = (0, Some (NumError ErrSyntax))"
    by (simp add: MarshalJSON_spec str_spec_def v Capacities_UnmarshalJSON_def)
qed

lemma parse_loop_sign: "parse_loop orig d s = Inr v \<Longrightarrow> 0 \<le> sint d \<Longrightarrow> 0 \<le> sint v"
proof (induction orig d s rule: parse_loop.induct)
  case (1 orig d s)
  show ?case
  proof (cases "s = []")
    case False
    then obtain w s' where t: "parse_term orig s = Inr (w, s')" and n: "\<not> sint (d + w) < 0"
      and r: "parse_loop orig (d + w) s' = Inr v"
      using "1.prems"(1) by (subst (asm) parse_loop.simps) (auto simp: Let_def split: sum.splits if_splits)
    show ?thesis using "1.IH" [OF False t refl refl n r] n by simp
  qed (use 1 in \<open>simp add: parse_loop.simps\<close>)
qed

text \<open>
  overflow never turns into a value of the wrong sign: whatever the text, a successful parse of
  a text without a minus sign is not negative and one with a minus sign is not positive, and
  an error always comes with the value 0.
\<close>

theorem capacity_parse_sign:
  assumes "ParseCapacities s = (v, err)"
  shows "if err = None then (if s \<noteq> [] \<and> hd s = CHR ''-'' then sint v \<le> 0 else 0 \<le> sint v) else v = 0"
proof -
  let ?t = "if s \<noteq> [] \<and> (hd s = CHR ''-'' \<or> hd s = CHR ''+'') then tl s else s"
  consider "?t = ''0''" | "?t \<noteq> ''0''" "?t = []" | "?t \<noteq> ''0''" "?t \<noteq> []" by blast
  then show ?thesis
  proof cases
    case 3
    then have eq: "ParseCapacities s = (case parse_loop s 0 ?t of Inl e \<Rightarrow> (0, Some e)
        | Inr d \<Rightarrow> (if s \<noteq> [] \<and> hd s = CHR ''-'' then - d else d, None))"
      by (simp only: ParseCapacities_def Let_def if_False)
    show ?thesis
    proof (cases "parse_loop s 0 ?t")
      case (Inr d)
      then have "0 \<le> sint d" using parse_loop_sign [OF Inr] by simp
      then have "sint (- d) \<le> 0" using neg_sign by simp
      then show ?thesis using assms eq Inr \<open>0 \<le> sint d\<close> by (auto split: if_splits)
    qed (use assms eq in auto)
  qed (use assms in \<open>simp_all only: ParseCapacities_def Let_def if_True if_False\<close>, auto)
qed

lemma fraction_15MB: "ParseCapacities ''1.5MB'' = (1536 * 1024, None)"
proof -
  have fl: "fl_trunc (fl_mul (fl_of_nat 5) (fl_div (fl_of_nat 1048576) (fl_mul (fl_of_nat (Suc 0)) (fl_of_nat 10)))) = 524288"
    by (simp add: fl_of_nat_def fl_mul_def fl_div_def fl_trunc_def fl_round_def round_div_def bit_size.simps Let_def)
  have u: "map_of unitMap (ToLower ''MB'') = Some 1048576"
    by (simp add: ToLower_magic unitMap_def unit_values del: ToLower.simps)
  have "parse_unit ''1.5MB'' 1 5 (fl_mul (fl_of_nat (Suc 0)) (fl_of_nat 10)) ''MB'' = Inr (1536 * 1024, [])"
    by (simp add: parse_unit_def unit_char_def is_digit_def u fl max_int64_def del: ToLower.simps)
  then show ?thesis
    by (simp add: ParseCapacities_def parse_loop.simps parse_term_def is_digit_def max_int64_def Let_def)
qed

theorem capacity_parse_sign_witness:
  "ParseCapacities ''1.5MB'' = (1536 * 1024, None) \<and> 0 \<le> sint (1536 * 1024 :: int64)"
  using capacity_parse_sign [OF fraction_15MB] fraction_15MB by simp

end
