(* ===== verification/Buffer.thy ===== *)
theory Buffer
  imports GoPrelude
begin

text \<open>
  Package \<open>buffer\<close>: the \<open>LimitedWriter\<close> of \<open>src/buffer/limit.go\<close> and the \<open>preReader\<close> of
  \<open>src/buffer/pre_reader.go\<close>. Both wrap a stream they do not own, so the operations take the
  wrapped \<open>Write\<close> or \<open>Read\<close> as an argument; the locales \<open>io_writer\<close> and \<open>io_reader\<close> state what
  the documentation of package \<open>io\<close> asks of an implementation, and \<open>bytes.Buffer\<close>, which the
  package is used and tested with, is interpreted in both. A \<open>Read\<close> call returns the bytes it
  stored in its argument, so its count \<open>n\<close> is their number.
\<close>

datatype io_error = EOF | IOError string

type_synonym 'w io_write = "'w \<Rightarrow> byte list \<Rightarrow> 'w \<times> int \<times> io_error option"
type_synonym 'r io_read = "'r \<Rightarrow> nat \<Rightarrow> 'r \<times> byte list \<times> io_error option"

section \<open>LimitedWriter\<close>

record 'w LimitedWriter =
  W :: 'w
  N :: int
  MaxN :: int
  ignoreError :: bool

type_synonym 'w LimitWriterOption = "'w LimitedWriter \<Rightarrow> 'w LimitedWriter"

definition LimitWriter :: "'w \<Rightarrow> int \<Rightarrow> 'w LimitWriterOption list \<Rightarrow> 'w LimitedWriter" where
  "LimitWriter w n options =
     foldl (\<lambda>writer option. option writer) \<lparr>W = w, N = n, MaxN = n, ignoreError = False\<rparr> options"

definition LimitWriterIgnoreError :: "'w LimitWriterOption" where
  "LimitWriterIgnoreError lw = lw\<lparr>ignoreError := True\<rparr>"

definition LimitedWriter_Write :: "'w io_write \<Rightarrow> 'w LimitedWriter io_write" where
  "LimitedWriter_Write wr l p =
     (let c = int (length p);
          (l', n, err) =
            (if N l \<le> 0 then (l, 0, Some EOF)
             else
               let q = (if int (length p) > N l then take (nat (N l)) p else p)
               in case wr (W l) q of
                    (w, n, err) \<Rightarrow> (l\<lparr>W := w, N := N l - n\<rparr>, n, err))
      in if ignoreError l then (l', c, None) else (l', n, err))"

text \<open>A caller's sequence of writes, with what each of them returned.\<close>

primrec write_seq :: "'w io_write \<Rightarrow> 'w \<Rightarrow> byte list list \<Rightarrow> 'w \<times> (int \<times> io_error option) list" where
  "write_seq wr w [] = (w, [])"
| "write_seq wr w (p # ps) =
     (case wr w p of (w', n, err) \<Rightarrow>
        case write_seq wr w' ps of (w'', rs) \<Rightarrow> (w'', (n, err) # rs))"

text \<open>
  The contract of \<open>io.Writer\<close>: \<open>Write\<close> writes \<open>0 \<le> n \<le> len(p)\<close> bytes from \<open>p\<close> to the stream, and
  returns an error if \<open>n < len(p)\<close>.
\<close>

locale io_writer =
  fixes wr :: "'w io_write" and content :: "'w \<Rightarrow> byte list"
  assumes write_appends: "wr w p = (w', n, err) \<Longrightarrow>
    0 \<le> n \<and> n \<le> int (length p) \<and> content w' = content w @ take (nat n) p"
  and short_is_error: "wr w p = (w', n, err) \<Longrightarrow> n < int (length p) \<Longrightarrow> err \<noteq> None"
begin

text \<open>Whatever a limited writer is given, it stays inside its limit and accounts for each byte.\<close>

lemma limited_step:
  assumes "LimitedWriter_Write wr l p = (l', r)" "0 \<le> N l"
  shows "\<exists>q. content (W l') = content (W l) @ q \<and> N l' = N l - int (length q) \<and> 0 \<le> N l' \<and>
    prefix q p \<and> MaxN l' = MaxN l \<and> ignoreError l' = ignoreError l"
proof (cases "N l \<le> 0")
  case True
  then have "l' = l" using assms by (auto simp: LimitedWriter_Write_def Let_def split: if_splits)
  then show ?thesis using assms(2) by auto
next
  case False
  let ?q = "if int (length p) > N l then take (nat (N l)) p else p"
  obtain w n err where w: "wr (W l) ?q = (w, n, err)" by (cases "wr (W l) ?q") auto
  have c: "0 \<le> n" "n \<le> int (length ?q)" "content w = content (W l) @ take (nat n) ?q"
    using write_appends [OF w] by auto
  have "l' = l\<lparr>W := w, N := N l - n\<rparr>"
    using assms False w by (auto simp: LimitedWriter_Write_def Let_def split: if_splits)
  moreover have "prefix (take (nat n) ?q) p"
    by (auto intro: take_is_prefix prefix_order.trans)
  moreover have "int (length (take (nat n) ?q)) = n" "n \<le> N l" using c False by (auto split: if_splits)
  ultimately show ?thesis using c by (intro exI [of _ "take (nat n) ?q"]) auto
qed

lemma limited_seq:
  "write_seq (LimitedWriter_Write wr) l ps = (l', rs) \<Longrightarrow> 0 \<le> N l \<Longrightarrow>
   \<exists>q. content (W l') = content (W l) @ q \<and> N l' = N l - int (length q) \<and> 0 \<le> N l'"
proof (induction ps arbitrary: l rs)
  case (Cons p ps)
  obtain l1 r1 where s: "LimitedWriter_Write wr l p = (l1, r1)"
    by (cases "LimitedWriter_Write wr l p")
  obtain rs' where rest: "write_seq (LimitedWriter_Write wr) l1 ps = (l', rs')"
    using Cons.prems s by (cases r1) (auto split: prod.splits)
  from limited_step [OF s Cons.prems(2)] Cons.IH [OF rest] show ?case by fastforce
qed simp

end

text \<open>A writer that never fails, such as \<open>bytes.Buffer\<close>, takes everything.\<close>

locale full_writer = io_writer +
  assumes no_error: "wr w p = (w', n, err) \<Longrightarrow> err = None"
begin

lemma writes_all: "wr w p = (w', n, err) \<Longrightarrow> n = int (length p) \<and> content w' = content w @ p"
  using write_appends [of w p w' n err] short_is_error [of w p w' n err] no_error [of w p w' n err] by fastforce

lemma limited_full:
  "write_seq (LimitedWriter_Write wr) l ps = (l', rs) \<Longrightarrow> 0 \<le> N l \<Longrightarrow>
   content (W l') = content (W l) @ take (nat (N l)) (concat ps) \<and>
   N l' = max 0 (N l - int (length (concat ps)))"
proof (induction ps arbitrary: l rs)
  case (Cons p ps)
  obtain l1 r1 where s: "LimitedWriter_Write wr l p = (l1, r1)"
    by (cases "LimitedWriter_Write wr l p")
  obtain rs' where rest: "write_seq (LimitedWriter_Write wr) l1 ps = (l', rs')"
    using Cons.prems s by (cases r1) (auto split: prod.splits)
  let ?q = "take (nat (N l)) p"
  have l1: "content (W l1) = content (W l) @ ?q \<and> N l1 = max 0 (N l - int (length p))"
  proof (cases "N l \<le> 0")
    case True
    then show ?thesis using s Cons.prems(2) by (auto simp: LimitedWriter_Write_def Let_def split: if_splits)
  next
    case False
    obtain w n err where w: "wr (W l) ?q = (w, n, err)" by (cases "wr (W l) ?q") auto
    have "(if int (length p) > N l then ?q else p) = ?q" using False by simp
    then have "l1 = l\<lparr>W := w, N := N l - n\<rparr>"
      using s False w by (auto simp: LimitedWriter_Write_def Let_def split: if_splits)
    then show ?thesis using writes_all [OF w] False by auto
  qed
  then have "content (W l') = content (W l1) @ take (nat (N l1)) (concat ps) \<and>
      N l' = max 0 (N l1 - int (length (concat ps)))"
    using Cons.IH [OF rest] by auto
  then show ?case using l1 Cons.prems(2) by (auto simp: nat_diff_distrib max_def)
qed simp

end

text \<open>\<open>bytes.Buffer\<close>: \<open>Write\<close> appends, \<open>Read\<close> takes from the front and reports EOF when it is empty.\<close>

definition Buffer_Write :: "byte list io_write" where
  "Buffer_Write s p = (s @ p, int (length p), None)"

definition Buffer_Read :: "byte list io_read" where
  "Buffer_Read s k =
     (if s = [] then (s, [], if k = 0 then None else Some EOF) else (drop k s, take k s, None))"

interpretation bytes_writer: full_writer Buffer_Write id
  by unfold_locales (auto simp: Buffer_Write_def)

section \<open>preReader\<close>

record 'r preReader =
  pr_reader :: 'r
  pr_buf :: "byte list"
  pr_bufIdx :: int
  pr_maxLen :: int

definition preReader_Read :: "'r io_read \<Rightarrow> 'r preReader io_read" where
  "preReader_Read read r k =
     (if pr_bufIdx r \<ge> pr_maxLen r then
        (case read (pr_reader r) k of (s, bs, err) \<Rightarrow> (r\<lparr>pr_reader := s\<rparr>, bs, err))
      else if int (length (pr_buf r)) \<le> pr_bufIdx r then (r, [], Some EOF)
      else
        let bs = take k (drop (nat (pr_bufIdx r)) (pr_buf r))
        in (r\<lparr>pr_bufIdx := pr_bufIdx r + int (length bs)\<rparr>, bs, None))"

definition preReader_Close ::
    "('r \<Rightarrow> 'r \<times> io_error option) \<Rightarrow> 'r preReader \<Rightarrow> 'r preReader \<times> io_error option" where
  "preReader_Close close r =
     (case close (pr_reader r) of (s, err) \<Rightarrow>
        (r\<lparr>pr_reader := s, pr_buf := [], pr_bufIdx := 0, pr_maxLen := 0\<rparr>, err))"

definition preReader_Buffer :: "'r preReader \<Rightarrow> byte list" where
  "preReader_Buffer r = pr_buf r"

definition preReader_String :: "'r preReader \<Rightarrow> string" where
  "preReader_String r = map (\<lambda>b. char_of (unat b)) (pr_buf r)"

text \<open>
  The loop of \<open>NewPreReader\<close>. It has no bound of its own: a reader that keeps returning no byte and
  no error keeps it running, which is the value None here.
\<close>

partial_function (option) prefetch ::
    "'r io_read \<Rightarrow> int \<Rightarrow> 'r preReader \<Rightarrow> int \<Rightarrow> ('r preReader \<times> io_error option) option" where
  "prefetch read maxLen r i =
     (if i < maxLen then
        case read (pr_reader r) (nat (maxLen - i)) of (s, bs, err) \<Rightarrow>
          if bs \<noteq> [] then
            prefetch read maxLen (r\<lparr>pr_reader := s, pr_buf := pr_buf r @ bs\<rparr>) (i + int (length bs))
          else if err = Some EOF then Some (r\<lparr>pr_reader := s\<rparr>, None)
          else if err \<noteq> None then Some (r\<lparr>pr_reader := s\<rparr>, err)
          else prefetch read maxLen (r\<lparr>pr_reader := s\<rparr>) i
      else Some (r, None))"

declare prefetch.simps [code]

definition NewPreReader :: "'r io_read \<Rightarrow> 'r \<Rightarrow> int \<Rightarrow> ('r preReader \<times> io_error option) option" where
  "NewPreReader read reader maxLen =
     prefetch read maxLen \<lparr>pr_reader = reader, pr_buf = [], pr_bufIdx = 0, pr_maxLen = maxLen\<rparr> 0"

primrec read_seq :: "'r io_read \<Rightarrow> 'r \<Rightarrow> nat list \<Rightarrow> 'r \<times> byte list" where
  "read_seq read s [] = (s, [])"
| "read_seq read s (k # ks) =
     (case read s k of (s', bs, err) \<Rightarrow>
        case read_seq read s' ks of (s'', bs') \<Rightarrow> (s'', bs @ bs'))"

text \<open>What a preReader still has to deliver, and the invariant that makes it so.\<close>

definition pre_rest :: "('r \<Rightarrow> byte list) \<Rightarrow> 'r preReader \<Rightarrow> byte list" where
  "pre_rest rest r =
     (if pr_bufIdx r \<ge> pr_maxLen r then rest (pr_reader r)
      else drop (nat (pr_bufIdx r)) (pr_buf r) @ rest (pr_reader r))"

definition pre_ok :: "('r \<Rightarrow> byte list) \<Rightarrow> ('r \<Rightarrow> bool) \<Rightarrow> 'r preReader \<Rightarrow> bool" where
  "pre_ok rest ok r \<longleftrightarrow> ok (pr_reader r) \<and>
     (pr_bufIdx r < pr_maxLen r \<longrightarrow>
        0 \<le> pr_bufIdx r \<and> int (length (pr_buf r)) \<le> pr_maxLen r \<and>
        (int (length (pr_buf r)) < pr_maxLen r \<longrightarrow> rest (pr_reader r) = []))"

text \<open>
  The contract of \<open>io.Reader\<close> on a stream with \<open>rest s\<close> still to come: \<open>Read\<close> delivers at most as many
  bytes as there is room for, in order; EOF means that nothing is left; and it does not return no
  byte and no error when it is given room. \<open>ok\<close> is an invariant of the implementation.
\<close>

locale io_reader =
  fixes read :: "'r io_read" and rest :: "'r \<Rightarrow> byte list" and ok :: "'r \<Rightarrow> bool"
  assumes read_delivers: "ok s \<Longrightarrow> read s k = (s', bs, err) \<Longrightarrow>
    ok s' \<and> length bs \<le> k \<and> rest s = bs @ rest s'"
  and read_eof: "ok s \<Longrightarrow> read s k = (s', bs, Some EOF) \<Longrightarrow> rest s' = []"
  and read_progress: "ok s \<Longrightarrow> 0 < k \<Longrightarrow> read s k = (s', [], err) \<Longrightarrow> err \<noteq> None"
begin

lemma prefetch_collects:
  assumes "ok (pr_reader r)" "int (length (pr_buf r)) = i" "i \<le> maxLen"
  shows "\<exists>r' err. prefetch read maxLen r i = Some (r', err) \<and> ok (pr_reader r') \<and>
    pr_buf r @ rest (pr_reader r) = pr_buf r' @ rest (pr_reader r') \<and> int (length (pr_buf r')) \<le> maxLen \<and>
    pr_bufIdx r' = pr_bufIdx r \<and> pr_maxLen r' = pr_maxLen r \<and>
    (err = None \<and> int (length (pr_buf r')) < maxLen \<longrightarrow> rest (pr_reader r') = [])"
  using assms
proof (induction "nat (maxLen - i)" arbitrary: r i rule: less_induct)
  case less
  obtain s bs err where rd: "read (pr_reader r) (nat (maxLen - i)) = (s, bs, err)"
    by (cases "read (pr_reader r) (nat (maxLen - i))") auto
  have c: "ok s" "length bs \<le> nat (maxLen - i)" "rest (pr_reader r) = bs @ rest s"
    using read_delivers [OF less.prems(1) rd] by auto
  consider "\<not> i < maxLen" | "i < maxLen" "bs = []" | "i < maxLen" "bs \<noteq> []" by blast
  then show ?case
  proof cases
    case 1
    then show ?thesis using less.prems by (subst prefetch.simps) auto
  next
    case 2
    then have e: "err \<noteq> None" using read_progress [OF less.prems(1) _ rd [unfolded 2(2)]] by simp
    have "rest s = []" if "err = Some EOF" using read_eof [OF less.prems(1)] rd that by auto
    then show ?thesis using 2 e rd c less.prems by (subst prefetch.simps) auto
  next
    case 3
    let ?r = "r\<lparr>pr_reader := s, pr_buf := pr_buf r @ bs\<rparr>"
    have "prefetch read maxLen r i = prefetch read maxLen ?r (i + int (length bs))"
      using 3 rd by (subst prefetch.simps) simp
    moreover have "nat (maxLen - (i + int (length bs))) < nat (maxLen - i)" using 3 by (cases bs) auto
    ultimately show ?thesis
      using less.hyps [of "i + int (length bs)" ?r] less.prems c by auto
  qed
qed

text \<open>The wrapped reader with its buffer in front is again a reader of the same stream.\<close>

lemma pre_reader: "io_reader (preReader_Read read) (pre_rest rest) (pre_ok rest ok)"
proof
  fix r k r' bs err
  assume ok: "pre_ok rest ok r" and rd: "preReader_Read read r k = (r', bs, err)"
  obtain s cs e where u: "read (pr_reader r) k = (s, cs, e)" by (cases "read (pr_reader r) k") auto
  consider "pr_bufIdx r \<ge> pr_maxLen r" | "pr_bufIdx r < pr_maxLen r" "int (length (pr_buf r)) \<le> pr_bufIdx r"
    | "pr_bufIdx r < pr_maxLen r" "pr_bufIdx r < int (length (pr_buf r))" by linarith
  then show "pre_ok rest ok r' \<and> length bs \<le> k \<and> pre_rest rest r = bs @ pre_rest rest r'"
  proof cases
    case 1
    then show ?thesis
      using ok rd u read_delivers [of "pr_reader r" k s cs e]
      by (auto simp: preReader_Read_def pre_ok_def pre_rest_def)
  next
    case 2
    then show ?thesis using ok rd by (auto simp: preReader_Read_def pre_ok_def pre_rest_def)
  next
    case 3
    obtain i where i: "pr_bufIdx r = int i"
      using ok 3 by (metis nonneg_int_cases pre_ok_def)
    let ?b = "drop i (pr_buf r)"
    have bs: "bs = take k ?b" and r': "r' = r\<lparr>pr_bufIdx := int (i + length bs)\<rparr>"
      using rd 3 i by (auto simp: preReader_Read_def Let_def)
    have "drop (i + length bs) (pr_buf r) = drop k ?b"
      using bs by (simp add: min_def add.commute)
    then have b: "?b = bs @ drop (i + length bs) (pr_buf r)"
      using bs append_take_drop_id [of k ?b] by metis
    have "drop (i + length bs) (pr_buf r) = []" if "pr_maxLen r \<le> int (i + length bs)"
      using that ok 3 by (auto simp: pre_ok_def)
    then have "drop (i + length bs) (pr_buf r) @ rest (pr_reader r) = pre_rest rest r'"
      using r' by (simp add: pre_rest_def nat_add_distrib)
    moreover have "pre_rest rest r = ?b @ rest (pr_reader r)" using 3 i by (simp add: pre_rest_def)
    ultimately have "pre_rest rest r = bs @ pre_rest rest r'" using b by (metis append_assoc)
    moreover have "pre_ok rest ok r'" using ok 3 r' by (simp add: pre_ok_def)
    ultimately show ?thesis using bs by simp
  qed
next
  fix r k r' bs
  assume "pre_ok rest ok r" "preReader_Read read r k = (r', bs, Some EOF)"
  then show "pre_rest rest r' = []"
    using read_eof [of "pr_reader r" k]
    by (auto simp: preReader_Read_def pre_ok_def pre_rest_def Let_def split: if_splits prod.splits)
next
  fix r k r' err
  assume "pre_ok rest ok r" "0 < k" "preReader_Read read r k = (r', [], err)"
  then show "err \<noteq> None"
    using read_progress [of "pr_reader r" k]
    by (auto simp: preReader_Read_def pre_ok_def Let_def split: if_splits prod.splits)
qed

text \<open>What any reader delivers over a sequence of reads is a prefix of its stream.\<close>

lemma read_seq_prefix:
  "ok s \<Longrightarrow> read_seq read s ks = (s', bs) \<Longrightarrow> ok s' \<and> rest s = bs @ rest s'"
proof (induction ks arbitrary: s bs)
  case (Cons k ks)
  obtain s1 b1 e1 where r: "read s k = (s1, b1, e1)" by (cases "read s k")
  obtain bs' where "read_seq read s1 ks = (s', bs')" "bs = b1 @ bs'"
    using Cons.prems(2) r by (auto split: prod.splits)
  then show ?case using Cons.IH [of s1 bs'] read_delivers [OF Cons.prems(1) r] by auto
qed simp

end

interpretation bytes_reader: io_reader Buffer_Read id "\<lambda>_. True"
  by unfold_locales (auto simp: Buffer_Read_def split: if_splits)

interpretation bytes_pre_reader: io_reader "preReader_Read Buffer_Read" "pre_rest id" "pre_ok id (\<lambda>_. True)"
  by (rule bytes_reader.pre_reader)

section \<open>Properties\<close>

lemma LimitWriter_fields:
  assumes "set opts \<subseteq> {LimitWriterIgnoreError}"
  shows "W (LimitWriter w n opts) = w" "N (LimitWriter w n opts) = n"
proof -
  have "W (foldl (\<lambda>lw opt. opt lw) lw opts) = W lw \<and> N (foldl (\<lambda>lw opt. opt lw) lw opts) = N lw" for lw
    using assms by (induction opts arbitrary: lw) (auto simp: LimitWriterIgnoreError_def)
  then show "W (LimitWriter w n opts) = w" "N (LimitWriter w n opts) = n"
    by (simp_all add: LimitWriter_def)
qed

text \<open>
  a \<open>LimitedWriter\<close> over any writer that keeps the contract of \<open>io.Writer\<close> never lets more
  than \<open>N\<close> bytes through, whatever sequence of writes it is given and whatever errors come back, and
  its counter \<open>N\<close> is always exactly the limit less the bytes that reached the writer.
\<close>

theorem limited_writer_bound:
  assumes "io_writer wr content" "0 \<le> n"
    "write_seq (LimitedWriter_Write wr) (LimitWriter w n opts) ps = (l', rs)"
    "set opts \<subseteq> {LimitWriterIgnoreError}"
  shows "\<exists>q. content (W l') = content w @ q \<and> int (length q) \<le> n \<and> N l' = n - int (length q)"
  using io_writer.limited_seq [OF assms(1) assms(3)] assms(2,4)
  by (auto simp: LimitWriter_fields)

theorem limited_writer_bound_witness:
  "\<exists>q. id (W (fst (write_seq (LimitedWriter_Write Buffer_Write) (LimitWriter [9] 2 []) [[1], [2, 3]])))
       = id [9] @ q \<and> int (length q) \<le> 2 \<and>
       N (fst (write_seq (LimitedWriter_Write Buffer_Write) (LimitWriter [9] 2 []) [[1], [2, 3]]))
       = 2 - int (length q)"
  by (rule limited_writer_bound [OF bytes_writer.io_writer_axioms, where opts = "[]" and ps = "[[1], [2, 3]]"
      and rs = "snd (write_seq (LimitedWriter_Write Buffer_Write) (LimitWriter [9] 2 []) [[1], [2, 3]])"])
    simp_all

text \<open>
  over a writer that never fails, such as \<open>bytes.Buffer\<close>, exactly the first \<open>n\<close> bytes of
  everything written arrive, also when errors are ignored.
\<close>

theorem limited_writer_truncates:
  assumes "full_writer wr content" "0 \<le> n"
    "write_seq (LimitedWriter_Write wr) (LimitWriter w n opts) ps = (l', rs)"
    "set opts \<subseteq> {LimitWriterIgnoreError}"
  shows "content (W l') = content w @ take (nat n) (concat ps)"
  using full_writer.limited_full [OF assms(1) assms(3)] assms(2,4)
  by (auto simp: LimitWriter_fields)

theorem limited_writer_truncates_witness:
  "id (W (fst (write_seq (LimitedWriter_Write Buffer_Write) (LimitWriter [] 2 [LimitWriterIgnoreError]) [[1], [2, 3]])))
   = id [] @ take (nat 2) (concat [[1], [2, 3]])"
  by (rule limited_writer_truncates [OF bytes_writer.full_writer_axioms, where opts = "[LimitWriterIgnoreError]" and ps = "[[1], [2, 3]]"
      and rs = "snd (write_seq (LimitedWriter_Write Buffer_Write) (LimitWriter [] 2 [LimitWriterIgnoreError]) [[1], [2, 3]])"])
    simp_all

text \<open>
  the write that crosses the limit is cut short and reports no error, which the contract of
  \<open>io.Writer\<close> forbids: a \<open>LimitedWriter\<close> is not itself an \<open>io_writer\<close>.
\<close>

theorem limited_writer_short_write:
  "snd (LimitedWriter_Write Buffer_Write (LimitWriter [] 1 []) [7, 8]) = (1, None) \<and>
   \<not> io_writer (LimitedWriter_Write Buffer_Write) (\<lambda>l. content (W l))"
proof
  let ?wr = "LimitedWriter_Write Buffer_Write" and ?l = "LimitWriter [] 1 []"
  show short: "snd (?wr ?l [7, 8]) = (1, None)"
    by (simp add: LimitedWriter_Write_def LimitWriter_def Buffer_Write_def Let_def)
  show "\<not> io_writer ?wr (\<lambda>l. content (W l))"
  proof
    assume io: "io_writer ?wr (\<lambda>l. content (W l))"
    have "?wr ?l [7, 8] = (fst (?wr ?l [7, 8]), 1, None)" using short by (metis prod.collapse)
    from io_writer.short_is_error [OF io this] show False by simp
  qed
qed



end
