(* ===== verification/Slices.thy ===== *)
theory Slices
  imports GoPrelude
begin

text \<open>
  The generic helpers of package \<open>w\<close>: \<open>src/wrapper/slice.go\<close>, \<open>src/wrapper/func.go\<close> and
  \<open>src/wrapper/map.go\<close>. A slice is a list where the code cannot tell nil from empty, and a list
  option where it can (\<open>OneOrMore\<close>, whose JSON form differs). A loop with an early return is a
  recursive function; the order in which a map is visited and \<open>sort.Sort\<close> are arguments, as in the
  prelude. The encoders of \<open>OneOrMore\<close> call \<open>encoding/json\<close> and \<open>yaml.v3\<close>, which are arguments.
\<close>

section \<open>slice.go: searching and selecting\<close>

primrec Filter_loop :: "'a list \<Rightarrow> ('a \<Rightarrow> bool) \<Rightarrow> 'a list \<Rightarrow> 'a list" where
  "Filter_loop [] f newSli = newSli"
| "Filter_loop (item # old) f newSli =
     Filter_loop old f (if f item then newSli @ [item] else newSli)"

definition Filter :: "'a list \<Rightarrow> ('a \<Rightarrow> bool) \<Rightarrow> 'a list" where
  "Filter old f = Filter_loop old f []"

primrec Map_loop :: "'a list \<Rightarrow> ('a \<Rightarrow> 'b) \<Rightarrow> nat \<Rightarrow> 'b list \<Rightarrow> 'b list" where
  "Map_loop [] f idx newSli = newSli"
| "Map_loop (item # old) f idx newSli = Map_loop old f (Suc idx) (newSli[idx := f item])"

definition Map :: "'b \<Rightarrow> 'a list \<Rightarrow> ('a \<Rightarrow> 'b) \<Rightarrow> 'b list" where
  "Map zero old f = Map_loop old f 0 (replicate (length old) zero)"

primrec Has :: "'a list \<Rightarrow> 'a \<Rightarrow> ('a \<Rightarrow> 'a \<Rightarrow> bool) \<Rightarrow> bool" where
  "Has [] t compare = False"
| "Has (val # s) t compare = (if compare val t then True else Has s t compare)"

primrec Include :: "'a list \<Rightarrow> 'a \<Rightarrow> bool" where
  "Include [] t = False"
| "Include (val # s) t = (if val = t then True else Include s t)"

primrec FindIndex_loop :: "nat \<Rightarrow> 'a list \<Rightarrow> 'a \<Rightarrow> ('a \<Rightarrow> 'a \<Rightarrow> bool) \<Rightarrow> int" where
  "FindIndex_loop idx [] t compare = -1"
| "FindIndex_loop idx (val # s) t compare =
     (if compare val t then int idx else FindIndex_loop (Suc idx) s t compare)"

definition FindIndex :: "'a list \<Rightarrow> 'a \<Rightarrow> ('a \<Rightarrow> 'a \<Rightarrow> bool) \<Rightarrow> int" where
  "FindIndex s t compare = FindIndex_loop 0 s t compare"

primrec Find :: "'a \<Rightarrow> 'a list \<Rightarrow> ('a \<Rightarrow> bool) \<Rightarrow> 'a" where
  "Find zero [] f = zero"
| "Find zero (val # s) f = (if f val then val else Find zero s f)"

text \<open>\<open>PosRight\<close>, \<open>PosLeft\<close> and \<open>PosCenter\<close> are the constants 0, 1 and 2; other values are possible.\<close>

definition PosRight :: int where "PosRight = 0"
definition PosLeft :: int where "PosLeft = 1"
definition PosCenter :: int where "PosCenter = 2"

definition Limit :: "'a list \<Rightarrow> int \<Rightarrow> int \<Rightarrow> 'a list \<Rightarrow> 'a list go" where
  "Limit s limit0 hidePosition manySuffix =
     (let limit = limit0 - int (length manySuffix)
      in if int (length s) > limit then
           if limit + int (length manySuffix) < 0 then Panic ''makeslice: cap out of range''
           else if hidePosition = PosRight then
             go_bind (slice s 0 limit) (\<lambda>a. Ret (a @ manySuffix))
           else if hidePosition = PosLeft then
             go_bind (slice s (int (length s) - limit) (int (length s))) (\<lambda>b. Ret (manySuffix @ b))
           else if hidePosition = PosCenter then
             go_bind (slice s 0 (go_div limit 2)) (\<lambda>a.
               go_bind (slice s (int (length s) - (limit - go_div limit 2)) (int (length s))) (\<lambda>b.
                 Ret (a @ manySuffix @ b)))
           else Ret s
         else Ret s)"

text \<open>A lookup in a map of slices gives nil, the empty slice, for a missing key.\<close>

definition map_get :: "('k, 'v list) gomap \<Rightarrow> 'k \<Rightarrow> 'v list" where
  "map_get m k = (case map_of m k of None \<Rightarrow> [] | Some vs \<Rightarrow> vs)"

primrec GroupBy_loop :: "('t \<Rightarrow> 'k \<times> 'v) \<Rightarrow> 't list \<Rightarrow> ('k, 'v list) gomap \<Rightarrow> ('k, 'v list) gomap" where
  "GroupBy_loop f [] grp = grp"
| "GroupBy_loop f (item # old) grp =
     (case f item of (key, value) \<Rightarrow>
        GroupBy_loop f old (AList.update key (map_get grp key @ [value]) grp))"

definition GroupBy :: "'t list \<Rightarrow> ('t \<Rightarrow> 'k \<times> 'v) \<Rightarrow> ('k, 'v list) gomap" where
  "GroupBy old f = GroupBy_loop f old []"

section \<open>func.go\<close>

text \<open>\<open>panic(err)\<close> with an error value panics with that error.\<close>

definition M :: "'a \<Rightarrow> gerror option \<Rightarrow> 'a go" where
  "M v err = (case err of Some e \<Rightarrow> Panic e | None \<Rightarrow> Ret v)"

definition E :: "'a \<Rightarrow> gerror option \<Rightarrow> gerror option" where
  "E v err = err"

primrec DefaultPointer :: "'a option list \<Rightarrow> 'a option" where
  "DefaultPointer [] = None"
| "DefaultPointer (val # vals) = (if val \<noteq> None then val else DefaultPointer vals)"

primrec DefaultString :: "string list \<Rightarrow> string" where
  "DefaultString [] = []"
| "DefaultString (val # vals) = (if length val \<noteq> 0 then val else DefaultString vals)"

primrec DefaultNumber :: "'a::zero list \<Rightarrow> 'a" where
  "DefaultNumber [] = 0"
| "DefaultNumber (val # vals) = (if val \<noteq> 0 then val else DefaultNumber vals)"

definition Pipe :: "'d \<Rightarrow> 's \<Rightarrow> gerror option \<Rightarrow> ('s \<Rightarrow> 'd \<times> gerror option) \<Rightarrow> 'd \<times> gerror option" where
  "Pipe zero v e f = (if e \<noteq> None then (zero, e) else f v)"

definition T :: "bool \<Rightarrow> 'a \<Rightarrow> 'a \<Rightarrow> 'a" where
  "T expr trueVal falseVal = (if expr then trueVal else falseVal)"

section \<open>map.go\<close>

primrec collect_items :: "(('k, 'v) gomap \<Rightarrow> ('k, 'v) gomap) \<Rightarrow> ('k, 'v) gomap list \<Rightarrow> ('k \<times> 'v) list \<Rightarrow> ('k \<times> 'v) list" where
  "collect_items iter [] m = m"
| "collect_items iter (kvMap # kvs) m = collect_items iter kvs (m @ iter kvMap)"

definition NewSortedMap ::
    "(('k, 'v) gomap \<Rightarrow> ('k, 'v) gomap) \<Rightarrow> (('k \<times> 'v) list \<Rightarrow> ('k \<times> 'v) list) \<Rightarrow>
     ('k, 'v) gomap list \<Rightarrow> ('k \<times> 'v) list" where
  "NewSortedMap iter srt kvs = srt (collect_items iter kvs [])"

primrec assign_all :: "('k \<times> 'v) list \<Rightarrow> ('k, 'v) gomap \<Rightarrow> ('k, 'v) gomap" where
  "assign_all [] merged = merged"
| "assign_all (kv # kvs) merged = assign_all kvs (AList.update (fst kv) (snd kv) merged)"

primrec Merge_loop :: "(('k, 'v) gomap \<Rightarrow> ('k, 'v) gomap) \<Rightarrow> ('k, 'v) gomap list \<Rightarrow> ('k, 'v) gomap \<Rightarrow> ('k, 'v) gomap" where
  "Merge_loop iter [] merged = merged"
| "Merge_loop iter (m # maps) merged = Merge_loop iter maps (assign_all (iter m) merged)"

definition Merge :: "(('k, 'v) gomap \<Rightarrow> ('k, 'v) gomap) \<Rightarrow> ('k, 'v) gomap list \<Rightarrow> ('k, 'v) gomap" where
  "Merge iter maps = Merge_loop iter maps []"

section \<open>slice.go: OneOrMore\<close>

text \<open>The codec of the element type: \<open>json.Marshal\<close> and \<open>json.Unmarshal\<close> at \<open>T\<close> and at \<open>[]T\<close>.\<close>

record 'a json_codec =
  marshal_elem :: "'a \<Rightarrow> gerror + string"
  marshal_slice :: "'a list option \<Rightarrow> gerror + string"
  unmarshal_elem :: "string \<Rightarrow> gerror + 'a"
  unmarshal_slice :: "string \<Rightarrow> gerror + 'a list option"

definition len_slice :: "'a list option \<Rightarrow> nat" where
  "len_slice s = (case s of None \<Rightarrow> 0 | Some xs \<Rightarrow> length xs)"

definition OneOrMore_MarshalJSON :: "'a json_codec \<Rightarrow> 'a list option \<Rightarrow> gerror + string" where
  "OneOrMore_MarshalJSON J s = (if len_slice s = 1 then marshal_elem J (the s ! 0) else marshal_slice J s)"

text \<open>The type switch always takes its first case: \<open>single\<close> has the static type \<open>T\<close>.\<close>

definition OneOrMore_UnmarshalJSON ::
    "'a json_codec \<Rightarrow> 'a list option \<Rightarrow> string \<Rightarrow> 'a list option \<times> gerror option" where
  "OneOrMore_UnmarshalJSON J s data =
     (let first = (if length data > 1 then data ! 0 else CHR 0x00)
      in if first = CHR ''['' then
           (case unmarshal_slice J data of Inl err \<Rightarrow> (s, Some err) | Inr parsed \<Rightarrow> (parsed, None))
         else
           (case unmarshal_elem J data of Inl err \<Rightarrow> (s, Some err) | Inr single \<Rightarrow> (Some [single], None)))"

text \<open>
  A YAML node as far as \<open>UnmarshalYAML\<close> looks at it. Decoding an alias into the same receiver calls
  \<open>UnmarshalYAML\<close> again on the node the alias stands for.
\<close>

datatype 'n yaml_node = SequenceNode 'n | ScalarNode 'n | AliasNode "'n yaml_node" | OtherNode string

primrec OneOrMore_UnmarshalYAML ::
    "('n \<Rightarrow> gerror + 'a list option) \<Rightarrow> ('n \<Rightarrow> gerror + 'a) \<Rightarrow> 'a list option \<Rightarrow> 'n yaml_node \<Rightarrow>
     'a list option \<times> gerror option" where
  "OneOrMore_UnmarshalYAML decode_slice decode_elem s (SequenceNode n) =
     (case decode_slice n of Inl err \<Rightarrow> (s, Some err) | Inr xs \<Rightarrow> (xs, None))"
| "OneOrMore_UnmarshalYAML decode_slice decode_elem s (ScalarNode n) =
     (case decode_elem n of Inl err \<Rightarrow> (s, Some err) | Inr c \<Rightarrow> (Some [c], None))"
| "OneOrMore_UnmarshalYAML decode_slice decode_elem s (AliasNode a) =
     OneOrMore_UnmarshalYAML decode_slice decode_elem s a"
| "OneOrMore_UnmarshalYAML decode_slice decode_elem s (OtherNode tag) =
     (s, Some (''unknown value type: '' @ tag))"

definition OneOrMore_MarshalYAML :: "'a list option \<Rightarrow> 'a + 'a list option" where
  "OneOrMore_MarshalYAML s = (if len_slice s = 1 then Inl (the s ! 0) else Inr s)"

text \<open>
  \<open>Contains\<close>: \<open>equal_method\<close> is the method \<open>Equal\<close> of the type if it has one, \<open>refl_equal\<close> the
  comparison by reflection.
\<close>

primrec OneOrMore_Contains ::
    "('a \<Rightarrow> 'a \<Rightarrow> bool) option \<Rightarrow> ('a \<Rightarrow> 'a \<Rightarrow> bool) \<Rightarrow> 'a list \<Rightarrow> 'a \<Rightarrow> bool" where
  "OneOrMore_Contains equal_method refl_equal [] value = False"
| "OneOrMore_Contains equal_method refl_equal (item # s) value =
     (case equal_method of
        Some equal \<Rightarrow> equal value item
      | None \<Rightarrow> if refl_equal item value then True
                else OneOrMore_Contains equal_method refl_equal s value)"

section \<open>Lemmas\<close>

lemma Filter_loop_eq: "Filter_loop old f acc = acc @ filter f old"
  by (induction old arbitrary: acc) auto

lemma Filter_eq [simp]: "Filter old f = filter f old"
  by (simp add: Filter_def Filter_loop_eq)

lemma Map_loop_eq:
  "idx + length old = length acc \<Longrightarrow> Map_loop old f idx acc = take idx acc @ map f old"
  by (induction old arbitrary: idx acc) (auto simp: take_Suc_conv_app_nth)

lemma Map_eq [simp]: "Map zero old f = map f old"
  by (simp add: Map_def Map_loop_eq)

lemma Has_iff: "Has s t compare \<longleftrightarrow> (\<exists>x\<in>set s. compare x t)"
  by (induction s) auto

lemma Include_iff: "Include s t \<longleftrightarrow> t \<in> set s"
  by (induction s) auto

lemma FindIndex_loop_eq:
  "FindIndex_loop idx s t compare =
     (if Has s t compare then int (idx + length (takeWhile (\<lambda>x. \<not> compare x t) s)) else -1)"
  by (induction s arbitrary: idx) auto

lemma assign_all_map_of: "map_of (assign_all kvs m) = map_of m ++ map_of (rev kvs)"
  by (induction kvs arbitrary: m) (auto simp: update_conv' map_add_def fun_eq_iff split: option.splits)

lemma gomap_ok_assign_all [go_inv]: "gomap_ok m \<Longrightarrow> gomap_ok (assign_all kvs m)"
  by (induction kvs arbitrary: m) (auto simp: gomap_ok_def distinct_update)

lemma map_of_range_order:
  "range_order iter \<Longrightarrow> gomap_ok m \<Longrightarrow> map_of (rev (iter m)) = map_of m"
  using range_order_distinct [of iter m]
  by (subst map_of_inject_set) (simp_all add: gomap_ok_def rev_map [symmetric])

lemma Merge_loop_map_of:
  "range_order iter \<Longrightarrow> (\<And>m. m \<in> set maps \<Longrightarrow> gomap_ok m) \<Longrightarrow>
   map_of (Merge_loop iter maps merged) = foldl (++) (map_of merged) (map map_of maps)"
  by (induction maps arbitrary: merged) (auto simp: assign_all_map_of map_of_range_order)

lemma map_get_update [simp]: "map_get (AList.update k' vs m) k = (if k = k' then vs else map_get m k)"
  by (simp add: map_get_def update_conv')

lemma GroupBy_loop_lookup:
  "map_get (GroupBy_loop f old g) k = map_get g k @ map (snd \<circ> f) (filter (\<lambda>x. fst (f x) = k) old)"
  by (induction old arbitrary: g) (auto split: prod.splits)

lemma GroupBy_loop_keys:
  "gomap_ok g \<Longrightarrow> gomap_ok (GroupBy_loop f old g) \<and>
   fst ` set (GroupBy_loop f old g) = fst ` set g \<union> (fst \<circ> f) ` set old"
  by (induction old arbitrary: g) (auto simp: gomap_ok_def distinct_update dom_update split: prod.splits)

section \<open>Properties\<close>

text \<open>
  searching a slice. \<open>FindIndex\<close> is -1 exactly when \<open>Has\<close> is false, and otherwise the index of
  the first element that the comparison accepts; \<open>Include\<close> is membership; \<open>Find\<close> returns the first
  accepted element, which \<open>Filter\<close> keeps at its head, or the zero value.
\<close>

theorem slice_search:
  "(FindIndex s t cmp = -1 \<longleftrightarrow> \<not> Has s t cmp) \<and>
   (case FindIndex s t cmp of i \<Rightarrow>
      0 \<le> i \<longrightarrow> nat i < length s \<and> cmp (s ! nat i) t \<and> (\<forall>j < nat i. \<not> cmp (s ! j) t)) \<and>
   (Include s t \<longleftrightarrow> t \<in> set s) \<and>
   Find zero s f = (case Filter s f of [] \<Rightarrow> zero | x # _ \<Rightarrow> x)"
proof (intro conjI)
  show "FindIndex s t cmp = -1 \<longleftrightarrow> \<not> Has s t cmp" by (simp add: FindIndex_def FindIndex_loop_eq)
  show "case FindIndex s t cmp of i \<Rightarrow>
      0 \<le> i \<longrightarrow> nat i < length s \<and> cmp (s ! nat i) t \<and> (\<forall>j < nat i. \<not> cmp (s ! j) t)"
  proof (cases "Has s t cmp")
    case True
    let ?n = "length (takeWhile (\<lambda>x. \<not> cmp x t) s)"
    have "?n < length s" using True by (induction s) auto
    moreover have "cmp (s ! ?n) t" using nth_length_takeWhile [OF calculation] by simp
    moreover have "\<not> cmp (s ! j) t" if "j < ?n" for j
      using that nth_mem [OF that] by (auto simp: takeWhile_nth dest: set_takeWhileD)
    ultimately show ?thesis using True by (auto simp: FindIndex_def FindIndex_loop_eq)
  qed (simp add: FindIndex_def FindIndex_loop_eq)
  show "Include s t \<longleftrightarrow> t \<in> set s" by (rule Include_iff)
  show "Find zero s f = (case Filter s f of [] \<Rightarrow> zero | x # _ \<Rightarrow> x)" by (induction s) auto
qed

theorem slice_search_witness:
  "nat (FindIndex [4, 7, 9 :: int] 6 (\<lambda>a b. a > b)) < length [4, 7, 9 :: int]"
  using slice_search [of "[4, 7, 9 :: int]" 6 "\<lambda>a b. a > b" 0 "\<lambda>_. True"]
  by (simp add: FindIndex_def)

text \<open>
  \<open>Limit\<close> with room for its suffix. A slice of more than \<open>limit - len(suffix)\<close> elements is
  replaced by one of exactly \<open>limit\<close> elements: the suffix at the end, at the front or in the middle,
  and the rest taken from the ends of the slice; a shorter one is returned as it is.
\<close>

theorem slice_limit:
  assumes "int (length suf) \<le> limit" "pos \<in> {PosRight, PosLeft, PosCenter}"
  shows "\<exists>r. Limit s limit pos suf = Ret r \<and>
    (if int (length s) \<le> limit - int (length suf) then r = s
     else int (length r) = limit \<and>
       (\<exists>a b. r = (if pos = PosRight then a @ b @ suf else if pos = PosLeft then suf @ a @ b else a @ suf @ b) \<and>
          prefix a s \<and> suffix b s \<and> int (length (a @ b)) = limit - int (length suf) \<and>
          (pos = PosRight \<longrightarrow> b = []) \<and> (pos = PosLeft \<longrightarrow> a = [])))"
proof -
  define n where "n = nat (limit - int (length suf))"
  have lim: "limit = int (length suf) + int n" using assms(1) by (simp add: n_def)
  show ?thesis
  proof (cases "length s \<le> n")
    case True
    then show ?thesis by (simp add: Limit_def lim)
  next
    case False
    consider "pos = PosRight" | "pos = PosLeft" | "pos = PosCenter" using assms(2) by blast
    then show ?thesis
    proof cases
      case 1
      then have "Limit s limit pos suf = Ret (take n s @ suf)" using False
        by (simp add: Limit_def lim slice_def PosRight_def)
      then show ?thesis using False 1 lim
        by (auto intro!: exI [of _ "take n s"] exI [of _ "[]"] simp: take_is_prefix PosRight_def PosLeft_def)
    next
      case 2
      then have "Limit s limit pos suf = Ret (suf @ drop (length s - n) s)" using False
        by (simp add: Limit_def lim slice_def PosRight_def PosLeft_def of_nat_diff nat_diff_distrib)
      then show ?thesis using False 2 lim
        by (auto intro!: exI [of _ "[]"] exI [of _ "drop (length s - n) s"]
            simp: suffix_drop PosRight_def PosLeft_def)
    next
      case 3
      obtain h m where hm: "n = h + m" "n div 2 = h" by (metis add_diff_inverse_nat div_le_dividend not_le)
      then have gd: "go_div (int h + int m) 2 = int h" by (simp flip: of_nat_add add: zdiv_int [symmetric])
      have "Limit s limit pos suf = Ret (take h s @ suf @ drop (length s - m) s)" using False 3
        by (simp add: Limit_def lim hm(1) slice_def PosRight_def PosLeft_def PosCenter_def gd nat_diff_distrib)
      moreover obtain a b where ab: "a = take h s" "b = drop (length s - m) s" by blast
      ultimately have "Limit s limit pos suf = Ret (a @ suf @ b)" "prefix a s" "suffix b s"
        by (simp_all add: take_is_prefix suffix_drop)
      moreover have "length a + length b = n" using False ab hm(1) by simp
      ultimately show ?thesis using False 3 lim
        by (intro exI [of _ "a @ suf @ b"] conjI)
           (simp_all, intro exI [of _ a] exI [of _ b], simp add: PosRight_def PosLeft_def PosCenter_def)
    qed
  qed
qed

theorem slice_limit_witness:
  "\<exists>r. Limit ''abcdef'' 4 PosCenter ''..'' = Ret r \<and> int (length r) = 4"
  using slice_limit [of "''..''" 4 PosCenter "''abcdef''"] by auto

text \<open>
  two corners of \<open>Limit\<close>. A slice that already has exactly \<open>limit\<close> elements is still cut as soon
  as there is a suffix, and a limit smaller than the suffix panics instead of shortening.
\<close>

theorem slice_limit_corners:
  assumes "length s = limit" "suf \<noteq> []" "length suf \<le> limit"
  shows "(\<exists>r. Limit s (int limit) PosRight suf = Ret r \<and> r = take (limit - length suf) s @ suf) \<and>
    (\<exists>msg. Limit s (int (length suf) - 1) PosRight suf = Panic msg)"
  using assms by (auto simp: Limit_def slice_def PosRight_def nat_diff_distrib)

theorem slice_limit_corners_witness:
  "(\<exists>r. Limit ''abc'' (int 3) PosRight ''.'' = Ret r \<and> r = take (3 - length ''.'') ''abc'' @ ''.'') \<and>
   (\<exists>msg. Limit ''abc'' (int (length ''.'') - 1) PosRight ''.'' = Panic msg)"
  by (rule slice_limit_corners) simp_all

text \<open>
  \<open>GroupBy\<close> keeps every item: the group of a key is the values of the items with that key, in
  their order, and the keys are exactly those that occur.
\<close>

theorem group_by_groups:
  "map_get (GroupBy old f) k = map (snd \<circ> f) (filter (\<lambda>x. fst (f x) = k) old) \<and>
   gomap_ok (GroupBy old f) \<and> fst ` set (GroupBy old f) = (fst \<circ> f) ` set old"
  using GroupBy_loop_lookup [of f old "[]" k] GroupBy_loop_keys [of "[]" f old]
  by (simp add: GroupBy_def map_get_def gomap_ok_def)

text \<open>
  \<open>Merge\<close> is the same map whatever order \<open>range\<close> visits its arguments in: a key has the value
  of the last map that has it.
\<close>

theorem merge_last_wins:
  assumes "range_order iter" "\<And>m. m \<in> set maps \<Longrightarrow> gomap_ok m"
  shows "map_of (Merge iter maps) = foldl (++) Map.empty (map map_of maps)"
  by (simp only: Merge_def Merge_loop_map_of [OF assms] map_of.simps)

theorem merge_last_wins_witness:
  "map_of (Merge rev [[(1 :: int, ''a''), (2, ''b'')], [(2, ''c'')]]) =
   foldl (++) Map.empty (map map_of [[(1, ''a''), (2, ''b'')], [(2, ''c'')]])"
  by (rule merge_last_wins) (auto simp: gomap_ok_def)

lemma collect_items_mset:
  "range_order iter \<Longrightarrow> mset (collect_items iter kvs m) = mset m + (\<Sum>kv\<leftarrow>kvs. mset kv)"
  by (induction kvs arbitrary: m) (auto simp: range_order_def)

text \<open>
  \<open>NewSortedMap\<close> holds every entry of every map, a key that occurs in several maps several
  times, in ascending order of the keys.
\<close>

theorem sorted_map_entries:
  assumes "range_order iter" "sort_spec fst srt"
  shows "sorted (map fst (NewSortedMap iter srt kvs)) \<and>
    mset (NewSortedMap iter srt kvs) = (\<Sum>kv\<leftarrow>kvs. mset kv)"
  using assms(2) collect_items_mset [OF assms(1), of kvs "[]"] by (simp add: NewSortedMap_def sort_spec_def)

theorem sorted_map_entries_witness:
  "sorted (map fst (NewSortedMap rev (sort_key fst) [[(2 :: int, ''b''), (1, ''a'')], [(2, ''c'')]])) \<and>
   mset (NewSortedMap rev (sort_key fst) [[(2 :: int, ''b''), (1, ''a'')], [(2, ''c'')]]) =
   (\<Sum>kv\<leftarrow>[[(2, ''b''), (1, ''a'')], [(2, ''c'')]]. mset kv)"
  by (rule sorted_map_entries) simp_all

definition json_laws :: "'a json_codec \<Rightarrow> bool" where
  "json_laws J \<longleftrightarrow>
     (\<forall>x d. marshal_elem J x = Inr d \<longrightarrow>
        unmarshal_elem J d = Inr x \<and> (length d > 1 \<longrightarrow> d ! 0 \<noteq> CHR ''['')) \<and>
     (\<forall>xs d. marshal_slice J (Some xs) = Inr d \<longrightarrow>
        unmarshal_slice J d = Inr (Some xs) \<and> length d > 1 \<and> d ! 0 = CHR ''['')"

text \<open>
  the JSON form of \<open>OneOrMore\<close> is read back, for every slice but nil, if the codec of the element
  type reads back what it writes, arrays start with a bracket and are longer than it, and elements do not.
\<close>

theorem one_or_more_json_round_trip:
  assumes "json_laws J" "OneOrMore_MarshalJSON J (Some xs) = Inr d"
  shows "OneOrMore_UnmarshalJSON J s d = (Some xs, None)"
proof (cases "length xs = 1")
  case True
  then obtain x where "xs = [x]" by (cases xs) auto
  then show ?thesis using assms
    by (auto simp: json_laws_def OneOrMore_MarshalJSON_def OneOrMore_UnmarshalJSON_def len_slice_def Let_def)
next
  case False
  then show ?thesis using assms
    by (simp add: json_laws_def OneOrMore_MarshalJSON_def OneOrMore_UnmarshalJSON_def len_slice_def Let_def)
qed

text \<open>A codec for boolean elements, 0 and 1, without separators.\<close>

definition bool_codec :: "bool json_codec" where
  "bool_codec = \<lparr>
     marshal_elem = (\<lambda>b. Inr [if b then CHR ''1'' else CHR ''0'']),
     marshal_slice = (\<lambda>s. case s of None \<Rightarrow> Inr ''null''
        | Some xs \<Rightarrow> Inr (''['' @ map (\<lambda>b. if b then CHR ''1'' else CHR ''0'') xs @ '']'')),
     unmarshal_elem = (\<lambda>d. Inr (d = ''1'')),
     unmarshal_slice = (\<lambda>d. Inr (Some (map (\<lambda>c. c = CHR ''1'') (take (length d - 2) (drop 1 d)))))\<rparr>"

lemma bool_codec_laws: "json_laws bool_codec"
proof -
  have "map ((\<lambda>c. c = CHR ''1'') \<circ> (\<lambda>b. if b then CHR ''1'' else CHR ''0'')) xs = xs" for xs
    by (induction xs) auto
  then show ?thesis by (auto simp: json_laws_def bool_codec_def)
qed

theorem one_or_more_json_round_trip_witness:
  "OneOrMore_UnmarshalJSON bool_codec None ''[10]'' = (Some [True, False], None)"
  by (rule one_or_more_json_round_trip [OF bool_codec_laws])
     (simp add: OneOrMore_MarshalJSON_def len_slice_def bool_codec_def)

lemma one_or_more_nil:
  assumes "marshal_slice J None = Inr ''null''" "unmarshal_elem J ''null'' = Inr zero"
  shows "OneOrMore_MarshalJSON J None = Inr ''null'' \<and>
    OneOrMore_UnmarshalJSON J None ''null'' = (Some [zero], None)"
  using assms by (simp add: OneOrMore_MarshalJSON_def OneOrMore_UnmarshalJSON_def len_slice_def)

text \<open>
  \<open>Contains\<close> by reflection is membership, but for an element type with an \<open>Equal\<close> method only the
  first element is ever compared, so later elements are not found.
\<close>

theorem one_or_more_contains:
  "(OneOrMore_Contains None (=) s v \<longleftrightarrow> v \<in> set s) \<and>
   (OneOrMore_Contains (Some (=)) eq s v \<longleftrightarrow> s \<noteq> [] \<and> hd s = v) \<and>
   \<not> OneOrMore_Contains (Some (=)) eq [''a'', ''b''] ''b''"
proof (intro conjI)
  show "OneOrMore_Contains None (=) s v \<longleftrightarrow> v \<in> set s" by (induction s) auto
  show "OneOrMore_Contains (Some (=)) eq s v \<longleftrightarrow> s \<noteq> [] \<and> hd s = v" by (cases s) auto
qed simp

section \<open>The remaining helpers\<close>

definition Index :: "'a list \<Rightarrow> 'a \<Rightarrow> int" where
  "Index s t = FindIndex s t (\<lambda>a b. a = b)"

text \<open>\<open>Interfaces\<close> boxes every element; \<open>box\<close> is the conversion to the empty interface.\<close>

primrec Interfaces :: "('a \<Rightarrow> 'i) \<Rightarrow> 'a list \<Rightarrow> 'i list" where
  "Interfaces box [] = []"
| "Interfaces box (x # xs) = box x # Interfaces box xs"

definition SortedMap_Len :: "('k \<times> 'v) list \<Rightarrow> int" where
  "SortedMap_Len s = int (length s)"

definition SortedMap_Less :: "('k :: linorder \<times> 'v) list \<Rightarrow> int \<Rightarrow> int \<Rightarrow> bool go" where
  "SortedMap_Less s i j =
     (if 0 \<le> i \<and> i < int (length s) \<and> 0 \<le> j \<and> j < int (length s)
      then Ret (fst (s ! nat i) < fst (s ! nat j)) else Panic out_of_range)"

definition SortedMap_Swap :: "('k \<times> 'v) list \<Rightarrow> int \<Rightarrow> int \<Rightarrow> ('k \<times> 'v) list go" where
  "SortedMap_Swap s i j =
     (if 0 \<le> i \<and> i < int (length s) \<and> 0 \<le> j \<and> j < int (length s)
      then Ret (s[nat i := s ! nat j, nat j := s ! nat i]) else Panic out_of_range)"

text \<open>What \<open>sort.Sort\<close> relies on: swapping permutes the entries and, done twice, does nothing.\<close>

lemma swap_permutes:
  assumes "SortedMap_Swap s i j = Ret s'"
  shows "mset s' = mset s" "SortedMap_Swap s' i j = Ret s"
proof -
  have b: "nat i < length s" "nat j < length s" "0 \<le> i" "0 \<le> j"
      "i < int (length s)" "j < int (length s)"
    and s': "s' = s[nat i := s ! nat j, nat j := s ! nat i]"
    using assms by (auto simp: SortedMap_Swap_def split: if_splits)
  show "mset s' = mset s" unfolding s' using b by (simp add: mset_swap)
  have "s'[nat i := s' ! nat j, nat j := s' ! nat i] = s"
    unfolding s' using b by (intro nth_equalityI) (simp_all add: nth_list_update)
  then show "SortedMap_Swap s' i j = Ret s" using b s' by (simp add: SortedMap_Swap_def)
qed

end
