(* ===== verification/Errors.thy ===== *)
theory Errors
  imports GoPrelude Slices
begin

text \<open>
  Package \<open>errors\<close> (\<open>src/errors/errors.go\<close>). An error value is a tree: what \<open>Unwrap\<close> returns are its
  children. The package compares errors by pointer, so every allocated value carries the address
  \<open>ptr\<close> it was allocated at, an argument of the functions that allocate one. \<open>Foreign\<close> and
  \<open>ForeignError\<close> are error values of other packages, the second kind implementing the interface
  \<open>Error\<close>. The package \<open>github.com/pkg/errors\<close> is an argument whose documented behaviour is the
  locale \<open>pkg_errors\<close>; \<open>Is\<close> and \<open>As\<close> are those of the standard library, a search of the tree in
  pre-order.
\<close>

section \<open>Error values\<close>

datatype err =
    ErrorWrapper (ptr: nat) (code: string) (status: int) (inner: "err option")
  | NotFoundErr (ptr: nat) (name: string)
  | ErrorsValue (ptr: nat) (errs: "err list") (code: string) (status: int) (pfx: string)
  | Foreign (ptr: nat) (ftext: string) (children: "err list")
  | ForeignError (ptr: nat) (ftext: string) (code: string) (status: int) (children: "err list")

text \<open>\<open>Error()\<close>; the method of an \<open>errorWrapper\<close> without an inner error dereferences nil.\<close>

fun Error_text :: "err \<Rightarrow> string go" and Error_texts :: "err list \<Rightarrow> string list go" where
  "Error_text (ErrorWrapper p c s None) = Panic nil_deref"
| "Error_text (ErrorWrapper p c s (Some e)) = Error_text e"
| "Error_text (NotFoundErr p n) = Ret (''record not found: '' @ n)"
| "Error_text (ErrorsValue p es c s pf) =
     (case es of
        [] \<Rightarrow> Ret []
      | [e] \<Rightarrow> Error_text e
      | _ \<Rightarrow> go_bind (Error_texts es) (\<lambda>ts. Ret (pf @ Join ts '','')))"
| "Error_text (Foreign p t es) = Ret t"
| "Error_text (ForeignError p t c s es) = Ret t"
| "Error_texts [] = Ret []"
| "Error_texts (e # es) = go_bind (Error_text e) (\<lambda>t. go_bind (Error_texts es) (\<lambda>ts. Ret (t # ts)))"

text \<open>The tree in pre-order. The collector \<open>Errors\<close> has no \<open>Unwrap\<close> method.\<close>

fun err_chain :: "err \<Rightarrow> err list" where
  "err_chain (ErrorWrapper p c s i) = ErrorWrapper p c s i # (case i of None \<Rightarrow> [] | Some e \<Rightarrow> err_chain e)"
| "err_chain (NotFoundErr p n) = [NotFoundErr p n]"
| "err_chain (ErrorsValue p es c s pf) = [ErrorsValue p es c s pf]"
| "err_chain (Foreign p t es) = Foreign p t es # concat (map err_chain es)"
| "err_chain (ForeignError p t c s es) = ForeignError p t c s es # concat (map err_chain es)"

definition tree :: "err option \<Rightarrow> err list" where
  "tree e = (case e of None \<Rightarrow> [] | Some e \<Rightarrow> err_chain e)"

section \<open>Is, As and Unwrap\<close>

fun same_kind :: "err \<Rightarrow> err \<Rightarrow> bool" where
  "same_kind (ErrorWrapper _ _ _ _) (ErrorWrapper _ _ _ _) = True"
| "same_kind (NotFoundErr _ _) (NotFoundErr _ _) = True"
| "same_kind (ErrorsValue _ _ _ _ _) (ErrorsValue _ _ _ _ _) = True"
| "same_kind (Foreign _ _ _) (Foreign _ _ _) = True"
| "same_kind (ForeignError _ _ _ _ _) (ForeignError _ _ _ _ _) = True"
| "same_kind _ _ = False"

text \<open>Equality of two interface values that hold pointers.\<close>

definition same_error :: "err \<Rightarrow> err \<Rightarrow> bool" where
  "same_error a b \<longleftrightarrow> same_kind a b \<and> ptr a = ptr b"

definition Is :: "err option \<Rightarrow> err \<Rightarrow> bool" where
  "Is e target \<longleftrightarrow> list_ex (\<lambda>x. same_error x target) (tree e)"

fun is_wrapper :: "err \<Rightarrow> bool" where
  "is_wrapper (ErrorWrapper _ _ _ _) = True"
| "is_wrapper _ = False"

fun is_notfound :: "err \<Rightarrow> bool" where
  "is_notfound (NotFoundErr _ _) = True"
| "is_notfound _ = False"

text \<open>The interface \<open>Error\<close>: a code and a status besides the text.\<close>

fun implements_Error :: "err \<Rightarrow> bool" where
  "implements_Error (ErrorWrapper _ _ _ _) = True"
| "implements_Error (ErrorsValue _ _ _ _ _) = True"
| "implements_Error (ForeignError _ _ _ _ _) = True"
| "implements_Error _ = False"

definition As :: "err option \<Rightarrow> (err \<Rightarrow> bool) \<Rightarrow> err option" where
  "As e matches = List.find matches (tree e)"

fun Unwrap :: "err \<Rightarrow> err option" where
  "Unwrap (ErrorWrapper _ _ _ i) = i"
| "Unwrap (Foreign _ _ [e]) = Some e"
| "Unwrap (ForeignError _ _ _ _ [e]) = Some e"
| "Unwrap _ = None"

section \<open>Constructors\<close>

definition code_or_status :: "int \<Rightarrow> string list \<Rightarrow> string" where
  "code_or_status st cd = (if length cd = 0 then Itoa st else cd ! 0)"

definition NewError :: "(string \<Rightarrow> err) \<Rightarrow> nat \<Rightarrow> int \<Rightarrow> string \<Rightarrow> string list \<Rightarrow> err" where
  "NewError pkg_New p st msg cd = ErrorWrapper p (code_or_status st cd) st (Some (pkg_New msg))"

definition New :: "(string \<Rightarrow> err) \<Rightarrow> nat \<Rightarrow> string \<Rightarrow> err" where
  "New pkg_New p msg = NewError pkg_New p 500 msg []"

definition With :: "(err option \<Rightarrow> string \<Rightarrow> err option) \<Rightarrow> nat \<Rightarrow> int \<Rightarrow> err option \<Rightarrow> string \<Rightarrow> string list \<Rightarrow> err" where
  "With pkg_WithMessage p st e msg cd =
     ErrorWrapper p (code_or_status st cd) st (if msg \<noteq> [] then pkg_WithMessage e msg else e)"

definition NewNotFoundError :: "nat \<Rightarrow> string \<Rightarrow> err" where
  "NewNotFoundError p n = NotFoundErr p n"

definition WithMessage ::
    "(err option \<Rightarrow> string \<Rightarrow> err option) \<Rightarrow> err \<Rightarrow> nat \<Rightarrow> err option \<Rightarrow> string \<Rightarrow> err option" where
  "WithMessage pkg_WithMessage ErrRecordNotFound p e msg =
     (case As e is_wrapper of
        Some ew \<Rightarrow> Some (ErrorWrapper p (code ew) (status ew) (pkg_WithMessage (inner ew) msg))
      | None \<Rightarrow>
          (case As e implements_Error of
             Some x \<Rightarrow> Some (ErrorWrapper p (code x) (status x) (pkg_WithMessage e msg))
           | None \<Rightarrow>
               if Is e ErrRecordNotFound
               then Some (ErrorWrapper p ''404'' 404 (pkg_WithMessage e msg))
               else pkg_WithMessage e msg))"

section \<open>IsNotFount\<close>

lemma err_chain_size: "x \<in> set (err_chain e) \<Longrightarrow> size x \<le> size e"
proof (induction e rule: err_chain.induct)
  case (1 p c s i)
  then show ?case by (cases i) auto
next
  case (4 p t es)
  then show ?case by (auto intro: le_SucI size_list_estimation')
next
  case (5 p t c s es)
  then show ?case by (auto intro: le_SucI size_list_estimation' trans_le_add2)
qed auto

lemma As_size: "As e is_wrapper = Some (ErrorWrapper p c s i) \<Longrightarrow> size_option size i < size_option size e"
proof -
  assume a: "As e is_wrapper = Some (ErrorWrapper p c s i)"
  obtain x where x: "e = Some x" using a by (cases e) (auto simp: As_def tree_def)
  have "ErrorWrapper p c s i \<in> set (err_chain x)"
    using a x by (auto simp: As_def tree_def find_Some_iff)
  then have "size (ErrorWrapper p c s i) \<le> size x" by (rule err_chain_size)
  then show ?thesis using x by simp
qed

function IsNotFount :: "err \<Rightarrow> err \<Rightarrow> err option \<Rightarrow> bool" where
  "IsNotFount NotFoundError ErrRecordNotFound e =
     (if Is e NotFoundError \<or> Is e ErrRecordNotFound then True
      else if As e is_notfound \<noteq> None then True
      else case As e is_wrapper of
        Some (ErrorWrapper _ _ st i) \<Rightarrow>
          if st = 404 then True else IsNotFount NotFoundError ErrRecordNotFound i
      | _ \<Rightarrow> False)"
  by pat_completeness auto

termination
  by (relation "measure (\<lambda>(_, _, e). size_option size e)") (auto simp: As_size)

declare IsNotFount.simps [simp del]

section \<open>The collector Errors\<close>

text \<open>The receiver is a pointer to a record; \<open>as_error\<close> is that pointer as an error value.\<close>

record Errors =
  m_errs :: "err list"
  m_code :: string
  m_status :: int
  m_prefix :: string

definition NewErrors :: "int \<Rightarrow> string \<Rightarrow> string list \<Rightarrow> Errors" where
  "NewErrors st pf cd = \<lparr>m_errs = [], m_code = code_or_status st cd, m_status = st, m_prefix = pf\<rparr>"

definition as_error :: "nat \<Rightarrow> Errors \<Rightarrow> err" where
  "as_error p m = ErrorsValue p (m_errs m) (m_code m) (m_status m) (m_prefix m)"

definition Errors_Code :: "Errors \<Rightarrow> string" where
  "Errors_Code m = m_code m"

definition Errors_StatusCode :: "Errors \<Rightarrow> int" where
  "Errors_StatusCode m = m_status m"

definition Errors_Error :: "Errors \<Rightarrow> string go" where
  "Errors_Error m =
     (if length (m_errs m) > 0 then
        if length (m_errs m) = 1 then Error_text (m_errs m ! 0)
        else go_bind (Error_texts (m_errs m)) (\<lambda>ts. Ret (m_prefix m @ Join ts '',''))
      else Ret [])"

text \<open>A stored error is never nil (\<open>Append\<close> is the only way in), so the filter keeps all of them.\<close>

definition Errors_HasError :: "Errors \<Rightarrow> bool" where
  "Errors_HasError m \<longleftrightarrow> length (Filter (map Some (m_errs m)) (\<lambda>e. e \<noteq> None)) > 0"

definition Errors_Append :: "Errors \<Rightarrow> err option \<Rightarrow> Errors" where
  "Errors_Append m e = (case e of None \<Rightarrow> m | Some e \<Rightarrow> m\<lparr>m_errs := m_errs m @ [e]\<rparr>)"

section \<open>Not found markers and chains without joins\<close>

text \<open>The errors that stand for a missing record, wherever they are in a tree.\<close>

definition marker :: "err \<Rightarrow> err \<Rightarrow> err \<Rightarrow> bool" where
  "marker nf rnf x \<longleftrightarrow> same_error x nf \<or> same_error x rnf \<or> is_notfound x \<or> is_wrapper x \<and> status x = 404"

text \<open>A chain in which every error unwraps to at most one other, so without \<open>errors.Join\<close>.\<close>

fun linear :: "err \<Rightarrow> bool" where
  "linear (ErrorWrapper p c s i) = (case i of None \<Rightarrow> True | Some e \<Rightarrow> linear e)"
| "linear (NotFoundErr p n) = True"
| "linear (ErrorsValue p es c s pf) = True"
| "linear (Foreign p t es) = (length es \<le> 1 \<and> list_all linear es)"
| "linear (ForeignError p t c s es) = (length es \<le> 1 \<and> list_all linear es)"

definition linear_opt :: "err option \<Rightarrow> bool" where
  "linear_opt e = (case e of None \<Rightarrow> True | Some e \<Rightarrow> linear e)"

section \<open>The contract of pkg/errors\<close>

text \<open>
  \<open>errors.New\<close> returns a new leaf with the given text; \<open>errors.WithMessage\<close> returns nil for nil, and
  otherwise an error that unwraps to its argument and whose text is the message, a colon and a blank,
  and the text of the argument.
\<close>

definition pkg_text :: "string \<Rightarrow> err \<Rightarrow> string" where
  "pkg_text m e = m @ '': '' @ (case Error_text e of Ret t \<Rightarrow> t | Panic _ \<Rightarrow> [])"

locale pkg_errors =
  fixes pkg_New :: "string \<Rightarrow> err" and pkg_WithMessage :: "err option \<Rightarrow> string \<Rightarrow> err option"
    and ErrRecordNotFound :: err
  assumes new_leaf: "\<exists>p. pkg_New m = Foreign p m []"
  and with_nil: "pkg_WithMessage None m = None"
  and with_some: "\<exists>p. p \<noteq> ptr ErrRecordNotFound \<and> pkg_WithMessage (Some e) m = Some (Foreign p (pkg_text m e) [e])"
  and sentinel: "\<exists>p t. ErrRecordNotFound = Foreign p t []"
begin

lemma wrapped_tree:
  "e \<noteq> None \<Longrightarrow> \<exists>p t es. p \<noteq> ptr ErrRecordNotFound \<and> tree (pkg_WithMessage e m) = Foreign p t es # tree e"
  using with_some [of "the e" m] by (cases e) (auto simp: tree_def)

lemma wrapped_linear: "linear_opt e \<Longrightarrow> linear_opt (pkg_WithMessage e m)"
  using with_nil [of m] with_some [of "the e" m] by (cases e) (auto simp: linear_opt_def)

text \<open>The node that \<open>WithMessage\<close> of pkg/errors puts in front is no sign of a missing record.\<close>

lemma wrapped_markers:
  assumes "is_wrapper nf"
  shows "(\<exists>x\<in>set (tree (pkg_WithMessage e m)). marker nf ErrRecordNotFound x) \<longleftrightarrow>
    (\<exists>x\<in>set (tree e). marker nf ErrRecordNotFound x)"
proof (cases "e = None")
  case False
  then obtain p t es where "p \<noteq> ptr ErrRecordNotFound" "tree (pkg_WithMessage e m) = Foreign p t es # tree e"
    using wrapped_tree by blast
  moreover have "\<not> marker nf ErrRecordNotFound (Foreign p t es)" if "p \<noteq> ptr ErrRecordNotFound"
    using that assms sentinel by (cases nf) (auto simp: marker_def same_error_def)
  ultimately show ?thesis by simp
qed (simp add: with_nil)

end

section \<open>Linear chains\<close>

lemma find_wrapper_split:
  "linear e \<Longrightarrow> List.find is_wrapper (err_chain e) = Some w \<Longrightarrow>
   \<exists>pre. err_chain e = pre @ err_chain w \<and> (\<forall>x\<in>set pre. \<not> is_wrapper x \<and> Unwrap x \<noteq> None) \<and> linear w"
proof (induction e rule: err_chain.induct)
  case (4 p t es)
  then show ?case by (cases es) (auto intro: exI [of _ "Foreign p t es # _"] simp: Bex_def)
next
  case (5 p t c s es)
  then show ?case by (cases es) (auto intro: exI [of _ "ForeignError p t c s es # _"])
qed (auto split: if_splits)

lemma As_wrapper_split:
  assumes "linear_opt e" "As e is_wrapper = Some w"
  shows "\<exists>pre p c st i. w = ErrorWrapper p c st i \<and> tree e = pre @ w # tree i \<and>
    (\<forall>x\<in>set pre. \<not> is_wrapper x \<and> Unwrap x \<noteq> None) \<and> linear_opt i"
proof -
  obtain x where x: "e = Some x" using assms(2) by (cases e) (auto simp: As_def tree_def)
  obtain pre where pre: "err_chain x = pre @ err_chain w" "\<forall>x\<in>set pre. \<not> is_wrapper x \<and> Unwrap x \<noteq> None" "linear w"
    using find_wrapper_split [of x w] assms x by (auto simp: As_def tree_def linear_opt_def)
  have "is_wrapper w" using assms(2) by (auto simp: As_def find_Some_iff)
  then obtain p c st i where "w = ErrorWrapper p c st i" by (cases w) auto
  then show ?thesis using x pre by (auto simp: tree_def linear_opt_def)
qed

lemma markers_found:
  "Is e nf \<or> Is e rnf \<or> As e is_notfound \<noteq> None \<longleftrightarrow>
   (\<exists>x\<in>set (tree e). same_error x nf \<or> same_error x rnf \<or> is_notfound x)"
  unfolding Is_def As_def by (auto simp: list_ex_iff find_None_iff)

lemma IsNotFount_iff:
  "linear_opt e \<Longrightarrow> IsNotFount nf rnf e \<longleftrightarrow> (\<exists>x\<in>set (tree e). marker nf rnf x)"
proof (induction nf rnf e rule: IsNotFount.induct)
  case (1 nf rnf e)
  show ?case
  proof (cases "Is e nf \<or> Is e rnf \<or> As e is_notfound \<noteq> None")
    case True
    then have "IsNotFount nf rnf e" by (auto simp: IsNotFount.simps)
    moreover have "\<exists>x\<in>set (tree e). marker nf rnf x"
      using True unfolding markers_found by (auto simp: marker_def)
    ultimately show ?thesis by simp
  next
    case early: False
    then have no: "\<not> same_error x nf \<and> \<not> same_error x rnf \<and> \<not> is_notfound x" if "x \<in> set (tree e)" for x
      unfolding markers_found using that by blast
    show ?thesis
    proof (cases "As e is_wrapper")
      case None
      then have "\<not> is_wrapper x" if "x \<in> set (tree e)" for x
        using that by (auto simp: As_def find_None_iff)
      then show ?thesis using no early None by (subst IsNotFount.simps) (auto simp: marker_def)
    next
      case (Some w)
      obtain pre p c st i where w: "w = ErrorWrapper p c st i" "tree e = pre @ w # tree i"
        "\<forall>x\<in>set pre. \<not> is_wrapper x \<and> Unwrap x \<noteq> None" "linear_opt i"
        using As_wrapper_split [OF 1(2) Some] by blast
      have "IsNotFount nf rnf e \<longleftrightarrow> st = 404 \<or> IsNotFount nf rnf i"
        using early Some w(1) by (subst IsNotFount.simps) auto
      moreover have "IsNotFount nf rnf i \<longleftrightarrow> (\<exists>x\<in>set (tree i). marker nf rnf x)" if "st \<noteq> 404"
        using 1(1) [of w p c st i] early Some w that by auto
      moreover have "(\<exists>x\<in>set (tree e). marker nf rnf x) \<longleftrightarrow> st = 404 \<or> (\<exists>x\<in>set (tree i). marker nf rnf x)"
        using no w by (auto simp: marker_def)
      ultimately show ?thesis by blast
    qed
  qed
qed

text \<open>The implementation of pkg/errors as it is documented, with its values at address 1.\<close>

definition documented_New :: "string \<Rightarrow> err" where
  "documented_New m = Foreign 1 m []"

definition documented_WithMessage :: "err option \<Rightarrow> string \<Rightarrow> err option" where
  "documented_WithMessage e m = (case e of None \<Rightarrow> None | Some x \<Rightarrow> Some (Foreign 1 (pkg_text m x) [x]))"

definition gorm_sentinel :: err where
  "gorm_sentinel = Foreign 2 ''record not found'' []"

interpretation documented: pkg_errors documented_New documented_WithMessage gorm_sentinel
  by unfold_locales (auto simp: documented_New_def documented_WithMessage_def gorm_sentinel_def)

definition NotFoundError :: err where
  "NotFoundError = NewError documented_New 0 404 ''record not found'' []"

section \<open>Properties\<close>



text \<open>One address holds one value: the sentinels occur in a chain only as themselves.\<close>

definition sentinels_unique :: "err \<Rightarrow> err \<Rightarrow> err option \<Rightarrow> bool" where
  "sentinels_unique nf rnf e \<longleftrightarrow>
     list_all (\<lambda>x. (same_error x nf \<longrightarrow> x = nf) \<and> (same_error x rnf \<longrightarrow> x = rnf)) (tree e)"

lemma marker_new_wrapper:
  assumes "is_wrapper nf" "p \<noteq> ptr nf" "\<exists>p t. rnf = Foreign p t []"
  shows "marker nf rnf (ErrorWrapper p c st i) \<longleftrightarrow> st = 404"
  using assms by (cases nf) (auto simp: marker_def same_error_def)

lemma found_in_new_wrapper:
  assumes "pkg_errors pkg_New wm rnf" "is_wrapper nf" "p \<noteq> ptr nf" "linear_opt i"
  shows "IsNotFount nf rnf (Some (ErrorWrapper p c st (wm i msg))) \<longleftrightarrow>
    st = 404 \<or> (\<exists>x\<in>set (tree i). marker nf rnf x)"
proof -
  have "linear_opt (Some (ErrorWrapper p c st (wm i msg)))"
    using pkg_errors.wrapped_linear [OF assms(1,4), of msg] by (simp add: linear_opt_def)
  then have "IsNotFount nf rnf (Some (ErrorWrapper p c st (wm i msg))) \<longleftrightarrow>
      st = 404 \<or> (\<exists>x\<in>set (tree (wm i msg)). marker nf rnf x)"
    using marker_new_wrapper [OF assms(2,3) pkg_errors.sentinel [OF assms(1)]]
    by (subst IsNotFount_iff) (auto simp: tree_def split: option.splits)
  then show ?thesis by (simp only: pkg_errors.wrapped_markers [OF assms(1,2)])
qed

lemma markers_below_wrapper:
  assumes "\<exists>p t. rnf = Foreign p t []" "is_wrapper nf" "status nf = 404" "sentinels_unique nf rnf e"
    "tree e = pre @ ErrorWrapper q c st i # tree i" "\<forall>x\<in>set pre. \<not> is_wrapper x \<and> Unwrap x \<noteq> None"
  shows "(\<exists>x\<in>set (tree e). marker nf rnf x) \<longleftrightarrow> st = 404 \<or> (\<exists>x\<in>set (tree i). marker nf rnf x)"
proof -
  have "\<not> marker nf rnf x" if "x \<in> set pre" for x
  proof -
    have "\<not> is_wrapper x" "Unwrap x \<noteq> None" using assms(6) that by auto
    moreover have "same_error x nf \<longrightarrow> x = nf" "same_error x rnf \<longrightarrow> x = rnf"
      using assms(4,5) that by (auto simp: sentinels_unique_def list_all_iff)
    ultimately show ?thesis using assms(1,2) by (cases x) (auto simp: marker_def)
  qed
  moreover have "marker nf rnf (ErrorWrapper q c st i) \<longleftrightarrow> st = 404"
  proof -
    have "same_error (ErrorWrapper q c st i) nf \<Longrightarrow> ErrorWrapper q c st i = nf"
      using assms(4,5) by (auto simp: sentinels_unique_def)
    then have "same_error (ErrorWrapper q c st i) nf \<Longrightarrow> status (ErrorWrapper q c st i) = 404"
      using assms(3) by simp
    then show ?thesis using assms(1) by (auto simp: marker_def same_error_def)
  qed
  ultimately show ?thesis using assms(5) by auto
qed

text \<open>
  annotating an error does not change whether it is a not-found error, and an \<open>Error\<close> stays
  one: the code and the status of the first wrapper in the chain are kept.
\<close>

theorem with_message_keeps_not_found:
  assumes pkg: "pkg_errors pkg_New wm rnf" and lin: "linear_opt e"
    and nf: "is_wrapper nf" "status nf = 404" "p \<noteq> ptr nf" and uniq: "sentinels_unique nf rnf e"
    and foreign: "\<And>x. As e is_wrapper = None \<Longrightarrow> As e implements_Error = Some x \<Longrightarrow> status x \<noteq> 404"
  shows "(IsNotFount nf rnf (WithMessage wm rnf p e msg) \<longleftrightarrow> IsNotFount nf rnf e) \<and>
    (\<forall>ew. As e is_wrapper = Some ew \<longrightarrow>
       map_option (\<lambda>x. (code x, status x)) (As (WithMessage wm rnf p e msg) implements_Error)
       = Some (code ew, status ew))"
proof
  note new = found_in_new_wrapper [OF pkg nf(1,3)] and rnf = pkg_errors.sentinel [OF pkg]
  show "IsNotFount nf rnf (WithMessage wm rnf p e msg) \<longleftrightarrow> IsNotFount nf rnf e"
  proof (cases "As e is_wrapper")
    case (Some w)
    obtain pre q c st i where w: "w = ErrorWrapper q c st i" "tree e = pre @ ErrorWrapper q c st i # tree i"
        "\<forall>x\<in>set pre. \<not> is_wrapper x \<and> Unwrap x \<noteq> None" "linear_opt i"
      using As_wrapper_split [OF lin Some] by blast
    have "WithMessage wm rnf p e msg = Some (ErrorWrapper p c st (wm i msg))"
      using Some w(1) by (simp add: WithMessage_def)
    then show ?thesis
      using new [OF w(4)] markers_below_wrapper [OF rnf nf(1,2) uniq w(2,3)] IsNotFount_iff [OF lin] by simp
  next
    case None
    have keep: "IsNotFount nf rnf (wm e msg) \<longleftrightarrow> IsNotFount nf rnf e"
      using IsNotFount_iff [OF pkg_errors.wrapped_linear [OF pkg lin]] IsNotFount_iff [OF lin]
        pkg_errors.wrapped_markers [OF pkg nf(1)] by simp
    have "IsNotFount nf rnf e" if "Is e rnf" using that by (simp add: IsNotFount.simps)
    then show ?thesis
      using None foreign new [OF lin] IsNotFount_iff [OF lin] keep
      by (auto simp: WithMessage_def split: option.splits)
  qed
  show "\<forall>ew. As e is_wrapper = Some ew \<longrightarrow>
       map_option (\<lambda>x. (code x, status x)) (As (WithMessage wm rnf p e msg) implements_Error)
       = Some (code ew, status ew)"
    by (auto simp: WithMessage_def As_def tree_def)
qed

theorem with_message_keeps_not_found_witness:
  "IsNotFount NotFoundError gorm_sentinel
     (WithMessage documented_WithMessage gorm_sentinel 9 (Some (Foreign 5 ''q: gone'' [NotFoundErr 6 ''gone''])) ''m'')
   \<longleftrightarrow> IsNotFount NotFoundError gorm_sentinel (Some (Foreign 5 ''q: gone'' [NotFoundErr 6 ''gone'']))"
  by (rule conjunct1 [OF with_message_keeps_not_found [OF documented.pkg_errors_axioms]])
     (simp_all add: linear_opt_def tree_def As_def NotFoundError_def NewError_def sentinels_unique_def
       same_error_def gorm_sentinel_def documented_New_def)

text \<open>
  three ways in which the package loses information. Under a join only the first wrapper is
  looked at, so a 404 behind another wrapper is not found; \<open>WithMessage\<close> continues from the error
  inside the first wrapper and so drops the text of everything around it; and \<open>With\<close> on a nil
  error, even with a message, returns an error value whose \<open>Error\<close> method panics.
\<close>

theorem errors_lose_information:
  "(let j = Some (Foreign 3 ''a'' [ErrorWrapper 4 ''500'' 500 (Some (Foreign 5 ''a'' [])),
                                   ErrorWrapper 6 ''404'' 404 (Some (Foreign 7 ''b'' []))])
    in \<not> IsNotFount NotFoundError gorm_sentinel j \<and> list_ex (\<lambda>x. is_wrapper x \<and> status x = 404) (tree j)) \<and>
   Error_text (the (WithMessage documented_WithMessage gorm_sentinel 9
     (Some (Foreign 3 ''ctx: bad'' [ErrorWrapper 4 ''400'' 400 (Some (Foreign 5 ''bad'' []))])) ''m''))
     = Ret ''m: bad'' \<and>
   Error_text (With documented_WithMessage p st None msg cd) = Panic nil_deref"
proof (intro conjI)
  show "let j = Some (Foreign 3 ''a'' [ErrorWrapper 4 ''500'' 500 (Some (Foreign 5 ''a'' [])),
                                   ErrorWrapper 6 ''404'' 404 (Some (Foreign 7 ''b'' []))])
    in \<not> IsNotFount NotFoundError gorm_sentinel j \<and> list_ex (\<lambda>x. is_wrapper x \<and> status x = 404) (tree j)"
    by (simp add: Let_def IsNotFount.simps Is_def As_def tree_def same_error_def NotFoundError_def
        NewError_def gorm_sentinel_def)
  show "Error_text (the (WithMessage documented_WithMessage gorm_sentinel 9
     (Some (Foreign 3 ''ctx: bad'' [ErrorWrapper 4 ''400'' 400 (Some (Foreign 5 ''bad'' []))])) ''m''))
     = Ret ''m: bad''"
    by (simp add: WithMessage_def As_def tree_def documented_WithMessage_def pkg_text_def)
  show "Error_text (With documented_WithMessage p st None msg cd) = Panic nil_deref"
    by (simp add: With_def documented_WithMessage_def)
qed

lemma append_all:
  "m_errs (foldl Errors_Append m es) = m_errs m @ map the (filter (\<lambda>e. e \<noteq> None) es) \<and>
   m_code (foldl Errors_Append m es) = m_code m \<and> m_status (foldl Errors_Append m es) = m_status m \<and>
   m_prefix (foldl Errors_Append m es) = m_prefix m"
  by (induction es arbitrary: m) (auto simp: Errors_Append_def split: option.splits)

text \<open>
  the collector. After any sequence of \<open>Append\<close> calls it has an error exactly if one of the
  arguments was not nil, it holds those arguments in order, its code and status are those it was
  created with, and its text is the text of a single error or the prefix and all texts with commas.
\<close>

theorem errors_collector:
  "let m = foldl Errors_Append (NewErrors st pf []) es; xs = map the (filter (\<lambda>e. e \<noteq> None) es)
   in (Errors_HasError m \<longleftrightarrow> xs \<noteq> []) \<and> Errors_StatusCode m = st \<and> Errors_Code m = Itoa st \<and>
      Errors_Error m = Error_text (as_error p m) \<and>
      Errors_Error m = (case xs of [] \<Rightarrow> Ret [] | [e] \<Rightarrow> Error_text e
        | _ \<Rightarrow> go_bind (Error_texts xs) (\<lambda>ts. Ret (pf @ Join ts '','')))"
proof -
  define m where "m = foldl Errors_Append (NewErrors st pf []) es"
  define xs where "xs = map the (filter (\<lambda>e. e \<noteq> None) es)"
  have m: "m_errs m = xs" "m_code m = Itoa st" "m_status m = st" "m_prefix m = pf"
    using append_all [of "NewErrors st pf []" es]
    by (simp_all add: m_def xs_def NewErrors_def code_or_status_def)
  have "(Errors_HasError m \<longleftrightarrow> xs \<noteq> []) \<and> Errors_StatusCode m = st \<and> Errors_Code m = Itoa st \<and>
      Errors_Error m = Error_text (as_error p m) \<and>
      Errors_Error m = (case xs of [] \<Rightarrow> Ret [] | [e] \<Rightarrow> Error_text e
        | _ \<Rightarrow> go_bind (Error_texts xs) (\<lambda>ts. Ret (pf @ Join ts '','')))"
    using m by (auto simp: Errors_HasError_def Errors_StatusCode_def Errors_Code_def Errors_Error_def as_error_def
        filter_empty_conv split: list.splits)
  then show ?thesis unfolding Let_def m_def [symmetric] xs_def [symmetric] .
qed

section \<open>Methods of the wrapper\<close>

definition wrapper_String :: "err \<Rightarrow> string go" where
  "wrapper_String e = Error_text e"

definition wrapper_MarshalJSON :: "(string \<Rightarrow> string result) \<Rightarrow> err \<Rightarrow> string result go" where
  "wrapper_MarshalJSON json_Marshal e = go_bind (Error_text e) (\<lambda>t. Ret (json_Marshal t))"

definition wrapper_Code :: "err \<Rightarrow> string" where "wrapper_Code e = code e"
definition wrapper_StatusCode :: "err \<Rightarrow> int" where "wrapper_StatusCode e = status e"

text \<open>
  What \<open>Format\<close> writes for a verb, with or without the plus flag. \<open>formatter\<close> is the text of an error that is
  an \<open>fmt.Formatter\<close> itself, if it is one; \<open>go_quote\<close> the text of the verb \<open>q\<close>.
\<close>

definition wrapper_Format ::
    "(err \<Rightarrow> char \<Rightarrow> string option) \<Rightarrow> (string \<Rightarrow> string) \<Rightarrow> bool \<Rightarrow> char \<Rightarrow> err \<Rightarrow> string go" where
  "wrapper_Format formatter go_quote plusFlag verb e =
     (if verb = CHR ''v'' \<and> plusFlag then
        Ret (case inner e of None \<Rightarrow> [] | Some i \<Rightarrow> (case formatter i verb of None \<Rightarrow> [] | Some t \<Rightarrow> t))
      else if verb = CHR ''v'' \<or> verb = CHR ''s'' then Error_text e
      else if verb = CHR ''q'' then go_bind (Error_text e) (\<lambda>t. Ret (go_quote t))
      else Ret [])"

text \<open>With the plus flag an error whose inner error is not a formatter, as those of the standard library are not, is
  printed as nothing; without it, its text is printed.\<close>

lemma format_plus_empty:
  assumes "e = ErrorWrapper p c s (Some i)" "formatter i (CHR ''v'') = None" "Error_text i = Ret t"
  shows "wrapper_Format formatter q True (CHR ''v'') e = Ret []" "wrapper_Format formatter q False (CHR ''v'') e = Ret t"
  using assms by (simp_all add: wrapper_Format_def)

end
