(* ===== verification/Codec.thy ===== *)
theory Codec
  imports GoPrelude
begin

text \<open>
  The text encodings of bytes that package \<open>safe\<close> and its neighbours take from the standard library:
  \<open>encoding/hex\<close> and the unpadded standard alphabet of \<open>encoding/base64\<close>. The locale \<open>byte_codec\<close> is
  what a client needs of them (decoding inverts encoding, and a separator never occurs in an
  encoding), and both encodings are interpreted in it. At the end, \<open>src/safe/hash.go\<close>.
\<close>

section \<open>Bytes and strings\<close>

definition to_bytes :: "string \<Rightarrow> byte list" where
  "to_bytes s = map (\<lambda>c. of_nat (of_char c)) s"

definition to_str :: "byte list \<Rightarrow> string" where
  "to_str bs = map (\<lambda>b. char_of (unat b)) bs"

lemma to_str_to_bytes [simp]: "to_str (to_bytes s) = s"
  by (induction s) (simp_all add: to_str_def to_bytes_def unsigned_of_nat take_bit_nat_eq_self)

lemma to_bytes_to_str [simp]: "to_bytes (to_str bs) = bs"
proof (induction bs)
  case (Cons b bs)
  have "unat b < 256" using unsigned_less [of b] by simp
  then show ?case using Cons by (simp add: to_str_def to_bytes_def)
qed (simp add: to_str_def to_bytes_def)

lemma length_to_bytes [simp]: "length (to_bytes s) = length s"
  by (simp add: to_bytes_def)

section \<open>The interface\<close>

locale byte_codec =
  fixes enc :: "byte list \<Rightarrow> string" and dec :: "string \<Rightarrow> byte list option" and alphabet :: "char set"
  assumes dec_enc: "dec (enc bs) = Some bs"
  and enc_alphabet: "set (enc bs) \<subseteq> alphabet"
begin

lemma enc_injective: "enc a = enc b \<longleftrightarrow> a = b"
  by (metis dec_enc option.inject)

lemma cut_encoded: "sep \<notin> alphabet \<Longrightarrow> Cut (enc bs @ sep # rest) sep = (enc bs, rest, True)"
  using enc_alphabet [of bs] by (intro Cut_append) blast

end

section \<open>encoding/hex\<close>

definition hextable :: string where
  "hextable = ''0123456789abcdef''"

definition hex_EncodeToString :: "byte list \<Rightarrow> string" where
  "hex_EncodeToString src = concat (map (\<lambda>b. [hextable ! (unat b div 16), hextable ! (unat b mod 16)]) src)"

definition fromHexChar :: "char \<Rightarrow> nat option" where
  "fromHexChar c =
     (let n = (of_char c :: nat)
      in if 48 \<le> n \<and> n \<le> 57 then Some (n - 48)
         else if 97 \<le> n \<and> n \<le> 102 then Some (n - 97 + 10)
         else if 65 \<le> n \<and> n \<le> 70 then Some (n - 65 + 10)
         else None)"

fun hex_DecodeString :: "string \<Rightarrow> byte list option" where
  "hex_DecodeString [] = Some []"
| "hex_DecodeString [c] = None"
| "hex_DecodeString (c # d # cs) =
     (case (fromHexChar c, fromHexChar d, hex_DecodeString cs) of
        (Some a, Some b, Some bs) \<Rightarrow> Some (of_nat (16 * a + b) # bs)
      | _ \<Rightarrow> None)"

lemma fromHexChar_hextable: "n < 16 \<Longrightarrow> fromHexChar (hextable ! n) = Some n"
proof -
  have "list_all (\<lambda>n. fromHexChar (hextable ! n) = Some n) [0..<16]" by code_simp
  then show "n < 16 \<Longrightarrow> ?thesis" by (simp add: list_all_iff)
qed

interpretation hex: byte_codec hex_EncodeToString hex_DecodeString "set hextable"
proof
  fix bs :: "byte list"
  show "hex_DecodeString (hex_EncodeToString bs) = Some bs"
  proof (induction bs)
    case (Cons b bs)
    have "unat b < 256" using unsigned_less [of b] by simp
    then have "unat b div 16 < 16" "unat b mod 16 < 16" by simp_all
    moreover have "of_nat (16 * (unat b div 16) + unat b mod 16) = b"
      by (simp only: mult_div_mod_eq of_nat_unat ucast_id)
    ultimately show ?case using Cons
      by (simp add: hex_EncodeToString_def fromHexChar_hextable del: of_nat_add of_nat_mult)
  qed (simp add: hex_EncodeToString_def)
  show "set (hex_EncodeToString bs) \<subseteq> set hextable"
  proof -
    have "unat b div 16 < length hextable" "unat b mod 16 < length hextable" for b :: byte
      using unsigned_less [of b, where 'a = nat] by (simp_all add: hextable_def)
    then show ?thesis by (auto simp: hex_EncodeToString_def intro!: nth_mem)
  qed
qed

section \<open>encoding/base64 without padding\<close>

definition encodeStd :: string where
  "encodeStd = ''ABCDEFGHIJKLMNOPQRSTUVWXYZabcdefghijklmnopqrstuvwxyz0123456789+/''"

fun b64_groups :: "nat list \<Rightarrow> nat list" where
  "b64_groups [] = []"
| "b64_groups [a] = [a div 4, a mod 4 * 16]"
| "b64_groups [a, b] = [a div 4, a mod 4 * 16 + b div 16, b mod 16 * 4]"
| "b64_groups (a # b # c # bs) =
     (a div 4) # (a mod 4 * 16 + b div 16) # (b mod 16 * 4 + c div 64) # (c mod 64) # b64_groups bs"

definition b64_EncodeToString :: "byte list \<Rightarrow> string" where
  "b64_EncodeToString src = map (\<lambda>n. encodeStd ! n) (b64_groups (map unat src))"

definition fromB64Char :: "char \<Rightarrow> nat option" where
  "fromB64Char c =
     (let n = (of_char c :: nat)
      in if 65 \<le> n \<and> n \<le> 90 then Some (n - 65)
         else if 97 \<le> n \<and> n \<le> 122 then Some (n - 97 + 26)
         else if 48 \<le> n \<and> n \<le> 57 then Some (n - 48 + 52)
         else if n = 43 then Some 62 else if n = 47 then Some 63 else None)"

text \<open>The bits left over in a final group of two or three characters are not looked at.\<close>

fun b64_ungroup :: "nat list \<Rightarrow> nat list option" where
  "b64_ungroup [] = Some []"
| "b64_ungroup [w] = None"
| "b64_ungroup [w, x] = Some [w * 4 + x div 16]"
| "b64_ungroup [w, x, y] = Some [w * 4 + x div 16, x mod 16 * 16 + y div 4]"
| "b64_ungroup (w # x # y # z # cs) =
     map_option (\<lambda>bs. (w * 4 + x div 16) # (x mod 16 * 16 + y div 4) # (y mod 4 * 64 + z) # bs) (b64_ungroup cs)"

text \<open>\<open>DecodeString\<close> skips line breaks and fails on any other byte outside the alphabet.\<close>

definition b64_DecodeString :: "string \<Rightarrow> byte list option" where
  "b64_DecodeString s =
     (let cs = filter (\<lambda>c. c \<noteq> CHR 0x0A \<and> c \<noteq> CHR 0x0D) s
      in if list_all (\<lambda>c. fromB64Char c \<noteq> None) cs
         then map_option (map of_nat) (b64_ungroup (map (\<lambda>c. the (fromB64Char c)) cs))
         else None)"

lemma length_encodeStd: "length encodeStd = 64"
  by (simp add: encodeStd_def)

lemma fromB64Char_encodeStd: "n < 64 \<Longrightarrow> fromB64Char (encodeStd ! n) = Some n"
proof -
  assume n: "n < 64"
  have "map fromB64Char encodeStd = map Some [0..<64]"
    by (simp add: encodeStd_def fromB64Char_def upt_conv_Cons)
  then have "map fromB64Char encodeStd ! n = map Some [0..<64] ! n" by simp
  then show ?thesis using n by (simp add: length_encodeStd)
qed

text \<open>Two fields packed in one number: the low field is smaller than the base \<open>m\<close>.\<close>

lemma pack_fields: "v < m \<Longrightarrow> (u * m + v) div m = u \<and> (u * m + v) mod m = (v :: nat)"
  by simp

lemma field_bounds:
  fixes a b :: nat
  assumes "a < 256" "b < 256"
  shows "a div 4 < 64" "b div 16 < 16" "b div 64 < 4" "a mod 4 * 16 + b div 16 < 64"
    "a mod 16 * 4 + b div 64 < 64" "a mod 4 * 16 < 64" "a mod 16 * 4 < 64"
proof -
  show d: "a div 4 < 64" "b div 16 < 16" "b div 64 < 4" using assms by simp_all
  have "a mod 4 < 4" "a mod 16 < 16" by simp_all
  then show "a mod 4 * 16 + b div 16 < 64" "a mod 16 * 4 + b div 64 < 64" "a mod 4 * 16 < 64" "a mod 16 * 4 < 64"
    using d by linarith+
qed

lemma b64_groups_bound: "(\<And>a. a \<in> set bs \<Longrightarrow> a < 256) \<Longrightarrow> n \<in> set (b64_groups bs) \<Longrightarrow> n < 64"
proof (induction bs rule: b64_groups.induct)
  case (4 a b c bs)
  then have "a < 256" "b < 256" "c < 256" by auto
  then show ?case using 4 field_bounds [of a b] field_bounds [of b c] by auto
next
  case (3 a b)
  then have "a < 256" "b < 256" by auto
  then show ?case using 3 field_bounds [of a b] field_bounds [of b b] by auto
next
  case (2 a)
  then have "a < 256" by auto
  then show ?case using 2 field_bounds [of a a] by auto
qed simp

lemma b64_ungroup_groups: "(\<And>a. a \<in> set bs \<Longrightarrow> a < 256) \<Longrightarrow> b64_ungroup (b64_groups bs) = Some bs"
proof (induction bs rule: b64_groups.induct)
  case (4 a b c bs)
  then have "a < 256" "b < 256" "c < 256" by auto
  then have "b div 16 < 16" "c div 64 < 4" by (simp_all add: field_bounds)
  then show ?case using 4 pack_fields [of "b div 16" 16 "a mod 4"] pack_fields [of "c div 64" 4 "b mod 16"]
    by simp
next
  case (3 a b)
  then have "b < 256" by auto
  then have "b div 16 < 16" by simp
  then show ?case using pack_fields [of "b div 16" 16 "a mod 4"] by simp
qed simp_all

lemma b64_groups_length: "length bs \<le> length (b64_groups bs)"
  by (induction bs rule: b64_groups.induct) auto

lemma b64_length: "length bs \<le> length (b64_EncodeToString bs)"
  using b64_groups_length [of "map unat bs"] by (simp add: b64_EncodeToString_def)

interpretation b64: byte_codec b64_EncodeToString b64_DecodeString "set encodeStd"
proof
  fix bs :: "byte list"
  have lt: "a < 256" if "a \<in> set (map unat bs)" for a
    using that unsigned_less [where 'b = 8] by auto
  have n: "n < 64" if "n \<in> set (b64_groups (map unat bs))" for n
    using b64_groups_bound [OF lt that] by blast
  have c: "encodeStd ! n \<noteq> CHR 0x0A" "encodeStd ! n \<noteq> CHR 0x0D" if "n < 64" for n
    using fromB64Char_encodeStd [OF that] by (auto simp: fromB64Char_def)
  have "filter (\<lambda>c. c \<noteq> CHR 0x0A \<and> c \<noteq> CHR 0x0D) (b64_EncodeToString bs) = b64_EncodeToString bs"
    using n c by (auto simp: b64_EncodeToString_def intro: filter_True)
  moreover have "map (\<lambda>c. the (fromB64Char c)) (b64_EncodeToString bs) = b64_groups (map unat bs)"
    using n by (auto simp: b64_EncodeToString_def fromB64Char_encodeStd intro: map_idI)
  moreover have "list_all (\<lambda>c. fromB64Char c \<noteq> None) (b64_EncodeToString bs)"
    using n by (auto simp: b64_EncodeToString_def list_all_iff fromB64Char_encodeStd)
  moreover have "map of_nat (map unat bs) = bs" by (auto simp: comp_def intro: map_idI)
  moreover have "b64_ungroup (b64_groups (map unat bs)) = Some (map unat bs)"
    by (rule b64_ungroup_groups) (rule lt)
  ultimately show "b64_DecodeString (b64_EncodeToString bs) = Some bs"
    by (simp add: b64_DecodeString_def del: map_map)
  show "set (b64_EncodeToString bs) \<subseteq> set encodeStd"
    using n by (auto simp: b64_EncodeToString_def length_encodeStd intro!: nth_mem)
qed

section \<open>safe/hash.go\<close>

text \<open>A hash function maps the bytes written to it to the digest \<open>Sum\<close> returns.\<close>

definition NewHash :: "(byte list \<Rightarrow> byte list) \<Rightarrow> byte list \<Rightarrow> byte list" where
  "NewHash hashFunc data = hashFunc data"

definition HexString :: "byte list \<Rightarrow> int \<Rightarrow> string go" where
  "HexString h n =
     (let s = hex_EncodeToString h in if int (length s) > n then slice s 0 n else Ret s)"

end
