(* ===== verification/Safe.thy ===== *)
theory Safe
  imports GoPrelude Codec
begin

unbundle bit_operations_syntax

text \<open>
  Package \<open>safe\<close> (\<open>src/safe/encrypt.go\<close>, \<open>src/safe/string.go\<close>) and package \<open>crypto\<close>
  (\<open>src/crypto/aes.go\<close>). The block ciphers (DES, Triple DES, AES, TEA), SHA-256 and the source of
  random bytes are arguments, the fields of a \<open>crypto_lib\<close>; \<open>crypto_laws\<close> is what their
  documentation promises: which key lengths are accepted, the block size, that decryption
  inverts encryption of a block, and the lengths of digests and random reads. Cipher block chaining,
  the padding, the header of a ciphertext and its text form are modelled, and every slice, index
  and nil dereference that can fail is the panic it is in Go. Keys, plaintexts and ciphertext blocks
  are lists of bytes.
\<close>

section \<open>What the code takes from other packages\<close>

record cipher_block =
  BlockSize :: nat
  block_Encrypt :: "byte list \<Rightarrow> byte list"
  block_Decrypt :: "byte list \<Rightarrow> byte list"

datatype crypt_error = Msg string | CipherError string | RandError string | EOFError | HexError | Base64Error

record crypto_lib =
  des_NewCipher :: "byte list \<Rightarrow> crypt_error + cipher_block"
  des_NewTripleDESCipher :: "byte list \<Rightarrow> crypt_error + cipher_block"
  aes_NewCipher :: "byte list \<Rightarrow> crypt_error + cipher_block"
  tea_NewCipher :: "byte list \<Rightarrow> crypt_error + cipher_block"
  sha256 :: "byte list \<Rightarrow> byte list"
  rand_Read :: "nat \<Rightarrow> crypt_error + byte list"

text \<open>\<open>cipher.NewCBCEncrypter\<close>, \<open>cipher.NewCBCDecrypter\<close> and their \<open>CryptBlocks\<close>.\<close>

definition xor_bytes :: "byte list \<Rightarrow> byte list \<Rightarrow> byte list" where
  "xor_bytes a b = map2 (\<lambda>x y. x XOR y) a b"

function cbc_encrypt :: "nat \<Rightarrow> (byte list \<Rightarrow> byte list) \<Rightarrow> byte list \<Rightarrow> byte list \<Rightarrow> byte list" where
  "cbc_encrypt n f iv src =
     (if src = [] \<or> n = 0 then []
      else let c = f (xor_bytes (take n src) iv) in c @ cbc_encrypt n f c (drop n src))"
  by pat_completeness auto
termination
  by (relation "measure (\<lambda>(n, f, iv, src). length src)") (auto simp: neq_Nil_conv)

function cbc_decrypt :: "nat \<Rightarrow> (byte list \<Rightarrow> byte list) \<Rightarrow> byte list \<Rightarrow> byte list \<Rightarrow> byte list" where
  "cbc_decrypt n f iv src =
     (if src = [] \<or> n = 0 then []
      else xor_bytes (f (take n src)) iv @ cbc_decrypt n f (take n src) (drop n src))"
  by pat_completeness auto
termination
  by (relation "measure (\<lambda>(n, f, iv, src). length src)") (auto simp: neq_Nil_conv)

declare cbc_encrypt.simps [simp del] cbc_decrypt.simps [simp del]

type_synonym block_mode = "byte list \<Rightarrow> byte list go"

definition NewCBCEncrypter :: "cipher_block \<Rightarrow> byte list \<Rightarrow> block_mode go" where
  "NewCBCEncrypter b iv =
     (if length iv \<noteq> BlockSize b then Panic ''cipher.NewCBCEncrypter: IV length must equal block size''
      else Ret (\<lambda>src. if length src mod BlockSize b \<noteq> 0 then Panic ''crypto/cipher: input not full blocks''
                      else Ret (cbc_encrypt (BlockSize b) (block_Encrypt b) iv src)))"

definition NewCBCDecrypter :: "cipher_block \<Rightarrow> byte list \<Rightarrow> block_mode go" where
  "NewCBCDecrypter b iv =
     (if length iv \<noteq> BlockSize b then Panic ''cipher.NewCBCDecrypter: IV length must equal block size''
      else Ret (\<lambda>src. if length src mod BlockSize b \<noteq> 0 then Panic ''crypto/cipher: input not full blocks''
                      else Ret (cbc_decrypt (BlockSize b) (block_Decrypt b) iv src)))"

text \<open>\<open>binary.BigEndian\<close> at 32 bits.\<close>

definition PutUint32 :: "nat \<Rightarrow> byte list" where
  "PutUint32 n = [of_nat (n div 2 ^ 24), of_nat (n div 2 ^ 16), of_nat (n div 2 ^ 8), of_nat n]"

definition Uint32 :: "byte list \<Rightarrow> nat" where
  "Uint32 b = unat (b ! 0) * 2 ^ 24 + unat (b ! 1) * 2 ^ 16 + unat (b ! 2) * 2 ^ 8 + unat (b ! 3)"

section \<open>encrypt.go: options\<close>

text \<open>\<open>init\<close> stops the program for a key of an unusable length in the environment.\<close>

definition safe_init :: "string \<Rightarrow> int option" where
  "safe_init key = (if length key \<in> {0, 8, 16, 24, 32} then None else Some 1)"

record EncryptOptions =
  eo_algo :: byte
  eo_mode :: byte
  eo_padding :: byte
  eo_fixAlgo :: bool

definition Algorithm3DES :: byte where "Algorithm3DES = 0"
definition AlgorithmDES :: byte where "AlgorithmDES = 1"
definition AlgorithmAES :: byte where "AlgorithmAES = 2"
definition AlgorithmTEA :: byte where "AlgorithmTEA = 3"
definition BlockModeCBC :: byte where "BlockModeCBC = 0"
definition PKCS5Padding :: byte where "PKCS5Padding = 0"

lemmas algo_defs = Algorithm3DES_def AlgorithmDES_def AlgorithmAES_def AlgorithmTEA_def
  BlockModeCBC_def PKCS5Padding_def

definition NewEncryptOptions :: "(EncryptOptions \<Rightarrow> EncryptOptions) list \<Rightarrow> EncryptOptions" where
  "NewEncryptOptions ofs =
     foldl (\<lambda>opt f. f opt)
       \<lparr>eo_algo = Algorithm3DES, eo_mode = BlockModeCBC, eo_padding = PKCS5Padding, eo_fixAlgo = False\<rparr> ofs"

definition WithAlgorithm :: "byte \<Rightarrow> EncryptOptions \<Rightarrow> EncryptOptions" where
  "WithAlgorithm algo opt = opt\<lparr>eo_algo := algo\<rparr>"

definition WithMode :: "byte \<Rightarrow> EncryptOptions \<Rightarrow> EncryptOptions" where
  "WithMode mode opt = opt\<lparr>eo_mode := mode\<rparr>"

definition WithPadding :: "byte \<Rightarrow> EncryptOptions \<Rightarrow> EncryptOptions" where
  "WithPadding padding opt = opt\<lparr>eo_padding := padding\<rparr>"

definition WithFixAlgo :: "EncryptOptions \<Rightarrow> EncryptOptions" where
  "WithFixAlgo opt = opt\<lparr>eo_fixAlgo := True\<rparr>"

definition WithoutFixAlgo :: "EncryptOptions \<Rightarrow> EncryptOptions" where
  "WithoutFixAlgo opt = opt\<lparr>eo_fixAlgo := False\<rparr>"

definition fixAlgo :: "crypto_lib \<Rightarrow> byte list \<Rightarrow> EncryptOptions \<Rightarrow> byte list \<times> EncryptOptions" where
  "fixAlgo lib key opt =
     (if length key = 8 then
        (key, if eo_algo opt \<noteq> AlgorithmDES then opt\<lparr>eo_algo := AlgorithmDES\<rparr> else opt)
      else if length key = 16 then
        (key, if eo_algo opt \<noteq> AlgorithmAES \<and> eo_algo opt \<noteq> AlgorithmTEA
              then opt\<lparr>eo_algo := AlgorithmAES\<rparr> else opt)
      else if length key = 24 then
        (key, if eo_algo opt \<noteq> AlgorithmAES \<and> eo_algo opt \<noteq> Algorithm3DES
              then opt\<lparr>eo_algo := Algorithm3DES\<rparr> else opt)
      else if length key = 32 then
        (key, if eo_algo opt \<noteq> AlgorithmAES then opt\<lparr>eo_algo := AlgorithmAES\<rparr> else opt)
      else
        (NewHash (sha256 lib) key,
         if eo_algo opt \<noteq> AlgorithmAES then opt\<lparr>eo_algo := AlgorithmAES\<rparr> else opt))"

section \<open>encrypt.go: algorithms, modes and padding\<close>

definition upper_char :: "char \<Rightarrow> char" where
  "upper_char c = (let n = (of_char c :: nat) in if 97 \<le> n \<and> n \<le> 122 then char_of (n - 32) else c)"

definition algo_String :: "byte \<Rightarrow> string" where
  "algo_String algo = map upper_char (TrimPrefix (hex_EncodeToString [algo]) ''0'')"

text \<open>
  The verb \<open>%X\<close> applied to an algorithm, which has a \<open>String\<close> method, prints the bytes of that string in
  hexadecimal, not the number.
\<close>

definition NewCipher :: "crypto_lib \<Rightarrow> byte \<Rightarrow> byte list \<Rightarrow> crypt_error + cipher_block" where
  "NewCipher lib algo key =
     (if algo = AlgorithmDES then des_NewCipher lib key
      else if algo = Algorithm3DES then des_NewTripleDESCipher lib key
      else if algo = AlgorithmAES then aes_NewCipher lib key
      else if algo = AlgorithmTEA then tea_NewCipher lib key
      else Inl (Msg (''unknown encryption algorithm 0x'' @
             map upper_char (hex_EncodeToString (to_bytes (algo_String algo))))))"

text \<open>An unknown mode gives a nil \<open>cipher.BlockMode\<close>.\<close>

definition NewEncrypter :: "byte \<Rightarrow> cipher_block \<Rightarrow> byte list \<Rightarrow> block_mode option go" where
  "NewEncrypter g b iv =
     (if g = BlockModeCBC then go_bind (NewCBCEncrypter b iv) (\<lambda>m. Ret (Some m)) else Ret None)"

definition NewDecrypter :: "byte \<Rightarrow> cipher_block \<Rightarrow> byte list \<Rightarrow> block_mode option go" where
  "NewDecrypter g b iv =
     (if g = BlockModeCBC then go_bind (NewCBCDecrypter b iv) (\<lambda>m. Ret (Some m)) else Ret None)"

definition CryptBlocks :: "block_mode option \<Rightarrow> byte list \<Rightarrow> byte list go" where
  "CryptBlocks m src = (case m of None \<Rightarrow> Panic nil_deref | Some f \<Rightarrow> f src)"

definition pkcs5Padding :: "byte list \<Rightarrow> nat \<Rightarrow> byte list \<times> nat" where
  "pkcs5Padding data blockSize =
     (let padding = blockSize - length data mod blockSize
      in (data @ replicate padding (of_nat padding), padding))"

definition Padding :: "byte \<Rightarrow> byte list \<Rightarrow> nat \<Rightarrow> crypt_error + byte list \<times> nat" where
  "Padding p data blockSize =
     (if p = PKCS5Padding then Inr (pkcs5Padding data blockSize)
      else Inl (Msg (''unknown padding 0x'' @ algo_String p)))"

definition UnPadding :: "byte \<Rightarrow> byte list \<Rightarrow> int \<Rightarrow> (crypt_error + byte list) go" where
  "UnPadding p data paddingLength =
     (if p = PKCS5Padding
      then go_bind (slice data 0 (int (length data) - paddingLength)) (\<lambda>d. Ret (Inr d))
      else Ret (Inl (Msg (''unknown padding 0x'' @ algo_String p))))"

section \<open>encrypt.go: Encrypt and Decrypt\<close>

definition ciphertextPrefix :: string where
  "ciphertextPrefix = ''{CRYPT}''"

text \<open>The five bytes in front of the IV: mode and padding, and the padding length, masked with the IV.\<close>

definition mask_args :: "byte list \<Rightarrow> byte list \<Rightarrow> byte list" where
  "mask_args iv args = (if length iv \<ge> 5 then xor_bytes (take 5 iv) (take 5 args) @ drop 5 args else args)"

definition encrypt_with :: "crypto_lib \<Rightarrow> byte list \<Rightarrow> byte list \<Rightarrow> EncryptOptions \<Rightarrow> (crypt_error + string) go" where
  "encrypt_with lib originalBytes key opt =
     (case NewCipher lib (eo_algo opt) key of
        Inl err \<Rightarrow> Ret (Inl err)
      | Inr block \<Rightarrow>
          (case Padding (eo_padding opt) originalBytes (BlockSize block) of
             Inl err \<Rightarrow> Ret (Inl err)
           | Inr (paddingBytes, paddingLength) \<Rightarrow>
               (case rand_Read lib (BlockSize block) of
                  Inl err \<Rightarrow> Ret (Inl err)
                | Inr iv \<Rightarrow>
                    let args = mask_args iv ((push_bit 4 (eo_mode opt) OR eo_padding opt) # PutUint32 paddingLength) @ iv
                    in go_bind (NewEncrypter (eo_mode opt) block iv) (\<lambda>blockMode.
                         go_bind (CryptBlocks blockMode paddingBytes) (\<lambda>cipherBytes.
                           Ret (Inr (ciphertextPrefix @ ''$'' @ algo_String (eo_algo opt) @ ''$'' @
                             b64_EncodeToString args @ ''$'' @ b64_EncodeToString cipherBytes)))))))"

text \<open>\<open>fixAlgo\<close> changes the caller's options, which are therefore returned too.\<close>

definition Encrypt ::
    "crypto_lib \<Rightarrow> byte list \<Rightarrow> byte list \<Rightarrow> EncryptOptions option \<Rightarrow>
     EncryptOptions option \<times> (crypt_error + string) go" where
  "Encrypt lib originalBytes key o0 =
     (let o1 = (case o0 of None \<Rightarrow> NewEncryptOptions [WithFixAlgo] | Some opt \<Rightarrow> opt);
          (key', o2) = (if eo_fixAlgo o1 then fixAlgo lib key o1 else (key, o1))
      in (map_option (\<lambda>_. o2) o0, encrypt_with lib originalBytes key' o2))"

definition decrypt_key :: "crypto_lib \<Rightarrow> byte list \<Rightarrow> byte list" where
  "decrypt_key lib key = (if length key \<in> {8, 16, 24, 32} then key else NewHash (sha256 lib) key)"

text \<open>The name of the algorithm, read up to and including its dollar sign.\<close>

definition read_algo :: "string \<Rightarrow> (crypt_error + byte) go" where
  "read_algo algoStr =
     (if length algoStr < 1 \<or> length algoStr > 3
      then Ret (Inl (Msg (''invalid encryption algorithm: '' @ TrimSuffix algoStr ''$'')))
      else
        let a = take (length algoStr - 1) algoStr;
            a = (if length a = 1 then ''0'' @ a else a)
        in case hex_DecodeString a of
             None \<Rightarrow> Ret (Inl HexError)
           | Some algos \<Rightarrow> if algos = [] then Panic out_of_range else Ret (Inr (algos ! 0)))"

definition decrypt_body :: "cipher_block \<Rightarrow> byte list \<Rightarrow> string \<Rightarrow> (crypt_error + byte list) go" where
  "decrypt_body block args0 s =
     go_bind (slice args0 5 (int (length args0))) (\<lambda>iv.
       let args = mask_args iv args0;
           mode = drop_bit 4 (args ! 0);
           padding = (args ! 0) AND 0x0F
       in case b64_DecodeString s of
            None \<Rightarrow> Ret (Inl Base64Error)
          | Some cipherBytes \<Rightarrow>
              go_bind (NewDecrypter mode block iv) (\<lambda>blockMode.
                go_bind (CryptBlocks blockMode cipherBytes) (\<lambda>paddingBytes.
                  UnPadding padding paddingBytes (int (Uint32 (take 4 (drop 1 args)))))))"

definition Decrypt :: "crypto_lib \<Rightarrow> string \<Rightarrow> byte list \<Rightarrow> (crypt_error + byte list) go" where
  "Decrypt lib cipherString key0 =
     (let key = decrypt_key lib key0
      in if length cipherString \<le> length ciphertextPrefix + 5 then Ret (Inl (Msg ''invalid ciphertext''))
         else if \<not> HasPrefix cipherString ciphertextPrefix \<or> cipherString ! length ciphertextPrefix \<noteq> CHR ''$''
         then Ret (Inl (Msg ''invalid ciphertext''))
         else case Cut (drop (length ciphertextPrefix + 1) cipherString) (CHR ''$'') of
           (before, buf, found) \<Rightarrow>
             if \<not> found then Ret (Inl EOFError)
             else go_bind (read_algo (before @ ''$'')) (\<lambda>r. case r of
               Inl err \<Rightarrow> Ret (Inl err)
             | Inr algo \<Rightarrow>
                 (case NewCipher lib algo key of
                    Inl err \<Rightarrow> Ret (Inl err)
                  | Inr block \<Rightarrow>
                      (case Cut buf (CHR ''$'') of (a, s, found) \<Rightarrow>
                         if \<not> found then Ret (Inl EOFError)
                         else case b64_DecodeString a of
                           None \<Rightarrow> Ret (Inl Base64Error)
                         | Some args \<Rightarrow> decrypt_body block args s))))"

section \<open>aes.go\<close>

record AESCipher =
  aes_err :: "crypt_error option"
  aes_block :: "cipher_block option"
  aes_key :: "byte list"

definition NewAESCipher :: "crypto_lib \<Rightarrow> byte list \<Rightarrow> AESCipher" where
  "NewAESCipher lib key = (case aes_NewCipher lib key of
     Inl e \<Rightarrow> \<lparr>aes_err = Some e, aes_block = None, aes_key = key\<rparr>
   | Inr b \<Rightarrow> \<lparr>aes_err = None, aes_block = Some b, aes_key = key\<rparr>)"

definition pkcs7Padding :: "byte list \<Rightarrow> nat \<Rightarrow> byte list" where
  "pkcs7Padding ciphertext blockSize =
     (let padding = blockSize - length ciphertext mod blockSize
      in ciphertext @ replicate padding (of_nat padding))"

definition pkcs7UnPadding :: "byte list \<Rightarrow> byte list go" where
  "pkcs7UnPadding origData =
     (if origData = [] then Panic out_of_range
      else slice origData 0 (int (length origData) - int (unat (last origData))))"

definition CBCEncrypt :: "AESCipher \<Rightarrow> byte list \<Rightarrow> (crypt_error + byte list) go" where
  "CBCEncrypt c origData = (case aes_err c of
     Some e \<Rightarrow> Ret (Inl e)
   | None \<Rightarrow> (case aes_block c of
       None \<Rightarrow> Panic nil_deref
     | Some b \<Rightarrow>
         go_bind (slice (aes_key c) 0 (int (BlockSize b))) (\<lambda>iv.
           go_bind (NewCBCEncrypter b iv) (\<lambda>blockMode.
             go_bind (blockMode (pkcs7Padding origData (BlockSize b))) (\<lambda>cryted. Ret (Inr cryted))))))"

definition CBCDecrypt :: "AESCipher \<Rightarrow> byte list \<Rightarrow> (crypt_error + byte list) go" where
  "CBCDecrypt c crytedByte = (case aes_err c of
     Some e \<Rightarrow> Ret (Inl e)
   | None \<Rightarrow> (case aes_block c of
       None \<Rightarrow> Panic nil_deref
     | Some b \<Rightarrow>
         go_bind (slice (aes_key c) 0 (int (BlockSize b))) (\<lambda>iv.
           go_bind (NewCBCDecrypter b iv) (\<lambda>blockMode.
             go_bind (blockMode crytedByte) (\<lambda>orig.
               go_bind (pkcs7UnPadding orig) (\<lambda>orig. Ret (Inr orig)))))))"

section \<open>Laws of the library and lemmas\<close>

definition good_block :: "nat \<Rightarrow> cipher_block \<Rightarrow> bool" where
  "good_block n b \<longleftrightarrow> BlockSize b = n \<and>
     (\<forall>x. length x = n \<longrightarrow> length (block_Encrypt b x) = n \<and> block_Decrypt b (block_Encrypt b x) = x)"

definition new_cipher_laws :: "(byte list \<Rightarrow> crypt_error + cipher_block) \<Rightarrow> nat set \<Rightarrow> nat \<Rightarrow> bool" where
  "new_cipher_laws new sizes n \<longleftrightarrow>
     (\<forall>k. if length k \<in> sizes then \<exists>b. new k = Inr b \<and> good_block n b else \<exists>e. new k = Inl e)"

definition crypto_laws :: "crypto_lib \<Rightarrow> bool" where
  "crypto_laws lib \<longleftrightarrow>
     new_cipher_laws (des_NewCipher lib) {8} 8 \<and> new_cipher_laws (des_NewTripleDESCipher lib) {24} 8 \<and>
     new_cipher_laws (aes_NewCipher lib) {16, 24, 32} 16 \<and> new_cipher_laws (tea_NewCipher lib) {16} 8 \<and>
     (\<forall>d. length (sha256 lib d) = 32) \<and> (\<forall>n iv. rand_Read lib n = Inr iv \<longrightarrow> length iv = n)"

lemma length_xor_bytes [simp]: "length (xor_bytes a b) = min (length a) (length b)"
  by (simp add: xor_bytes_def)

lemma xor_bytes_cancel: "length a = length b \<Longrightarrow> xor_bytes (xor_bytes a b) b = a"
proof (induction a b rule: list_induct2)
  case (Cons x xs y ys)
  then show ?case by (simp add: xor_bytes_def xor.assoc)
qed (simp add: xor_bytes_def)

lemma xor_bytes_cancel_left: "length a = length b \<Longrightarrow> xor_bytes a (xor_bytes a b) = b"
proof (induction a b rule: list_induct2)
  case (Cons x xs y ys)
  then show ?case by (simp add: xor_bytes_def flip: xor.assoc)
qed (simp add: xor_bytes_def)

lemma cbc_round_trip:
  assumes "good_block n b" "0 < n"
  shows "length iv = n \<Longrightarrow> n dvd length src \<Longrightarrow>
    length (cbc_encrypt n (block_Encrypt b) iv src) = length src \<and>
    cbc_decrypt n (block_Decrypt b) iv (cbc_encrypt n (block_Encrypt b) iv src) = src"
proof (induction "length src" arbitrary: iv src rule: less_induct)
  case less
  show ?case
  proof (cases "src = []")
    case True
    then show ?thesis by (simp add: cbc_encrypt.simps cbc_decrypt.simps)
  next
    case False
    let ?E = "cbc_encrypt n (block_Encrypt b)" and ?D = "cbc_decrypt n (block_Decrypt b)"
    define c where "c = block_Encrypt b (xor_bytes (take n src) iv)"
    have n: "n \<le> length src" using less.prems(2) False by (simp add: dvd_imp_le)
    have c: "length c = n" "block_Decrypt b c = xor_bytes (take n src) iv"
      using assms(1) less.prems(1) n by (simp_all add: c_def good_block_def)
    have "n dvd length (drop n src)" using less.prems(2) n by (simp add: dvd_minus_self)
    then have ih: "length (?E c (drop n src)) = length (drop n src)" "?D c (?E c (drop n src)) = drop n src"
      using less.hyps [of "drop n src" c] c(1) n assms(2) False by auto
    have e: "?E iv src = c @ ?E c (drop n src)"
      using False assms(2) by (simp add: cbc_encrypt.simps [of n _ iv src] c_def Let_def)
    have "?D iv (c @ ?E c (drop n src)) = xor_bytes (block_Decrypt b c) iv @ ?D c (?E c (drop n src))"
      using c(1) assms(2) by (subst cbc_decrypt.simps) auto
    also have "\<dots> = src" using ih(2) c(2) less.prems(1) n by (simp add: xor_bytes_cancel)
    finally show ?thesis using e ih(1) c(1) n by simp
  qed
qed

lemma pkcs5_facts:
  assumes "pkcs5Padding data n = (padded, k)" "0 < n"
  shows "n dvd length padded" "0 < k" "k \<le> n" "length padded = length data + k" "take (length data) padded = data"
proof -
  have k: "k = n - length data mod n" "padded = data @ replicate k (of_nat k)"
    using assms(1) by (auto simp: pkcs5Padding_def Let_def)
  have "length data mod n < n" using assms(2) by simp
  then show "0 < k" "k \<le> n" "length padded = length data + k" "take (length data) padded = data"
    using k by simp_all
  have "length data + k = n * (length data div n) + n"
    using k \<open>length data mod n < n\<close> mult_div_mod_eq [of n "length data"] by linarith
  then show "n dvd length padded" using k(2) by simp
qed

lemma Uint32_PutUint32: "n < 256 \<Longrightarrow> Uint32 (PutUint32 n) = n"
  by (simp add: Uint32_def PutUint32_def unsigned_of_nat take_bit_nat_eq_self)

lemma length_PutUint32 [simp]: "length (PutUint32 n) = 4"
  by (simp add: PutUint32_def)

lemma mask_args_twice:
  "length a = 5 \<Longrightarrow> mask_args iv (mask_args iv a @ iv) = a @ iv \<and> length (mask_args iv a) = 5"
  by (simp add: mask_args_def xor_bytes_cancel_left)

definition known_algo :: "byte \<Rightarrow> bool" where
  "known_algo a \<longleftrightarrow> a \<in> {Algorithm3DES, AlgorithmDES, AlgorithmAES, AlgorithmTEA}"

lemma algo_name:
  assumes "known_algo a"
  shows "read_algo (algo_String a @ ''$'') = Ret (Inr a)" "CHR ''$'' \<notin> set (algo_String a)" "length (algo_String a) = 1"
proof -
  have "read_algo (algo_String 0 @ ''$'') = Ret (Inr 0)" "read_algo (algo_String 1 @ ''$'') = Ret (Inr 1)"
    "read_algo (algo_String 2 @ ''$'') = Ret (Inr 2)" "read_algo (algo_String 3 @ ''$'') = Ret (Inr 3)"
    by code_simp+
  then show "read_algo (algo_String a @ ''$'') = Ret (Inr a)"
    using assms by (auto simp: known_algo_def algo_defs)
  have "algo_String 0 = ''0''" "algo_String 1 = ''1''" "algo_String 2 = ''2''" "algo_String 3 = ''3''" by code_simp+
  then show "CHR ''$'' \<notin> set (algo_String a)" "length (algo_String a) = 1"
    using assms by (auto simp: known_algo_def algo_defs)
qed

lemma NewCipher_ok:
  assumes "crypto_laws lib" "NewCipher lib a k = Inr b"
  shows "known_algo a \<and> length k \<in> {8, 16, 24, 32} \<and> (good_block 8 b \<or> good_block 16 b)"
proof -
  have new: "length k \<in> sizes \<and> good_block n b" if "new_cipher_laws f sizes n" "f k = Inr b" for f sizes n
    using that unfolding new_cipher_laws_def by (metis Inl_Inr_False Inr_inject)
  consider "a = AlgorithmDES" "des_NewCipher lib k = Inr b" | "a = Algorithm3DES" "des_NewTripleDESCipher lib k = Inr b"
    | "a = AlgorithmAES" "aes_NewCipher lib k = Inr b" | "a = AlgorithmTEA" "tea_NewCipher lib k = Inr b"
    using assms(2) by (auto simp: NewCipher_def split: if_splits)
  then show ?thesis
  proof cases
    case 1
    then show ?thesis using new [of "des_NewCipher lib" "{8}" 8] assms(1) by (auto simp: crypto_laws_def known_algo_def)
  next
    case 2
    then show ?thesis using new [of "des_NewTripleDESCipher lib" "{24}" 8] assms(1)
      by (auto simp: crypto_laws_def known_algo_def)
  next
    case 3
    then show ?thesis using new [of "aes_NewCipher lib" "{16, 24, 32}" 16] assms(1)
      by (auto simp: crypto_laws_def known_algo_def)
  next
    case 4
    then show ?thesis using new [of "tea_NewCipher lib" "{16}" 8] assms(1) by (auto simp: crypto_laws_def known_algo_def)
  qed
qed

text \<open>What a successful encryption has computed.\<close>

lemma encrypt_with_Inr:
  assumes "encrypt_with lib data key opt = Ret (Inr s)"
  obtains block padded k iv cs where "NewCipher lib (eo_algo opt) key = Inr block"
    "pkcs5Padding data (BlockSize block) = (padded, k)" "rand_Read lib (BlockSize block) = Inr iv"
    "length iv = BlockSize block" "length padded mod BlockSize block = 0"
    "cs = cbc_encrypt (BlockSize block) (block_Encrypt block) iv padded"
    "s = ciphertextPrefix @ ''$'' @ algo_String (eo_algo opt) @ ''$'' @
       b64_EncodeToString (mask_args iv (0 # PutUint32 k) @ iv) @ ''$'' @ b64_EncodeToString cs"
proof -
  obtain block where block: "NewCipher lib (eo_algo opt) key = Inr block"
    using assms by (cases "NewCipher lib (eo_algo opt) key") (auto simp: encrypt_with_def)
  have pad: "eo_padding opt = 0"
    using assms block by (auto simp: encrypt_with_def Padding_def algo_defs split: if_splits)
  obtain padded k where p: "pkcs5Padding data (BlockSize block) = (padded, k)" by (cases "pkcs5Padding data (BlockSize block)")
  obtain iv where iv: "rand_Read lib (BlockSize block) = Inr iv"
    using assms block p pad
    by (cases "rand_Read lib (BlockSize block)") (auto simp: encrypt_with_def Padding_def algo_defs)
  have mode: "eo_mode opt = 0"
    using assms block p pad iv
    by (auto simp: encrypt_with_def Padding_def algo_defs NewEncrypter_def CryptBlocks_def Let_def split: if_splits)
  show thesis
    by (rule that [OF block p iv _ _ refl])
      (use assms block p iv pad mode in \<open>auto simp: encrypt_with_def Padding_def algo_defs NewEncrypter_def
         CryptBlocks_def Let_def NewCBCEncrypter_def split: if_splits\<close>)
qed

lemma decrypt_body_inverts:
  assumes "good_block n block" "0 < n" "n < 256" "length iv = n" "pkcs5Padding data n = (padded, k)"
  shows "decrypt_body block (mask_args iv (0 # PutUint32 k) @ iv)
      (b64_EncodeToString (cbc_encrypt n (block_Encrypt block) iv padded)) = Ret (Inr data)"
proof -
  note pk = pkcs5_facts [OF assms(5,2)]
  have m: "mask_args iv (mask_args iv (0 # PutUint32 k) @ iv) = 0 # PutUint32 k @ iv"
    "length (mask_args iv (0 # PutUint32 k)) = 5"
    using mask_args_twice [of "0 # PutUint32 k" iv] by simp_all
  have bs: "BlockSize block = n" using assms(1) by (simp add: good_block_def)
  have cbc: "length (cbc_encrypt n (block_Encrypt block) iv padded) = length padded"
    "cbc_decrypt n (block_Decrypt block) iv (cbc_encrypt n (block_Encrypt block) iv padded) = padded"
    using cbc_round_trip [OF assms(1,2,4) pk(1)] by simp_all
  have iv: "slice (mask_args iv (0 # PutUint32 k) @ iv) 5 (int (length (mask_args iv (0 # PutUint32 k) @ iv))) = Ret iv"
    using m(2) by (simp add: slice_def)
  have len: "Uint32 (take 4 (drop 1 (0 # PutUint32 k @ iv))) = k"
    using Uint32_PutUint32 [of k] pk(3) assms(3) by simp
  show ?thesis unfolding decrypt_body_def iv using pk m(1) bs cbc assms(4) len
    by (simp add: Let_def b64.dec_enc NewDecrypter_def NewCBCDecrypter_def CryptBlocks_def UnPadding_def
        algo_defs slice_def)
qed

lemma crypt_inverts:
  assumes laws: "crypto_laws lib" and enc: "encrypt_with lib data key opt = Ret (Inr s)"
    and key: "decrypt_key lib key0 = key"
  shows "Decrypt lib s key0 = Ret (Inr data)"
proof -
  obtain block padded k iv cs where e: "NewCipher lib (eo_algo opt) key = Inr block"
    "pkcs5Padding data (BlockSize block) = (padded, k)" "length iv = BlockSize block"
    "cs = cbc_encrypt (BlockSize block) (block_Encrypt block) iv padded"
    "s = ciphertextPrefix @ ''$'' @ algo_String (eo_algo opt) @ ''$'' @
       b64_EncodeToString (mask_args iv (0 # PutUint32 k) @ iv) @ ''$'' @ b64_EncodeToString cs"
    using encrypt_with_Inr [OF enc] by metis
  let ?a = "b64_EncodeToString (mask_args iv (0 # PutUint32 k) @ iv)" and ?n = "BlockSize block"
  have g: "known_algo (eo_algo opt)" "good_block ?n block" "0 < ?n" "?n < 256"
    using NewCipher_ok [OF laws e(1)] by (auto simp: good_block_def)
  note name = algo_name [OF g(1)]
  have body: "decrypt_body block (mask_args iv (0 # PutUint32 k) @ iv) (b64_EncodeToString cs) = Ret (Inr data)"
    using decrypt_body_inverts [OF g(2,3,4) e(3,2)] e(4) by simp
  have sep: "CHR ''$'' \<notin> set encodeStd" by (simp add: encodeStd_def)
  have cut1: "Cut (algo_String (eo_algo opt) @ CHR ''$'' # ?a @ CHR ''$'' # b64_EncodeToString cs) (CHR ''$'')
      = (algo_String (eo_algo opt), ?a @ CHR ''$'' # b64_EncodeToString cs, True)"
    using name(2) by (rule Cut_append)
  have cut2: "Cut (?a @ CHR ''$'' # b64_EncodeToString cs) (CHR ''$'') = (?a, b64_EncodeToString cs, True)"
    using sep by (rule b64.cut_encoded)
  let ?rest = "algo_String (eo_algo opt) @ CHR ''$'' # ?a @ CHR ''$'' # b64_EncodeToString cs"
  have s: "s = ciphertextPrefix @ CHR ''$'' # ?rest" using e(5) by simp
  have "5 \<le> length ?a" using b64_length [of "mask_args iv (0 # PutUint32 k) @ iv"] mask_args_twice [of "0 # PutUint32 k" iv]
    by simp
  then have len: "\<not> length s \<le> length ciphertextPrefix + 5" using s name(3) by simp
  have pre: "HasPrefix s ciphertextPrefix" "s ! length ciphertextPrefix = CHR ''$''"
    "drop (Suc (length ciphertextPrefix)) s = ?rest"
    using s by (simp_all add: HasPrefix_def)
  show ?thesis using body e(1) name(1) key
    by (simp add: Decrypt_def len pre cut1 cut2 b64.dec_enc)
qed

lemma encrypt_keys:
  assumes "crypto_laws lib" "snd (Encrypt lib data key o0) = Ret (Inr s)"
  shows "\<exists>k opt. encrypt_with lib data k opt = Ret (Inr s) \<and> decrypt_key lib key = k"
proof -
  define o1 where "o1 = (case o0 of None \<Rightarrow> NewEncryptOptions [WithFixAlgo] | Some opt \<Rightarrow> opt)"
  have enc: "encrypt_with lib data (fst (if eo_fixAlgo o1 then fixAlgo lib key o1 else (key, o1)))
      (snd (if eo_fixAlgo o1 then fixAlgo lib key o1 else (key, o1))) = Ret (Inr s)"
    using assms(2) unfolding Encrypt_def o1_def [symmetric] by (simp add: case_prod_beta Let_def split: if_splits)
  show ?thesis
  proof (cases "eo_fixAlgo o1")
    case True
    have "fst (fixAlgo lib key o1) = decrypt_key lib key" by (simp add: fixAlgo_def decrypt_key_def)
    then show ?thesis using enc True by auto
  next
    case False
    then have e: "encrypt_with lib data key o1 = Ret (Inr s)" using enc by simp
    obtain b where "NewCipher lib (eo_algo o1) key = Inr b" using encrypt_with_Inr [OF e] by metis
    then have "decrypt_key lib key = key" using NewCipher_ok [OF assms(1)] by (auto simp: decrypt_key_def)
    then show ?thesis using e by blast
  qed
qed

lemma Encrypt_nil_succeeds:
  assumes laws: "crypto_laws lib" and rnd: "\<And>n. \<exists>iv. rand_Read lib n = Inr iv"
  shows "\<exists>s. snd (Encrypt lib data key None) = Ret (Inr s)"
proof -
  let ?o1 = "NewEncryptOptions [WithFixAlgo]"
  obtain k opt where f: "fixAlgo lib key ?o1 = (k, opt)" by (cases "fixAlgo lib key ?o1")
  have o1: "eo_mode opt = 0" "eo_padding opt = 0"
    using f by (auto simp: fixAlgo_def NewEncryptOptions_def WithFixAlgo_def algo_defs split: if_splits)
  have sha: "length (sha256 lib key) = 32" using laws by (simp add: crypto_laws_def)
  have "\<exists>b. NewCipher lib (eo_algo opt) k = Inr b"
    using f laws sha
    by (auto simp: fixAlgo_def NewEncryptOptions_def WithFixAlgo_def algo_defs NewCipher_def NewHash_def
        crypto_laws_def new_cipher_laws_def split: if_splits)
  then obtain b where b: "NewCipher lib (eo_algo opt) k = Inr b" by blast
  obtain iv where iv: "rand_Read lib (BlockSize b) = Inr iv" using rnd by blast
  then have len: "length iv = BlockSize b" using laws by (simp add: crypto_laws_def)
  obtain padded p where pad: "pkcs5Padding data (BlockSize b) = (padded, p)" by (cases "pkcs5Padding data (BlockSize b)")
  have "0 < BlockSize b" using NewCipher_ok [OF laws b] by (auto simp: good_block_def)
  then have "length padded mod BlockSize b = 0" using pkcs5_facts(1) [OF pad] by simp
  then have "\<exists>s. encrypt_with lib data k opt = Ret (Inr s)"
    using b iv len pad o1
    by (simp add: encrypt_with_def Padding_def NewEncrypter_def NewCBCEncrypter_def CryptBlocks_def algo_defs Let_def)
  then show ?thesis using f by (simp add: Encrypt_def NewEncryptOptions_def WithFixAlgo_def)
qed

text \<open>A stand-in for the library: blocks are reversed, digests and random bytes are constant.\<close>

definition rev_cipher :: "nat set \<Rightarrow> nat \<Rightarrow> byte list \<Rightarrow> crypt_error + cipher_block" where
  "rev_cipher sizes n k = (if length k \<in> sizes
     then Inr \<lparr>BlockSize = n, block_Encrypt = rev, block_Decrypt = rev\<rparr> else Inl (CipherError ''invalid key size''))"

definition rev_lib :: crypto_lib where
  "rev_lib = \<lparr>des_NewCipher = rev_cipher {8} 8, des_NewTripleDESCipher = rev_cipher {24} 8,
     aes_NewCipher = rev_cipher {16, 24, 32} 16, tea_NewCipher = rev_cipher {16} 8,
     sha256 = (\<lambda>d. replicate 32 7), rand_Read = (\<lambda>n. Inr (replicate n 9))\<rparr>"

lemma rev_lib_laws: "crypto_laws rev_lib"
  by (simp add: crypto_laws_def rev_lib_def new_cipher_laws_def rev_cipher_def good_block_def)

section \<open>Properties of Encrypt and Decrypt\<close>

text \<open>
  C2: \<open>Decrypt\<close> inverts \<open>Encrypt\<close>: whatever the plaintext, the key, the options and the random IV, if
  \<open>Encrypt\<close> returns a ciphertext then \<open>Decrypt\<close> with the same key returns the plaintext; and with
  default options \<open>Encrypt\<close> succeeds for a key of any length.
\<close>

theorem encrypt_round_trip:
  assumes "crypto_laws lib" "\<And>n. \<exists>iv. rand_Read lib n = Inr iv"
  shows "(\<forall>s. snd (Encrypt lib data key o0) = Ret (Inr s) \<longrightarrow> Decrypt lib s key = Ret (Inr data)) \<and>
    (\<exists>s. snd (Encrypt lib data key None) = Ret (Inr s))"
  using encrypt_keys [OF assms(1)] crypt_inverts [OF assms(1)] Encrypt_nil_succeeds [OF assms] by metis

theorem encrypt_round_trip_witness:
  "\<exists>s. snd (Encrypt rev_lib [1, 2, 3] [4, 5] None) = Ret (Inr s) \<and>
     Decrypt rev_lib s [4, 5] = Ret (Inr [1, 2, 3])"
  using encrypt_round_trip [OF rev_lib_laws, of "[1, 2, 3]" "[4, 5]" None] by (auto simp: rev_lib_def)



text \<open>
  \<open>CBCDecrypt\<close> inverts \<open>CBCEncrypt\<close> for every key that AES accepts; for any other key both
  return the error of the construction.
\<close>

theorem aes_round_trip:
  assumes "crypto_laws lib"
  shows "if length key \<in> {16, 24, 32}
    then \<exists>c. CBCEncrypt (NewAESCipher lib key) data = Ret (Inr c) \<and> CBCDecrypt (NewAESCipher lib key) c = Ret (Inr data)
    else \<exists>e. CBCEncrypt (NewAESCipher lib key) data = Ret (Inl e) \<and> CBCDecrypt (NewAESCipher lib key) data = Ret (Inl e)"
proof (cases "length key \<in> {16, 24, 32}")
  case False
  then obtain e where "aes_NewCipher lib key = Inl e"
    using assms unfolding crypto_laws_def new_cipher_laws_def by metis
  then show ?thesis using False by (auto simp: NewAESCipher_def CBCEncrypt_def CBCDecrypt_def)
next
  case True
  then obtain b where b: "aes_NewCipher lib key = Inr b" "good_block 16 b"
    using assms unfolding crypto_laws_def new_cipher_laws_def by metis
  have bs: "BlockSize b = 16" using b(2) by (simp add: good_block_def)
  obtain padded k where p: "pkcs5Padding data 16 = (padded, k)" by (cases "pkcs5Padding data 16")
  note pk = pkcs5_facts [OF p] 
  have pad: "pkcs7Padding data 16 = padded" "padded = data @ replicate k (of_nat k)"
    using p by (auto simp: pkcs7Padding_def pkcs5Padding_def Let_def)
  have k: "0 < k" "k \<le> 16" "16 dvd length padded" using pk by simp_all
  have iv: "slice key 0 16 = Ret (take 16 key)" "length (take 16 key) = 16" using True by (auto simp: slice_def)
  have cbc: "length (cbc_encrypt 16 (block_Encrypt b) (take 16 key) padded) = length padded"
    "cbc_decrypt 16 (block_Decrypt b) (take 16 key) (cbc_encrypt 16 (block_Encrypt b) (take 16 key) padded) = padded"
    using cbc_round_trip [OF b(2) _ iv(2) k(3)] by simp_all
  have "last padded = of_nat k" "padded \<noteq> []" using pad(2) k(1) by simp_all
  moreover have "unat (of_nat k :: byte) = k" using k(2) by (simp add: unsigned_of_nat take_bit_nat_eq_self)
  ultimately have "pkcs7UnPadding padded = Ret data" using pad(2) k by (simp add: pkcs7UnPadding_def slice_def)
  then show ?thesis using True b(1) bs iv cbc pad(1) k(3)
    by (auto simp: NewAESCipher_def CBCEncrypt_def CBCDecrypt_def NewCBCEncrypter_def NewCBCDecrypter_def)
qed

theorem aes_round_trip_witness:
  "\<exists>c. CBCEncrypt (NewAESCipher rev_lib (replicate 24 1)) [5] = Ret (Inr c) \<and>
       CBCDecrypt (NewAESCipher rev_lib (replicate 24 1)) c = Ret (Inr [5])"
  using aes_round_trip [OF rev_lib_laws, of "replicate 24 1" "[5]"] by simp

end
