(* ===== verification/SafeString.thy ===== *)
theory SafeString
  imports Safe
begin

text \<open>
  The type \<open>String\<close> of \<open>src/safe/string.go\<close>: a value that is stored encrypted. The value of the
  environment variable \<open>SecretEnvName\<close> is the argument \<open>env\<close>; the decoders of JSON and YAML are
  arguments; \<open>encoding/json\<close> turns a string into its JSON text.
\<close>

record SString =
  ss_value :: string
  ss_secret :: string

definition SString_Reset :: "SString \<Rightarrow> SString" where
  "SString_Reset e = \<lparr>ss_value = [], ss_secret = []\<rparr>"

definition getSecret :: "string \<Rightarrow> SString \<Rightarrow> string" where
  "getSecret env e = (if ss_secret e \<noteq> [] then ss_secret e else env)"

text \<open>\<open>Encrypt([]byte(value), secret, nil)\<close>\<close>

definition encrypt_string :: "crypto_lib \<Rightarrow> string \<Rightarrow> string \<Rightarrow> (crypt_error + string) go" where
  "encrypt_string lib value secret = snd (Encrypt lib (to_bytes value) (to_bytes secret) None)"

definition SString_String :: "crypto_lib \<Rightarrow> string \<Rightarrow> SString \<Rightarrow> (SString \<times> string) go" where
  "SString_String lib env e =
     (if ss_value e = [] then Ret (e, [])
      else if \<not> HasPrefix (ss_value e) ciphertextPrefix \<and> getSecret env e \<noteq> [] then
        go_bind (encrypt_string lib (ss_value e) (ss_secret e)) (\<lambda>r. case r of
          Inr value \<Rightarrow> Ret (e\<lparr>ss_value := value\<rparr>, value)
        | Inl err \<Rightarrow> Ret (e, ss_value e))
      else Ret (e, ss_value e))"

definition SString_MarshalJSON :: "(string \<Rightarrow> 'e + string) \<Rightarrow> crypto_lib \<Rightarrow> string \<Rightarrow> SString \<Rightarrow> ('e + string) go" where
  "SString_MarshalJSON json_Marshal lib env e =
     go_bind (SString_String lib env e) (\<lambda>(e', s). Ret (json_Marshal s))"

text \<open>
  The common end of \<open>UnmarshalJSON\<close> and \<open>UnmarshalYAML\<close>, on the decoded value: a failing \<open>Encrypt\<close>
  leaves its empty result in the value.
\<close>

definition protect_value :: "crypto_lib \<Rightarrow> string \<Rightarrow> SString \<Rightarrow> (SString \<times> crypt_error option) go" where
  "protect_value lib env e =
     (if \<not> HasPrefix (ss_value e) ciphertextPrefix \<and> getSecret env e \<noteq> [] then
        go_bind (encrypt_string lib (ss_value e) (getSecret env e)) (\<lambda>r. case r of
          Inr value \<Rightarrow> Ret (e\<lparr>ss_value := value, ss_secret := getSecret env e\<rparr>, None)
        | Inl err \<Rightarrow> Ret (e\<lparr>ss_value := []\<rparr>, Some err))
      else Ret (e, None))"

definition SString_UnmarshalJSON ::
    "(string \<Rightarrow> crypt_error + string) \<Rightarrow> crypto_lib \<Rightarrow> string \<Rightarrow> SString \<Rightarrow> string \<Rightarrow> (SString \<times> crypt_error option) go" where
  "SString_UnmarshalJSON json_Unmarshal lib env e bytes = (case json_Unmarshal bytes of
     Inl err \<Rightarrow> Ret (e, Some err)
   | Inr value \<Rightarrow> protect_value lib env (e\<lparr>ss_value := value\<rparr>))"

definition SString_UnmarshalYAML ::
    "crypto_lib \<Rightarrow> string \<Rightarrow> SString \<Rightarrow> crypt_error + string \<Rightarrow> (SString \<times> crypt_error option) go" where
  "SString_UnmarshalYAML lib env e decoded = (case decoded of
     Inl err \<Rightarrow> Ret (e, Some err)
   | Inr value \<Rightarrow> protect_value lib env (e\<lparr>ss_value := value\<rparr>))"

definition SString_UnsafeString :: "crypto_lib \<Rightarrow> string \<Rightarrow> SString \<Rightarrow> (string \<times> crypt_error option) go" where
  "SString_UnsafeString lib env e =
     (if ss_value e = [] then Ret ([], None)
      else if HasPrefix (ss_value e) ciphertextPrefix \<and> getSecret env e \<noteq> [] then
        go_bind (Decrypt lib (ss_value e) (to_bytes (getSecret env e))) (\<lambda>r. case r of
          Inl err \<Rightarrow> Ret ([], Some err)
        | Inr d \<Rightarrow> Ret (to_str d, None))
      else Ret (ss_value e, None))"

definition SString_Size :: "SString \<Rightarrow> nat" where
  "SString_Size e = length (ss_value e)"

definition SString_SetValue :: "crypto_lib \<Rightarrow> string \<Rightarrow> SString \<Rightarrow> string \<Rightarrow> (SString \<times> crypt_error option) go" where
  "SString_SetValue lib env e value =
     (if \<not> HasPrefix value ciphertextPrefix \<and> getSecret env e \<noteq> [] \<and> value \<noteq> [] then
        let e' = e\<lparr>ss_secret := getSecret env e\<rparr>
        in go_bind (encrypt_string lib value (ss_secret e')) (\<lambda>r. case r of
             Inr v \<Rightarrow> Ret (e'\<lparr>ss_value := v\<rparr>, None)
           | Inl err \<Rightarrow> Ret (e'\<lparr>ss_value := []\<rparr>, Some err))
      else Ret (e\<lparr>ss_value := value\<rparr>, None))"

definition SString_UpdateSecret :: "crypto_lib \<Rightarrow> string \<Rightarrow> SString \<Rightarrow> string \<Rightarrow> SString go" where
  "SString_UpdateSecret lib env e secret =
     go_bind (SString_UnsafeString lib env e) (\<lambda>(plain, err).
       if err \<noteq> None then Ret e
       else if length secret \<noteq> 0 then
         go_bind (encrypt_string lib plain secret) (\<lambda>r. case r of
           Inr safeString \<Rightarrow> Ret (e\<lparr>ss_value := safeString, ss_secret := secret\<rparr>)
         | Inl _ \<Rightarrow> Ret (e\<lparr>ss_secret := secret\<rparr>))
       else Ret (e\<lparr>ss_secret := secret\<rparr>))"

definition SString_SetSecret :: "SString \<Rightarrow> string \<Rightarrow> SString" where
  "SString_SetSecret e secret = e\<lparr>ss_secret := secret\<rparr>"

text \<open>The dynamic types a database driver hands to \<open>Scan\<close>.\<close>

datatype driver_value = Bytes "byte list" | Str string | Other string

definition SString_Scan :: "SString \<Rightarrow> driver_value \<Rightarrow> SString \<times> gerror option" where
  "SString_Scan e value = (case value of
     Bytes b \<Rightarrow> (e\<lparr>ss_value := to_str b\<rparr>, None)
   | Str s \<Rightarrow> (e\<lparr>ss_value := s\<rparr>, None)
   | Other t \<Rightarrow> (e, Some (''failed to resolve field, type exception: '' @ t)))"

definition SString_Value :: "SString \<Rightarrow> string" where
  "SString_Value e = ss_value e"

definition SString_Equal :: "crypto_lib \<Rightarrow> string \<Rightarrow> SString \<Rightarrow> SString \<Rightarrow> bool go" where
  "SString_Equal lib env e n =
     go_bind (SString_UnsafeString lib env e) (\<lambda>(plain, err).
       if err \<noteq> None then Ret False
       else go_bind (SString_UnsafeString lib env n) (\<lambda>(plain2, err).
         if err \<noteq> None then Ret False else Ret (plain = plain2)))"

definition NewEncryptedString :: "crypto_lib \<Rightarrow> string \<Rightarrow> string \<Rightarrow> SString go" where
  "NewEncryptedString lib plain secret =
     (if \<not> HasPrefix plain ciphertextPrefix \<and> length secret > 0 then
        go_bind (encrypt_string lib plain secret) (\<lambda>r. case r of
          Inr safeString \<Rightarrow> Ret \<lparr>ss_value = safeString, ss_secret = secret\<rparr>
        | Inl _ \<Rightarrow> Ret \<lparr>ss_value = plain, ss_secret = secret\<rparr>)
      else Ret \<lparr>ss_value = plain, ss_secret = secret\<rparr>)"

section \<open>Lemmas\<close>

text \<open>Every ciphertext carries the prefix, and its own key reads it back.\<close>

lemma encrypt_string_reads_back:
  assumes "crypto_laws lib" "encrypt_string lib v secret = Ret (Inr c)"
  shows "HasPrefix c ciphertextPrefix" "c \<noteq> []" "Decrypt lib c (to_bytes secret) = Ret (Inr (to_bytes v))"
proof -
  obtain k opt where e: "encrypt_with lib (to_bytes v) k opt = Ret (Inr c)" "decrypt_key lib (to_bytes secret) = k"
    using encrypt_keys [OF assms(1)] assms(2) unfolding encrypt_string_def by blast
  show "Decrypt lib c (to_bytes secret) = Ret (Inr (to_bytes v))" by (rule crypt_inverts [OF assms(1) e])
  show "HasPrefix c ciphertextPrefix" "c \<noteq> []"
    using encrypt_with_Inr [OF e(1)] by (metis HasPrefix_append, auto simp: ciphertextPrefix_def)
qed

lemma encrypt_string_succeeds:
  assumes "crypto_laws lib" "\<And>n. \<exists>iv. rand_Read lib n = Inr iv"
  obtains c where "encrypt_string lib v secret = Ret (Inr c)"
  using Encrypt_nil_succeeds [OF assms] unfolding encrypt_string_def by blast

lemma UnsafeString_ciphertext:
  assumes "crypto_laws lib" "encrypt_string lib v secret = Ret (Inr c)" "secret \<noteq> []"
  shows "SString_UnsafeString lib env \<lparr>ss_value = c, ss_secret = secret\<rparr> = Ret (v, None)"
  using encrypt_string_reads_back [OF assms(1,2)] assms(3) by (simp add: SString_UnsafeString_def getSecret_def)

lemma read_back_parts:
  assumes laws: "crypto_laws lib" "\<And>n. \<exists>iv. rand_Read lib n = Inr iv"
    and plain: "\<not> HasPrefix v ciphertextPrefix" "v \<noteq> []"
  shows "\<exists>e'. SString_SetValue lib env e v = Ret (e', None) \<and> SString_UnsafeString lib env e' = Ret (v, None) \<and>
      (getSecret env e \<noteq> [] \<longrightarrow> HasPrefix (SString_Value e') ciphertextPrefix)"
    "\<exists>e'. NewEncryptedString lib v secret = Ret e' \<and> SString_UnsafeString lib env e' = Ret (v, None)"
proof -
  show "\<exists>e'. SString_SetValue lib env e v = Ret (e', None) \<and> SString_UnsafeString lib env e' = Ret (v, None) \<and>
      (getSecret env e \<noteq> [] \<longrightarrow> HasPrefix (SString_Value e') ciphertextPrefix)"
  proof (cases "getSecret env e = []")
    case True
    then show ?thesis using plain by (simp add: SString_SetValue_def SString_UnsafeString_def)
  next
    case False
    obtain c where c: "encrypt_string lib v (getSecret env e) = Ret (Inr c)"
      using encrypt_string_succeeds [OF laws] by metis
    note rb = encrypt_string_reads_back [OF laws(1) c]
    have "SString_SetValue lib env e v = Ret (e\<lparr>ss_secret := getSecret env e, ss_value := c\<rparr>, None)"
      using plain False c by (simp add: SString_SetValue_def)
    then show ?thesis using rb False
      by (auto simp: SString_UnsafeString_def getSecret_def SString_Value_def)
  qed
  show "\<exists>e'. NewEncryptedString lib v secret = Ret e' \<and> SString_UnsafeString lib env e' = Ret (v, None)"
  proof (cases "secret = []")
    case True
    then show ?thesis using plain by (simp add: NewEncryptedString_def SString_UnsafeString_def)
  next
    case False
    obtain c where c: "encrypt_string lib v secret = Ret (Inr c)" using encrypt_string_succeeds [OF laws] by metis
    then show ?thesis using plain False UnsafeString_ciphertext [OF laws(1) c False]
      by (simp add: NewEncryptedString_def)
  qed
qed

lemma update_secret_parts:
  assumes "crypto_laws lib" "\<And>n. \<exists>iv. rand_Read lib n = Inr iv"
    and "SString_UnsafeString lib env e = Ret (v, None)"
  shows "secret \<noteq> [] \<Longrightarrow> \<exists>e'. SString_UpdateSecret lib env e secret = Ret e' \<and> ss_secret e' = secret \<and>
      SString_UnsafeString lib env' e' = Ret (v, None)"
    "\<exists>e'. SString_UpdateSecret lib env e [] = Ret e' \<and> ss_secret e' = [] \<and>
      SString_UnsafeString lib [] e' = Ret (ss_value e, None)"
proof -
  assume s: "secret \<noteq> []"
  obtain c where c: "encrypt_string lib v secret = Ret (Inr c)" using encrypt_string_succeeds [OF assms(1,2)] by metis
  have "SString_UpdateSecret lib env e secret = Ret (e\<lparr>ss_value := c, ss_secret := secret\<rparr>)"
    using assms(3) s c by (simp add: SString_UpdateSecret_def)
  then show "\<exists>e'. SString_UpdateSecret lib env e secret = Ret e' \<and> ss_secret e' = secret \<and>
      SString_UnsafeString lib env' e' = Ret (v, None)"
    using UnsafeString_ciphertext [OF assms(1) c s] s
    by (auto simp: SString_UnsafeString_def getSecret_def)
next
  show "\<exists>e'. SString_UpdateSecret lib env e [] = Ret e' \<and> ss_secret e' = [] \<and>
      SString_UnsafeString lib [] e' = Ret (ss_value e, None)"
    using assms(3) by (simp add: SString_UpdateSecret_def SString_UnsafeString_def getSecret_def)
qed

section \<open>Properties\<close>



text \<open>
  \<open>UpdateSecret\<close> with a new secret keeps the plaintext: what \<open>UnsafeString\<close> returned before, it
  returns afterwards under the new secret. With an empty secret it forgets the key and keeps
  the ciphertext, so the plaintext can no longer be read.
\<close>

theorem safe_string_update_secret:
  assumes "crypto_laws lib" "\<And>n. \<exists>iv. rand_Read lib n = Inr iv"
    and "SString_UnsafeString lib env e = Ret (v, None)"
  shows "(secret \<noteq> [] \<longrightarrow> (\<exists>e'. SString_UpdateSecret lib env e secret = Ret e' \<and> ss_secret e' = secret \<and>
      SString_UnsafeString lib env' e' = Ret (v, None))) \<and>
    (\<exists>e'. SString_UpdateSecret lib env e [] = Ret e' \<and> ss_secret e' = [] \<and>
      SString_UnsafeString lib [] e' = Ret (ss_value e, None))"
  using update_secret_parts [OF assms] by blast

theorem safe_string_update_secret_witness:
  "\<exists>e'. SString_UpdateSecret rev_lib [] \<lparr>ss_value = ''pw'', ss_secret = []\<rparr> ''n'' = Ret e' \<and>
      ss_secret e' = ''n'' \<and> SString_UnsafeString rev_lib [] e' = Ret (''pw'', None)"
  using safe_string_update_secret [OF rev_lib_laws, of "[]" "\<lparr>ss_value = ''pw'', ss_secret = []\<rparr>" "''pw''" "''n''" "[]"]
  by (simp add: rev_lib_def SString_UnsafeString_def HasPrefix_def ciphertextPrefix_def)

text \<open>
  \<open>String\<close> encrypts with the wrong key. A plaintext read from the database (\<open>Scan\<close>) under a
  secret in the environment only is encrypted with the value's own, empty, secret, so that the
  result is opened by the empty key, which is no secret at all.
\<close>

theorem safe_string_empty_key:
  assumes "crypto_laws lib" "\<And>n. \<exists>iv. rand_Read lib n = Inr iv"
    and "env \<noteq> []" "v \<noteq> []" "\<not> HasPrefix v ciphertextPrefix"
  shows "\<exists>e' c. SString_String lib env (fst (SString_Scan \<lparr>ss_value = [], ss_secret = []\<rparr> (Str v))) = Ret (e', c) \<and>
    Decrypt lib c [] = Ret (Inr (to_bytes v))"
proof -
  obtain c where c: "encrypt_string lib v [] = Ret (Inr c)" using encrypt_string_succeeds [OF assms(1,2)] by metis
  have "Decrypt lib c [] = Ret (Inr (to_bytes v))"
    using encrypt_string_reads_back(3) [OF assms(1) c] by (simp add: to_bytes_def)
  then show ?thesis using assms(3-5) c by (simp add: SString_Scan_def SString_String_def getSecret_def)
qed

theorem safe_string_empty_key_witness:
  "\<exists>e' c. SString_String rev_lib ''k'' (fst (SString_Scan \<lparr>ss_value = [], ss_secret = []\<rparr> (Str ''pw''))) = Ret (e', c) \<and>
    Decrypt rev_lib c [] = Ret (Inr (to_bytes ''pw''))"
  by (rule safe_string_empty_key [OF rev_lib_laws])
     (simp_all add: rev_lib_def HasPrefix_def ciphertextPrefix_def)

section \<open>The hook for decoded configurations\<close>

text \<open>
  What \<open>mapstructure\<close> gives to the hook and takes back: a string, a value of a named string type, a secret, or
  anything else. The target is \<open>String\<close> or not.
\<close>

datatype 'x hook_data = HookString string | HookNamedString string | HookSafe SString | HookOther 'x

definition SafeStringHookFunc :: "crypto_lib \<Rightarrow> string \<Rightarrow> bool \<Rightarrow> 'x hook_data \<Rightarrow> ('x hook_data \<times> crypt_error option) go" where
  "SafeStringHookFunc lib env is_String data =
     (case data of
        HookString s \<Rightarrow>
          if is_String then
            (let dt = \<lparr>ss_value = s, ss_secret = getSecret env \<lparr>ss_value = s, ss_secret = []\<rparr>\<rparr> in
             go_bind (protect_value lib env dt) (\<lambda>(dt', err).
               case err of
                 Some e \<Rightarrow> Ret (HookSafe \<lparr>ss_value = [], ss_secret = []\<rparr>, Some e)
               | None \<Rightarrow> Ret (HookSafe dt', None)))
          else Ret (data, None)
      | HookNamedString s \<Rightarrow> if is_String then Panic ''interface conversion'' else Ret (data, None)
      | _ \<Rightarrow> Ret (data, None))"

definition XXX_WellKnownType :: string where "XXX_WellKnownType = ''StringValue''"
definition GormDataType :: string where "GormDataType = ''string''"

text \<open>The protobuf adapters call the JSON methods.\<close>

definition SString_UnmarshalJSONPB where "SString_UnmarshalJSONPB = SString_UnmarshalJSON"
definition SString_MarshalJSONPB where "SString_MarshalJSONPB = SString_MarshalJSON"

text \<open>A plaintext in a configuration is encrypted with the secret of the environment and read back.\<close>

lemma hook_reads_back:
  assumes "crypto_laws lib" "\<And>n. \<exists>iv. rand_Read lib n = Inr iv" "\<not> HasPrefix s ciphertextPrefix"
  shows "\<exists>e. SafeStringHookFunc lib env True (HookString s) = Ret (HookSafe e, None) \<and>
    SString_UnsafeString lib env' e = Ret (s, None) \<and> (env \<noteq> [] \<longrightarrow> HasPrefix (ss_value e) ciphertextPrefix)"
proof (cases "env = []")
  case True
  then show ?thesis using assms(3)
    by (simp add: SafeStringHookFunc_def protect_value_def getSecret_def SString_UnsafeString_def Let_def)
next
  case False
  obtain c where c: "encrypt_string lib s env = Ret (Inr c)" using encrypt_string_succeeds [OF assms(1,2)] by metis
  then show ?thesis
    using assms(3) False UnsafeString_ciphertext [OF assms(1) c False] encrypt_string_reads_back(1) [OF assms(1) c]
    by (simp add: SafeStringHookFunc_def protect_value_def getSecret_def Let_def)
qed

end
