(* ===== verification/Signals.thy ===== *)
theory Signals
  imports GoPrelude
begin

text \<open>
  Package \<open>signals\<close> (\<open>src/signals/signal.go\<close>): graceful shutdown. The operations that other goroutines
  call are functions on the shared state; \<open>safeStop\<close>, which runs in the goroutine of the signal
  and in every caller of \<open>SafeStop\<close>, is a program counter per caller, and \<open>step\<close> interleaves the
  callers, the hooks they start, the timers and the rest of the program. A hook and a goroutine are
  numbers; a level is a number below 256 (\<open>uint8\<close>). A wait group that was never used counts 0, as
  the one that \<open>LoadOrStore\<close> creates.
\<close>

section \<open>State\<close>

datatype pc =
    Idle \<comment> \<open>has not called \<open>safeStop\<close>\<close>
  | Lock \<comment> \<open>waits for the mutex\<close>
  | Closing \<comment> \<open>is about to close the channel\<close>
  | Level nat \<comment> \<open>at the top of the loop\<close>
  | Hooks nat "nat list" \<comment> \<open>waits for the hooks still running\<close>
  | WaitLevel nat \<comment> \<open>waits for the wait group of the level\<close>
  | Exiting \<comment> \<open>is about to call \<open>exitFunc\<close>\<close>
  | Finished

record Handler =
  closed :: bool
  holder :: "nat option"
  wgs :: "nat \<Rightarrow> int"
  preStopFuncs :: "nat \<Rightarrow> nat list"
  pcs :: "nat \<Rightarrow> pc"
  timers :: "nat list"
  hooklog :: "(nat \<times> nat) list"
  exits :: nat
  crash :: "string option"

definition LevelRoot :: nat where "LevelRoot = 0"
definition LevelTrace :: nat where "LevelTrace = 5"
definition LevelDB :: nat where "LevelDB = 10"
definition LevelRequest :: nat where "LevelRequest = 20"
definition LevelMax :: nat where "LevelMax = 31"

section \<open>Operations of the handler\<close>

definition AddFor :: "Handler \<Rightarrow> nat \<Rightarrow> int \<Rightarrow> Handler go" where
  "AddFor s level delta =
     (if wgs s level + delta < 0 then Panic ''sync: negative WaitGroup counter''
      else Ret (s\<lparr>wgs := (wgs s)(level := wgs s level + delta)\<rparr>))"

definition DoneFor :: "Handler \<Rightarrow> nat \<Rightarrow> Handler go" where
  "DoneFor s level = AddFor s level (-1)"

text \<open>\<open>Wait\<close> blocks; \<open>WaitFor_enabled\<close> is when it returns.\<close>

definition WaitFor_enabled :: "Handler \<Rightarrow> nat \<Rightarrow> bool" where
  "WaitFor_enabled s level \<longleftrightarrow> wgs s level = 0"

definition AddRequest :: "Handler \<Rightarrow> int \<Rightarrow> Handler go" where
  "AddRequest s delta = AddFor s LevelRequest delta"

definition DoneRequest :: "Handler \<Rightarrow> Handler go" where
  "DoneRequest s = DoneFor s LevelRequest"

definition Add :: "Handler \<Rightarrow> int \<Rightarrow> Handler go" where
  "Add s delta = AddFor s LevelRoot delta"

definition Done :: "Handler \<Rightarrow> Handler go" where
  "Done s = DoneFor s LevelRoot"

definition ErrorLevelOutOfBounds :: string where
  "ErrorLevelOutOfBounds = ''level out of bounds''"

definition ErrorNoInit :: string where
  "ErrorNoInit = ''stopChan is not init''"

text \<open>\<open>PreStop\<close>, once it has the mutex: the check comes before the lock.\<close>

definition PreStop :: "Handler \<Rightarrow> nat \<Rightarrow> nat \<Rightarrow> Handler go" where
  "PreStop s level f =
     (if level > LevelMax then Panic ErrorLevelOutOfBounds
      else Ret (s\<lparr>preStopFuncs := (preStopFuncs s)(level := preStopFuncs s level @ [f])\<rparr>))"

text \<open>The process-wide handler: nil until \<open>SetupSignalHandler\<close>, which only its first call executes.\<close>

definition new_handler :: Handler where
  "new_handler = \<lparr>closed = False, holder = None, wgs = (\<lambda>_. 0), preStopFuncs = (\<lambda>_. []), pcs = (\<lambda>_. Idle),
     timers = [], hooklog = [], exits = 0, crash = None\<rparr>"

definition SetupSignalHandler :: "Handler option \<Rightarrow> Handler" where
  "SetupSignalHandler stopHandler = (case stopHandler of None \<Rightarrow> new_handler | Some h \<Rightarrow> h)"

definition SignalHandler :: "Handler option \<Rightarrow> Handler go" where
  "SignalHandler stopHandler = (case stopHandler of None \<Rightarrow> Panic ErrorNoInit | Some h \<Rightarrow> Ret h)"

section \<open>The shutdown as a step relation\<close>

abbreviation goto :: "nat \<Rightarrow> pc \<Rightarrow> Handler \<Rightarrow> Handler" where
  "goto t p s \<equiv> s\<lparr>pcs := (pcs s)(t := p)\<rparr>"

text \<open>
  One step of the program. The flag \<open>returns\<close> says whether \<open>exitFunc\<close> comes back to its caller;
  \<open>os.Exit\<close>, the default, does not, and nothing runs after it.
\<close>

definition running :: "bool \<Rightarrow> Handler \<Rightarrow> bool" where
  "running returns s \<longleftrightarrow> crash s = None \<and> (exits s = 0 \<or> returns)"

inductive step :: "bool \<Rightarrow> Handler \<Rightarrow> Handler \<Rightarrow> bool" for returns :: bool where
  call: "running returns s \<Longrightarrow> pcs s t = Idle \<Longrightarrow>
    step returns s (goto t Lock (s\<lparr>timers := t # timers s\<rparr>))"
| timeout: "running returns s \<Longrightarrow> t \<in> set (timers s) \<Longrightarrow>
    step returns s (s\<lparr>timers := remove1 t (timers s), exits := exits s + 1\<rparr>)"
| lock: "running returns s \<Longrightarrow> pcs s t = Lock \<Longrightarrow> holder s = None \<Longrightarrow>
    step returns s (goto t Closing (s\<lparr>holder := Some t\<rparr>))"
| close: "running returns s \<Longrightarrow> pcs s t = Closing \<Longrightarrow> \<not> closed s \<Longrightarrow>
    step returns s (goto t (Level LevelMax) (s\<lparr>closed := True\<rparr>))"
| close_closed: "running returns s \<Longrightarrow> pcs s t = Closing \<Longrightarrow> closed s \<Longrightarrow>
    step returns s (s\<lparr>crash := Some ''close of closed channel''\<rparr>)"
| start_hooks: "running returns s \<Longrightarrow> pcs s t = Level l \<Longrightarrow>
    step returns s (goto t (Hooks l (preStopFuncs s l)) s)"
| hook_done: "running returns s \<Longrightarrow> pcs s t = Hooks l fs \<Longrightarrow> f \<in> set fs \<Longrightarrow>
    step returns s (goto t (Hooks l (remove1 f fs)) (s\<lparr>hooklog := hooklog s @ [(l, f)]\<rparr>))"
| hooks_done: "running returns s \<Longrightarrow> pcs s t = Hooks l [] \<Longrightarrow>
    step returns s (goto t (WaitLevel l) s)"
| waited: "running returns s \<Longrightarrow> pcs s t = WaitLevel l \<Longrightarrow> WaitFor_enabled s l \<Longrightarrow>
    step returns s (goto t (if l = 0 then Exiting else Level (l - 1)) s)"
| exit: "running returns s \<Longrightarrow> pcs s t = Exiting \<Longrightarrow>
    step returns s (goto t Finished (s\<lparr>holder := None, exits := exits s + 1\<rparr>))"
| add_for: "running returns s \<Longrightarrow> AddFor s l d = Ret s' \<Longrightarrow> step returns s s'"
| add_for_panics: "running returns s \<Longrightarrow> AddFor s l d = Panic m \<Longrightarrow> step returns s (s\<lparr>crash := Some m\<rparr>)"
| pre_stop: "running returns s \<Longrightarrow> holder s = None \<Longrightarrow> PreStop s l f = Ret s' \<Longrightarrow> step returns s s'"

inductive reachable :: "bool \<Rightarrow> Handler \<Rightarrow> bool" for returns :: bool where
  init: "reachable returns new_handler"
| more: "reachable returns s \<Longrightarrow> step returns s s' \<Longrightarrow> reachable returns s'"

inductive_cases step_cases: "step returns s s'"

section \<open>The invariant\<close>

text \<open>The hooks that levels from \<open>l\<close> up have to run, and how far the holder of the mutex has come.\<close>

definition due :: "(nat \<Rightarrow> nat list) \<Rightarrow> nat \<Rightarrow> (nat \<times> nat) list" where
  "due funcs l = concat (map (\<lambda>k. map (Pair k) (funcs k)) [l..<LevelMax + 1])"

fun progress :: "(nat \<Rightarrow> nat list) \<Rightarrow> (nat \<times> nat) list \<Rightarrow> bool \<Rightarrow> pc \<Rightarrow> bool" where
  "progress funcs hs cl Closing \<longleftrightarrow> hs = [] \<and> \<not> cl"
| "progress funcs hs cl (Level l) \<longleftrightarrow> cl \<and> l \<le> LevelMax \<and> mset hs = mset (due funcs (l + 1)) \<and> (\<forall>h\<in>set hs. l < fst h)"
| "progress funcs hs cl (Hooks l fs) \<longleftrightarrow> cl \<and> l \<le> LevelMax \<and> mset hs + mset (map (Pair l) fs) = mset (due funcs l) \<and>
     (\<forall>h\<in>set hs. l \<le> fst h)"
| "progress funcs hs cl (WaitLevel l) \<longleftrightarrow> cl \<and> l \<le> LevelMax \<and> mset hs = mset (due funcs l) \<and> (\<forall>h\<in>set hs. l \<le> fst h)"
| "progress funcs hs cl Exiting \<longleftrightarrow> cl \<and> mset hs = mset (due funcs 0)"
| "progress funcs hs cl _ \<longleftrightarrow> False"

fun holding :: "pc \<Rightarrow> bool" where
  "holding Idle = False"
| "holding Lock = False"
| "holding Finished = False"
| "holding _ = True"

definition shutdown_inv :: "Handler \<Rightarrow> bool" where
  "shutdown_inv s \<longleftrightarrow>
     sorted_wrt (\<lambda>a b. fst b \<le> fst a) (hooklog s) \<and>
     (\<forall>t. holding (pcs s t) \<longleftrightarrow> holder s = Some t) \<and>
     (case holder s of
        None \<Rightarrow> exits s = 0 \<longrightarrow> hooklog s = [] \<and> \<not> closed s
      | Some t \<Rightarrow> progress (preStopFuncs s) (hooklog s) (closed s) (pcs s t)) \<and>
     crash s \<noteq> Some ''close of closed channel''"

text \<open>The parts of the invariant, as the proofs use them.\<close>

lemma inv_sorted: "shutdown_inv s \<Longrightarrow> sorted_wrt (\<lambda>a b. fst b \<le> fst a) (hooklog s)"
  by (simp add: shutdown_inv_def)

lemma inv_holder: "shutdown_inv s \<Longrightarrow> holding (pcs s t) \<longleftrightarrow> holder s = Some t"
  by (simp add: shutdown_inv_def)

lemma inv_progress:
  assumes "shutdown_inv s" "holding (pcs s t)"
  shows "progress (preStopFuncs s) (hooklog s) (closed s) (pcs s t)"
  using assms inv_holder [OF assms(1), of t] unfolding shutdown_inv_def by (metis option.simps(5))

lemma inv_free: "shutdown_inv s \<Longrightarrow> holder s = None \<Longrightarrow> exits s = 0 \<Longrightarrow> hooklog s = [] \<and> \<not> closed s"
  by (simp add: shutdown_inv_def)

lemma inv_crash: "shutdown_inv s \<Longrightarrow> crash s \<noteq> Some ''close of closed channel''"
  by (simp add: shutdown_inv_def)

lemmas inv_parts = inv_sorted inv_holder inv_crash

text \<open>A step of the holder \<open>t\<close> that keeps the mutex.\<close>

lemma inv_holder_moves:
  assumes inv: "shutdown_inv s" and t: "holding (pcs s t)" "holding p"
    and s': "holder s' = holder s" "pcs s' = (pcs s)(t := p)" "crash s' = crash s"
      "sorted_wrt (\<lambda>a b. fst b \<le> fst a) (hooklog s')"
      "progress (preStopFuncs s') (hooklog s') (closed s') p"
  shows "shutdown_inv s'"
proof -
  have "holder s' = Some t" using inv_holder [OF inv] t(1) s'(1) by simp
  moreover have "holding (pcs s' u) \<longleftrightarrow> holder s' = Some u" for u
    using inv_holder [OF inv, of u] inv_holder [OF inv, of t] t s'(1,2) by simp
  ultimately show ?thesis using s' inv_crash [OF inv] unfolding shutdown_inv_def by simp
qed

lemma due_step: "l \<le> LevelMax \<Longrightarrow> due funcs l = map (Pair l) (funcs l) @ due funcs (l + 1)"
  by (simp add: due_def upt_conv_Cons del: upt_Suc)

lemma due_end: "due funcs (LevelMax + 1) = []"
  by (simp add: due_def del: upt_Suc)

lemma inv_init: "shutdown_inv new_handler"
  by (simp add: shutdown_inv_def new_handler_def)

lemma inv_step:
  assumes "step False s s'" "shutdown_inv s"
  shows "shutdown_inv s'"
  using assms(1)
proof (cases rule: step.cases)
  case (call t)
  then have "holding (pcs s' u) \<longleftrightarrow> holder s' = Some u" for u
    using inv_holder [OF assms(2), of u] by auto
  moreover have "pcs s' u = pcs s u" if "holder s = Some u" for u
    using inv_holder [OF assms(2), of u] that call by auto
  ultimately show ?thesis using call assms(2) unfolding shutdown_inv_def by (auto split: option.splits)
next
  case (timeout t)
  then show ?thesis using assms(2) unfolding shutdown_inv_def by (auto split: option.splits)
next
  case (lock t)
  then have "holding (pcs s' u) \<longleftrightarrow> holder s' = Some u" for u
    using inv_holder [OF assms(2), of u] by auto
  moreover have "hooklog s = []" "\<not> closed s"
    using inv_free [OF assms(2)] lock by (auto simp: running_def)
  ultimately show ?thesis using lock assms(2) unfolding shutdown_inv_def by auto
next
  case (close t)
  show ?thesis
    by (rule inv_holder_moves [OF assms(2), of t "Level LevelMax"])
       (use close inv_progress [OF assms(2), of t] inv_sorted [OF assms(2)] due_end in auto)
next
  case (close_closed t)
  then show ?thesis using inv_progress [OF assms(2), of t] by simp
next
  case (start_hooks t l)
  show ?thesis
    by (rule inv_holder_moves [OF assms(2), of t "Hooks l (preStopFuncs s l)"])
       (use start_hooks inv_progress [OF assms(2), of t] inv_sorted [OF assms(2)] in \<open>auto simp: due_step\<close>)
next
  case (hook_done t l fs f)
  have one: "add_mset (l, f) (mset (map (Pair l) (remove1 f fs))) = mset (map (Pair l) fs)"
    using hook_done(4) by (simp flip: image_mset_add_mset add: insert_DiffM)
  have "mset (hooklog s @ [(l, f)]) + mset (map (Pair l) (remove1 f fs)) =
      mset (hooklog s) + add_mset (l, f) (mset (map (Pair l) (remove1 f fs)))" by simp
  also have "\<dots> = mset (due (preStopFuncs s) l)"
    unfolding one using hook_done inv_progress [OF assms(2), of t] by simp
  finally have "mset (hooklog s @ [(l, f)]) + mset (map (Pair l) (remove1 f fs)) = mset (due (preStopFuncs s) l)" .
  then show ?thesis
    by (intro inv_holder_moves [OF assms(2), of t "Hooks l (remove1 f fs)"])
       (use hook_done inv_progress [OF assms(2), of t] inv_sorted [OF assms(2)] in \<open>auto simp: sorted_wrt_append simp del: mset_append mset_map mset_remove1\<close>)
next
  case (hooks_done t l)
  show ?thesis
    by (rule inv_holder_moves [OF assms(2), of t "WaitLevel l"])
       (use hooks_done inv_progress [OF assms(2), of t] inv_sorted [OF assms(2)] in auto)
next
  case (waited t l)
  show ?thesis
    by (rule inv_holder_moves [OF assms(2), of t "if l = 0 then Exiting else Level (l - 1)"])
       (use waited inv_progress [OF assms(2), of t] inv_sorted [OF assms(2)] in auto)
next
  case (exit t)
  then have "holding (pcs s' u) \<longleftrightarrow> holder s' = Some u" for u
    using inv_holder [OF assms(2), of u] inv_holder [OF assms(2), of t] by auto
  then show ?thesis using exit assms(2) unfolding shutdown_inv_def by auto
next
  case (add_for l d)
  then show ?thesis using assms(2) unfolding shutdown_inv_def
    by (auto simp: AddFor_def split: if_splits option.splits)
next
  case (add_for_panics l d m)
  then show ?thesis using assms(2) unfolding shutdown_inv_def
    by (auto simp: AddFor_def split: if_splits option.splits)
next
  case (pre_stop l f)
  then show ?thesis using assms(2) unfolding shutdown_inv_def by (auto simp: PreStop_def split: if_splits)
qed

lemma inv_reachable: "reachable False s \<Longrightarrow> shutdown_inv s"
  by (induction rule: reachable.induct) (auto intro: inv_init inv_step)

section \<open>Properties\<close>

text \<open>
  C3: graceful shutdown with \<open>os.Exit\<close>, for any number of concurrent callers of \<open>SafeStop\<close> and any
  interleaving with the rest of the program: hooks finish in descending order of their levels, and
  when a caller is about to exit, the stop channel is closed and every registered hook of every
  level has finished exactly once.
\<close>

theorem shutdown_runs_all_hooks:
  assumes "reachable False s"
  shows "sorted_wrt (\<lambda>a b. fst b \<le> fst a) (hooklog s) \<and>
    (pcs s t = Exiting \<longrightarrow> closed s \<and> mset (hooklog s) = mset (due (preStopFuncs s) 0))"
proof -
  have inv: "shutdown_inv s" by (rule inv_reachable [OF assms])
  show ?thesis using inv_sorted [OF inv] inv_progress [OF inv, of t] by auto
qed

text \<open>
  with \<open>os.Exit\<close> no caller of \<open>SafeStop\<close> closes the stop channel a second time, however many there
  are: the mutex is only released by the process ending.
\<close>

theorem shutdown_closes_once:
  assumes "reachable False s"
  shows "crash s \<noteq> Some ''close of closed channel'' \<and>
    (pcs s t = Closing \<longrightarrow> \<not> closed s) \<and> (holding (pcs s t) \<and> holding (pcs s t') \<longrightarrow> t = t')"
proof -
  have inv: "shutdown_inv s" by (rule inv_reachable [OF assms])
  show ?thesis
    using inv_crash [OF inv] inv_progress [OF inv, of t] inv_holder [OF inv, of t] inv_holder [OF inv, of t'] by auto
qed

lemma three_steps: "reachable r a \<Longrightarrow> step r a b \<Longrightarrow> step r b c \<Longrightarrow> step r c d \<Longrightarrow> reachable r d"
  by (meson reachable.more)

text \<open>A run of one caller through all levels when there is nothing to wait for.\<close>

lemma descend:
  assumes "reachable r s" "running r s" "pcs s t = Level l" "\<And>k. preStopFuncs s k = []" "\<And>k. wgs s k = 0"
  shows "reachable r (goto t Exiting s)"
  using assms
proof (induction l arbitrary: s)
  case 0
  have 1: "step r s (goto t (Hooks 0 (preStopFuncs s 0)) s)" using 0 by (intro step.start_hooks)
  have 2: "step r (goto t (Hooks 0 []) s) (goto t (WaitLevel 0) (goto t (Hooks 0 []) s))"
    using 0 by (intro step.hooks_done) (auto simp: running_def)
  have 3: "step r (goto t (WaitLevel 0) s) (goto t (if 0 = (0::nat) then Exiting else Level (0 - 1)) (goto t (WaitLevel 0) s))"
    using 0 by (intro step.waited) (auto simp: running_def WaitFor_enabled_def)
  have 4: "step r (goto t (Hooks 0 (preStopFuncs s 0)) s) (goto t (WaitLevel 0) s)" using 2 0(4) by simp
  have 5: "step r (goto t (WaitLevel 0) s) (goto t Exiting s)" using 3 by simp
  show ?case by (rule three_steps [OF 0(1) 1 4 5])
next
  case (Suc l)
  have 1: "step r s (goto t (Hooks (Suc l) (preStopFuncs s (Suc l))) s)" using Suc by (intro step.start_hooks)
  have 2: "step r (goto t (Hooks (Suc l) []) s) (goto t (WaitLevel (Suc l)) (goto t (Hooks (Suc l) []) s))"
    using Suc by (intro step.hooks_done) (auto simp: running_def)
  have 3: "step r (goto t (WaitLevel (Suc l)) s)
      (goto t (if Suc l = 0 then Exiting else Level (Suc l - 1)) (goto t (WaitLevel (Suc l)) s))"
    using Suc by (intro step.waited) (auto simp: running_def WaitFor_enabled_def)
  have 4: "step r (goto t (Hooks (Suc l) (preStopFuncs s (Suc l))) s) (goto t (WaitLevel (Suc l)) s)"
    using 2 Suc(5) by simp
  have 5: "step r (goto t (WaitLevel (Suc l)) s) (goto t (Level l) s)" using 3 by simp
  have "reachable r (goto t (Level l) s)" by (rule three_steps [OF Suc(2) 1 4 5])
  then have "reachable r (goto t Exiting (goto t (Level l) s))"
    by (rule Suc.IH) (use Suc in \<open>simp_all add: running_def\<close>)
  moreover have "goto t Exiting (goto t (Level l) s) = goto t Exiting s" by simp
  ultimately show ?case by metis
qed

lemma first_stop:
  "\<exists>s. reachable r s \<and> running r s \<and> pcs s 0 = Exiting \<and> pcs s 1 = Idle \<and> closed s \<and>
       mset (hooklog s) = mset (due (preStopFuncs s) 0)"
proof -
  let ?s1 = "goto 0 Lock (new_handler\<lparr>timers := [0]\<rparr>)"
  let ?s2 = "goto 0 Closing (?s1\<lparr>holder := Some 0\<rparr>)"
  let ?s3 = "goto 0 (Level LevelMax) (?s2\<lparr>closed := True\<rparr>)"
  have "step r new_handler ?s1" using step.call [of r new_handler 0] by (simp add: running_def new_handler_def)
  moreover have "step r ?s1 ?s2" by (rule step.lock) (simp_all add: running_def new_handler_def)
  moreover have "step r ?s2 ?s3" by (rule step.close) (simp_all add: running_def new_handler_def)
  ultimately have "reachable r ?s3" by (metis reachable.init reachable.more)
  then have "reachable r (goto 0 Exiting ?s3)"
    by (rule descend) (simp_all add: running_def new_handler_def)
  moreover have "due (\<lambda>_. []) 0 = []" by (simp add: due_def del: upt_Suc)
  ultimately show ?thesis
    by (intro exI [of _ "goto 0 Exiting ?s3"]) (simp add: running_def new_handler_def)
qed

theorem shutdown_runs_all_hooks_witness:
  "\<exists>s. reachable False s \<and> pcs s 0 = Exiting \<and> closed s"
proof -
  obtain s where s: "reachable False s" "pcs s 0 = Exiting" using first_stop by blast
  show ?thesis using shutdown_runs_all_hooks [OF s(1), of 0] s by blast
qed

theorem shutdown_closes_once_witness:
  "\<exists>s. reachable False s \<and> holding (pcs s 0) \<and> crash s \<noteq> Some ''close of closed channel''"
proof -
  obtain s where s: "reachable False s" "pcs s 0 = Exiting" using first_stop by blast
  show ?thesis using shutdown_closes_once [OF s(1), of 0 0] s by auto
qed

text \<open>
  if \<open>exitFunc\<close> returns, as the replaceable \<open>ExitFunc\<close> of package \<open>w\<close> may, a second caller of
  \<open>SafeStop\<close> takes the mutex after the first and panics on closing the channel again.
\<close>

theorem shutdown_second_stop_panics:
  "\<exists>s. reachable True s \<and> crash s = Some ''close of closed channel''"
proof -
  obtain s where s: "reachable True s" "running True s" "pcs s 0 = Exiting" "pcs s 1 = Idle" "closed s"
    using first_stop by blast
  let ?a = "goto 0 Finished (s\<lparr>holder := None, exits := exits s + 1\<rparr>)"
  let ?b = "goto 1 Lock (?a\<lparr>timers := 1 # timers ?a\<rparr>)"
  let ?c = "goto 1 Closing (?b\<lparr>holder := Some 1\<rparr>)"
  let ?d = "?c\<lparr>crash := Some ''close of closed channel''\<rparr>"
  have "step True s ?a" using s by (intro step.exit)
  moreover have "step True ?a ?b" using s by (intro step.call) (simp_all add: running_def)
  moreover have "step True ?b ?c" using s by (intro step.lock) (simp_all add: running_def)
  moreover have "step True ?c ?d" using s by (intro step.close_closed [where t = 1]) (simp_all add: running_def)
  ultimately have "reachable True ?d" using s(1) by (metis reachable.more)
  then show ?thesis by (intro exI [of _ ?d]) simp
qed

section \<open>A stop can be carried to its end\<close>

lemma run_hooks:
  "running r s \<Longrightarrow> pcs s t = Hooks l fs \<Longrightarrow> \<exists>hl. (step r)\<^sup>*\<^sup>* s (goto t (Hooks l []) (s\<lparr>hooklog := hl\<rparr>))"
proof (induction fs arbitrary: s)
  case Nil
  then have "goto t (Hooks l []) (s\<lparr>hooklog := hooklog s\<rparr>) = s" by (simp add: fun_upd_idem)
  then show ?case by (metis rtranclp.rtrancl_refl)
next
  case (Cons f fs)
  let ?s1 = "goto t (Hooks l fs) (s\<lparr>hooklog := hooklog s @ [(l, f)]\<rparr>)"
  have "step r s ?s1" using step.hook_done [OF Cons.prems, of f] by simp
  moreover have "running r ?s1" "pcs ?s1 t = Hooks l fs" using Cons.prems(1) by (simp_all add: running_def)
  then obtain hl where "(step r)\<^sup>*\<^sup>* ?s1 (goto t (Hooks l []) (?s1\<lparr>hooklog := hl\<rparr>))"
    using Cons.IH [of ?s1] by blast
  moreover have "goto t (Hooks l []) (?s1\<lparr>hooklog := hl\<rparr>) = goto t (Hooks l []) (s\<lparr>hooklog := hl\<rparr>)" by simp
  ultimately show ?case by (metis converse_rtranclp_into_rtranclp)
qed

lemma run_level:
  assumes "running r s" "pcs s t = Level l" "wgs s l = 0"
  shows "\<exists>hl. (step r)\<^sup>*\<^sup>* s (goto t (if l = 0 then Exiting else Level (l - 1)) (s\<lparr>hooklog := hl\<rparr>))"
proof -
  let ?s1 = "goto t (Hooks l (preStopFuncs s l)) s"
  have 1: "step r s ?s1" using assms by (intro step.start_hooks)
  obtain hl where 2: "(step r)\<^sup>*\<^sup>* ?s1 (goto t (Hooks l []) (?s1\<lparr>hooklog := hl\<rparr>))"
    using run_hooks [of r ?s1 t l] assms(1) by (auto simp: running_def)
  let ?s2 = "goto t (Hooks l []) (?s1\<lparr>hooklog := hl\<rparr>)"
  have 3: "step r ?s2 (goto t (WaitLevel l) ?s2)" using assms(1) by (intro step.hooks_done) (simp_all add: running_def)
  let ?p = "if l = 0 then Exiting else Level (l - 1)"
  have 4: "step r (goto t (WaitLevel l) ?s2) (goto t ?p (goto t (WaitLevel l) ?s2))"
    using assms by (intro step.waited) (simp_all add: running_def WaitFor_enabled_def)
  have "goto t ?p (goto t (WaitLevel l) ?s2) = goto t ?p (s\<lparr>hooklog := hl\<rparr>)" by simp
  then have "(step r)\<^sup>*\<^sup>* s (goto t ?p (s\<lparr>hooklog := hl\<rparr>))"
    using 1 2 3 4 by (metis (no_types, lifting) converse_rtranclp_into_rtranclp rtranclp.rtrancl_into_rtrancl)
  then show ?thesis by blast
qed

lemma run_levels:
  "running r s \<Longrightarrow> pcs s t = Level l \<Longrightarrow> (\<And>k. wgs s k = 0) \<Longrightarrow> \<exists>u. (step r)\<^sup>*\<^sup>* s u \<and> pcs u t = Exiting"
proof (induction l arbitrary: s)
  case 0
  obtain hl where "(step r)\<^sup>*\<^sup>* s (goto t Exiting (s\<lparr>hooklog := hl\<rparr>))" using run_level [OF 0(1,2,3)] by auto
  then show ?case by (intro exI [of _ "goto t Exiting (s\<lparr>hooklog := hl\<rparr>)"]) simp
next
  case (Suc l)
  obtain hl where 1: "(step r)\<^sup>*\<^sup>* s (goto t (Level l) (s\<lparr>hooklog := hl\<rparr>))" using run_level [OF Suc.prems] by auto
  have "\<exists>u. (step r)\<^sup>*\<^sup>* (goto t (Level l) (s\<lparr>hooklog := hl\<rparr>)) u \<and> pcs u t = Exiting"
    using Suc.prems by (intro Suc.IH) (simp_all add: running_def)
  then show ?case using 1 by (metis rtranclp_trans)
qed

lemma can_stop_locked:
  assumes "running r s" "pcs s t = Lock" "holder s = None" "\<not> closed s" "\<And>k. wgs s k = 0"
  shows "\<exists>u. (step r)\<^sup>*\<^sup>* s u \<and> pcs u t = Exiting"
proof -
  let ?s2 = "goto t Closing (s\<lparr>holder := Some t\<rparr>)"
  let ?s3 = "goto t (Level LevelMax) (?s2\<lparr>closed := True\<rparr>)"
  have "step r s ?s2" using assms by (intro step.lock)
  moreover have "step r ?s2 ?s3" using assms by (intro step.close) (simp_all add: running_def)
  ultimately have "(step r)\<^sup>*\<^sup>* s ?s3" by (meson converse_rtranclp_into_rtranclp rtranclp.rtrancl_refl)
  moreover have "running r ?s3" "pcs ?s3 t = Level LevelMax" "wgs ?s3 k = 0" for k
    using assms by (simp_all add: running_def)
  then obtain u where "(step r)\<^sup>*\<^sup>* ?s3 u" "pcs u t = Exiting"
    using run_levels [of r ?s3 t LevelMax] by blast
  ultimately show ?thesis by (meson rtranclp_trans)
qed

lemma can_stop:
  assumes "running r s" "pcs s t = Idle" "holder s = None" "\<not> closed s" "\<And>k. wgs s k = 0"
  shows "\<exists>u. (step r)\<^sup>*\<^sup>* s u \<and> pcs u t = Exiting"
proof -
  let ?s1 = "goto t Lock (s\<lparr>timers := t # timers s\<rparr>)"
  have "step r s ?s1" using assms by (intro step.call)
  moreover obtain u where "(step r)\<^sup>*\<^sup>* ?s1 u" "pcs u t = Exiting"
    using can_stop_locked [of r ?s1 t] assms by (auto simp: running_def)
  ultimately show ?thesis by (meson converse_rtranclp_into_rtranclp)
qed

lemma reachable_steps: "(step r)\<^sup>*\<^sup>* s u \<Longrightarrow> reachable r s \<Longrightarrow> reachable r u"
  by (induction rule: rtranclp_induct) (auto intro: reachable.more)

lemma hooks_stay: "(step r)\<^sup>*\<^sup>* s u \<Longrightarrow> f \<in> set (preStopFuncs s l) \<Longrightarrow> f \<in> set (preStopFuncs u l)"
proof (induction rule: rtranclp_induct)
  case (step u v)
  from step(2) have "set (preStopFuncs u l) \<subseteq> set (preStopFuncs v l)"
    by (cases rule: step.cases) (auto simp: AddFor_def PreStop_def split: if_splits)
  then show ?case using step by blast
qed

lemma due_mem: "f \<in> set (funcs l) \<Longrightarrow> l \<le> LevelMax \<Longrightarrow> (l, f) \<in> set (due funcs 0)"
  by (auto simp: due_def simp del: upt_Suc)

text \<open>A hook that is registered while no stop is going on has run when a caller is about to exit.\<close>

lemma registered_hook_runs:
  assumes "reachable False s" "running False s" "holder s = None" "PreStop s l f = Ret s'"
    and "(step False)\<^sup>*\<^sup>* s' u" "pcs u t = Exiting"
  shows "(l, f) \<in> set (hooklog u)"
proof -
  have "l \<le> LevelMax" "f \<in> set (preStopFuncs s' l)" using assms(4) by (auto simp: PreStop_def split: if_splits)
  moreover have "reachable False u"
    using assms by (meson reachable.more reachable_steps step.pre_stop)
  ultimately show ?thesis
    using inv_progress [OF inv_reachable, of u t] assms(5,6) hooks_stay due_mem
    by (metis holding.simps(8) mset_eq_setD progress.simps(5))
qed

section \<open>The remaining methods\<close>

text \<open>A wait group that was never used is made on the first use and counts 0.\<close>

definition getWaitGroup :: "Handler \<Rightarrow> nat \<Rightarrow> int" where
  "getWaitGroup s level = wgs s level"

definition WaitRequest_enabled :: "Handler \<Rightarrow> bool" where
  "WaitRequest_enabled s \<longleftrightarrow> WaitFor_enabled s LevelRequest"

definition Wait_enabled :: "Handler \<Rightarrow> bool" where
  "Wait_enabled s \<longleftrightarrow> WaitFor_enabled s LevelRoot"

text \<open>Whether a receive from the channel returns.\<close>

definition Channel_closed :: "Handler \<Rightarrow> bool" where
  "Channel_closed s \<longleftrightarrow> closed s"

text \<open>The call of \<open>SafeStop\<close> by goroutine \<open>t\<close>: it starts the timer and goes on to wait for the mutex.\<close>

definition SafeStop :: "nat \<Rightarrow> Handler \<Rightarrow> Handler" where
  "SafeStop t s = goto t Lock (s\<lparr>timers := t # timers s\<rparr>)"

lemma SafeStop_step: "running r s \<Longrightarrow> pcs s t = Idle \<Longrightarrow> step r s (SafeStop t s)"
  unfolding SafeStop_def by (rule step.call)

text \<open>The channel stays closed once the stop has begun.\<close>

lemma channel_stays_closed: "(step r)\<^sup>*\<^sup>* s u \<Longrightarrow> Channel_closed s \<Longrightarrow> Channel_closed u"
proof (induction rule: rtranclp_induct)
  case (step u v)
  from step(2) have "closed u \<Longrightarrow> closed v"
    by (cases rule: step.cases) (auto simp: AddFor_def PreStop_def split: if_splits)
  then show ?case using step by (simp add: Channel_closed_def)
qed

section \<open>What is made with a shutdown hook\<close>

text \<open>Hooks of different levels that have both run have run in descending order of the levels.\<close>

lemma hooklog_order:
  assumes "reachable False u" "(l, f) \<in> set (hooklog u)" "(k, g) \<in> set (hooklog u)" "k < l"
  shows "\<exists>xs ys. hooklog u = xs @ (k, g) # ys \<and> (l, f) \<in> set xs"
proof -
  obtain xs ys where split: "hooklog u = xs @ (k, g) # ys" using assms(3) by (meson split_list)
  have "(l, f) \<notin> set ys"
    using inv_sorted [OF inv_reachable [OF assms(1)]] assms(4) unfolding split by (auto simp: sorted_wrt_append)
  then have "(l, f) \<in> set xs" using assms(2,4) unfolding split by auto
  then show ?thesis using split by blast
qed

text \<open>
  The contract of the constructors that register a shutdown hook: \<open>make hook\<close> runs one on a state that carries
  the process-wide handler, and when it succeeds it has called \<open>PreStop\<close> once, at its level. Its client gets
  what the shutdown owes to a hook.
\<close>

locale closes_on_shutdown =
  fixes make :: "nat \<Rightarrow> 's \<Rightarrow> ('s \<times> ('e + 'c)) go"
    and stop :: "'s \<Rightarrow> Handler option"
    and lvl :: nat
  assumes made: "make hook s = Ret (s', Inr c) \<Longrightarrow> stop s = Some h \<Longrightarrow>
    \<exists>h'. PreStop h lvl hook = Ret h' \<and> stop s' = Some h'"
begin

lemma hook_added:
  assumes "make hook s = Ret (s', Inr c)" "stop s = Some h" "reachable False h" "running False h" "holder h = None"
  obtains h' where "stop s' = Some h'" "reachable False h'" "hook \<in> set (preStopFuncs h' lvl)" "lvl \<le> LevelMax"
proof -
  obtain h' where h': "PreStop h lvl hook = Ret h'" "stop s' = Some h'" using made [OF assms(1,2)] by blast
  have "reachable False h'" using reachable.more [OF assms(3) step.pre_stop [OF assms(4,5) h'(1)]] .
  moreover have "hook \<in> set (preStopFuncs h' lvl)" "lvl \<le> LevelMax"
    using h'(1) by (auto simp: PreStop_def split: if_splits)
  ultimately show thesis using that h'(2) by blast
qed

lemma hook_runs:
  assumes "make hook s = Ret (s', Inr c)" "stop s = Some h" "reachable False h" "running False h" "holder h = None"
    and "stop s' = Some h'" "(step False)\<^sup>*\<^sup>* h' u" "pcs u t = Exiting"
  shows "(lvl, hook) \<in> set (hooklog u)"
  using registered_hook_runs [OF assms(3-5) _ assms(7,8)] made [OF assms(1,2)] assms(6) by auto

end

text \<open>Two such constructors whose levels differ, called one after the other with the program in between.\<close>

locale closes_in_order =
  inner: closes_on_shutdown make_low stop_low low + outer: closes_on_shutdown make_high stop_high high
  for make_low :: "nat \<Rightarrow> 's \<Rightarrow> ('s \<times> ('e + 'c)) go" and stop_low low
    and make_high :: "nat \<Rightarrow> 't \<Rightarrow> ('t \<times> ('f + 'd)) go" and stop_high high +
  assumes levels: "low < high"
begin

lemma high_before_low:
  assumes "make_low hook s = Ret (s', Inr c)" "stop_low s = Some h" "reachable False h" "running False h" "holder h = None"
    and "stop_low s' = Some h'" "(step False)\<^sup>*\<^sup>* h' g"
    and "make_high hook2 t = Ret (t', Inr d)" "stop_high t = Some g" "running False g" "holder g = None"
    and "stop_high t' = Some g'" "(step False)\<^sup>*\<^sup>* g' u" "pcs u i = Exiting"
  shows "\<exists>xs ys. hooklog u = xs @ (low, hook) # ys \<and> (high, hook2) \<in> set xs"
proof -
  have g: "reachable False g"
    using inner.hook_added [OF assms(1-5)] assms(6,7) reachable_steps by (metis option.inject)
  have step: "step False g g'"
    using outer.made [OF assms(8,9)] step.pre_stop [OF assms(10,11)] assms(12) by auto
  have u: "reachable False u" using reachable.more [OF g step] reachable_steps [OF assms(13)] by blast
  have "(high, hook2) \<in> set (hooklog u)" by (rule outer.hook_runs [OF assms(8,9) g assms(10-14)])
  moreover have "(step False)\<^sup>*\<^sup>* h' u" using assms(7,13) step by (meson rtranclp.rtrancl_into_rtrancl rtranclp_trans)
  then have "(low, hook) \<in> set (hooklog u)" by (rule inner.hook_runs [OF assms(1-6) _ assms(14)])
  ultimately show ?thesis using hooklog_order [OF u _ _ levels] by blast
qed

end

end
