(* ===== verification/Http.thy ===== *)
theory Http
  imports GoPrelude
begin

text \<open>
  Package \<open>http\<close> (\<open>http/http.go\<close>) and the IP networks of package \<open>sets\<close> it relies on
  (\<open>sets/sets.go\<close>, from \<open>IPNet\<close> on). The functions of package \<open>net\<close> that decide which client
  address is reported (\<open>ParseIP\<close>, \<open>ParseCIDR\<close>, \<open>IPNet.Contains\<close>, \<open>IsGlobalUnicast\<close>,
  \<open>IsPrivate\<close>) are written out on byte sequences as the standard library has them.
\<close>

unbundle bit_operations_syntax

section \<open>Package net: addresses\<close>

type_synonym ip = "byte list"

definition v4InV6Prefix :: "byte list" where
  "v4InV6Prefix = replicate 10 0 @ [0xff, 0xff]"

definition To4 :: "ip \<Rightarrow> ip option" where
  "To4 ip =
     (if length ip = 4 then Some ip
      else if length ip = 16 \<and> take 12 ip = v4InV6Prefix then Some (drop 12 ip)
      else None)"

definition IsPrivate :: "ip \<Rightarrow> bool" where
  "IsPrivate ip =
     (case To4 ip of
        Some q \<Rightarrow> q ! 0 = 10 \<or> (q ! 0 = 172 \<and> q ! 1 AND 0xf0 = 16) \<or> (q ! 0 = 192 \<and> q ! 1 = 168)
      | None \<Rightarrow> length ip = 16 \<and> ip ! 0 AND 0xfe = 0xfc)"

definition IsUnspecified :: "ip \<Rightarrow> bool" where
  "IsUnspecified ip \<longleftrightarrow> To4 ip = Some [0, 0, 0, 0] \<or> ip = replicate 16 0"

definition IsLoopback :: "ip \<Rightarrow> bool" where
  "IsLoopback ip =
     (case To4 ip of Some q \<Rightarrow> q ! 0 = 127 | None \<Rightarrow> ip = replicate 15 0 @ [1])"

definition IsMulticast :: "ip \<Rightarrow> bool" where
  "IsMulticast ip =
     (case To4 ip of Some q \<Rightarrow> q ! 0 AND 0xf0 = 0xe0 | None \<Rightarrow> length ip = 16 \<and> ip ! 0 = 0xff)"

definition IsLinkLocalUnicast :: "ip \<Rightarrow> bool" where
  "IsLinkLocalUnicast ip =
     (case To4 ip of
        Some q \<Rightarrow> q ! 0 = 169 \<and> q ! 1 = 254
      | None \<Rightarrow> length ip = 16 \<and> ip ! 0 = 0xfe \<and> ip ! 1 AND 0xc0 = 0x80)"

definition IsGlobalUnicast :: "ip \<Rightarrow> bool" where
  "IsGlobalUnicast ip \<longleftrightarrow>
     (length ip = 4 \<or> length ip = 16) \<and> To4 ip \<noteq> Some [255, 255, 255, 255] \<and>
     \<not> IsUnspecified ip \<and> \<not> IsLoopback ip \<and> \<not> IsMulticast ip \<and> \<not> IsLinkLocalUnicast ip"

text \<open>
  The dotted form: four fields of one to three digits, none above 255, no leading zero. The scan
  keeps the value and the number of digits of the current field and the fields already read.
\<close>

fun parseIPv4_loop :: "string \<Rightarrow> nat \<Rightarrow> nat \<Rightarrow> byte list \<Rightarrow> byte list option" where
  "parseIPv4_loop [] val digLen fields =
     (if length fields < 3 \<or> digLen = 0 then None else Some (fields @ [of_nat val]))"
| "parseIPv4_loop (c # cs) val digLen fields =
     (if is_digit c then
        if digLen = 1 \<and> val = 0 then None
        else if val * 10 + digit_val c > 255 then None
        else parseIPv4_loop cs (val * 10 + digit_val c) (digLen + 1) fields
      else if c = CHR ''.'' then
        if digLen = 0 \<or> cs = [] then None
        else if length fields = 3 then None
        else parseIPv4_loop cs 0 0 (fields @ [of_nat val])
      else None)"

definition parseIPv4 :: "string \<Rightarrow> byte list option" where
  "parseIPv4 s = parseIPv4_loop s 0 0 []"

definition hex_val :: "char \<Rightarrow> nat option" where
  "hex_val c =
     (let n = (of_char c :: nat) in
      if 48 \<le> n \<and> n \<le> 57 then Some (n - 48)
      else if 97 \<le> n \<and> n \<le> 102 then Some (n - 97 + 10)
      else if 65 \<le> n \<and> n \<le> 70 then Some (n - 65 + 10)
      else None)"

text \<open>A group of hexadecimal digits: the value, the number of digits and what follows.\<close>

fun hex_group :: "string \<Rightarrow> nat \<Rightarrow> nat \<Rightarrow> (nat \<times> nat \<times> string) option" where
  "hex_group [] acc off = Some (acc, off, [])"
| "hex_group (c # cs) acc off =
     (case hex_val c of
        None \<Rightarrow> Some (acc, off, c # cs)
      | Some d \<Rightarrow> if off > 3 then None else hex_group cs (acc * 16 + d) (off + 1))"

definition expand_ellipsis :: "byte list \<Rightarrow> nat option \<Rightarrow> ip option" where
  "expand_ellipsis bytes ellipsis =
     (if length bytes < 16
      then (case ellipsis of
              None \<Rightarrow> None
            | Some e \<Rightarrow> Some (take e bytes @ replicate (16 - length bytes) 0 @ drop e bytes))
      else if ellipsis \<noteq> None then None else Some bytes)"

text \<open>
  The loop over the groups. Each iteration adds two bytes and stops at 16, so the number of
  groups that may still follow bounds it; the address is complete only when the whole text has
  been read.
\<close>

fun parseIPv6_loop :: "nat \<Rightarrow> string \<Rightarrow> byte list \<Rightarrow> nat option \<Rightarrow> ip option" where
  "parseIPv6_loop 0 s bytes ellipsis = (if s \<noteq> [] then None else expand_ellipsis bytes ellipsis)"
| "parseIPv6_loop (Suc k) s bytes ellipsis =
     (case hex_group s 0 0 of
        None \<Rightarrow> None
      | Some (acc, off, rest) \<Rightarrow>
          if off = 0 then None
          else if rest \<noteq> [] \<and> hd rest = CHR ''.'' then
            if ellipsis = None \<and> length bytes \<noteq> 12 then None
            else if length bytes + 4 > 16 then None
            else (case parseIPv4 s of
                    None \<Rightarrow> None
                  | Some q \<Rightarrow> expand_ellipsis (bytes @ q) ellipsis)
          else
            let bytes' = bytes @ [of_nat (acc div 256), of_nat acc] in
            if rest = [] then expand_ellipsis bytes' ellipsis
            else if hd rest \<noteq> CHR '':'' \<or> tl rest = [] then None
            else if hd (tl rest) = CHR '':'' then
              if ellipsis \<noteq> None then None
              else if tl (tl rest) = [] then expand_ellipsis bytes' (Some (length bytes'))
              else parseIPv6_loop k (tl (tl rest)) bytes' (Some (length bytes'))
            else parseIPv6_loop k (tl rest) bytes' ellipsis)"

definition parseIPv6 :: "string \<Rightarrow> ip option" where
  "parseIPv6 s =
     (if take 2 s = ''::'' then
        if drop 2 s = [] then Some (replicate 16 0) else parseIPv6_loop 8 (drop 2 s) [] (Some 0)
      else parseIPv6_loop 8 s [] None)"

text \<open>
  \<open>netip.ParseAddr\<close>, which the first of the three separators directs. An address with a zone is
  refused by both callers, so a text with a percent sign has no address here. An IPv4 address
  comes with its 4 bytes.
\<close>

fun ParseAddr_scan :: "string \<Rightarrow> string \<Rightarrow> ip option" where
  "ParseAddr_scan [] s = None"
| "ParseAddr_scan (c # cs) s =
     (if c = CHR ''.'' then parseIPv4 s
      else if c = CHR '':'' then (if CHR ''%'' \<in> set s then None else parseIPv6 s)
      else if c = CHR ''%'' then None
      else ParseAddr_scan cs s)"

definition ParseAddr :: "string \<Rightarrow> ip option" where
  "ParseAddr s = ParseAddr_scan s s"

definition As16 :: "ip \<Rightarrow> ip" where
  "As16 ip = (if length ip = 4 then v4InV6Prefix @ ip else ip)"

definition ParseIP :: "string \<Rightarrow> ip option" where
  "ParseIP s = map_option As16 (ParseAddr s)"

section \<open>Package net: networks\<close>

record net_IPNet =
  net_IP :: ip
  net_Mask :: "byte list"

text \<open>\<open>CIDRMask(n, 8 * k)\<close>: \<open>n\<close> one bits, then zero bits.\<close>

primrec CIDRMask :: "nat \<Rightarrow> nat \<Rightarrow> byte list" where
  "CIDRMask n 0 = []"
| "CIDRMask n (Suc k) =
     (if n \<ge> 8 then 0xff # CIDRMask (n - 8) k
      else NOT (drop_bit n 0xff) # CIDRMask 0 k)"

definition IP_Mask :: "ip \<Rightarrow> byte list \<Rightarrow> ip" where
  "IP_Mask ip msk =
     (let msk' = (if length msk = 16 \<and> length ip = 4 \<and> take 12 msk = replicate 12 0xff
                   then drop 12 msk else msk);
          ip' = (if length msk' = 4 \<and> length ip = 16 \<and> take 12 ip = v4InV6Prefix
                 then drop 12 ip else ip)
      in if length ip' \<noteq> length msk' then [] else map2 (AND) ip' msk')"

definition networkNumberAndMask :: "net_IPNet \<Rightarrow> byte list \<times> byte list" where
  "networkNumberAndMask n =
     (let ip = (case To4 (net_IP n) of Some q \<Rightarrow> q | None \<Rightarrow> net_IP n); m = net_Mask n in
      if length ip \<noteq> 4 \<and> length ip \<noteq> 16 then ([], [])
      else if length m = 4 then (if length ip \<noteq> 4 then ([], []) else (ip, m))
      else if length m = 16 then (ip, if length ip = 4 then drop 12 m else m)
      else ([], []))"

definition net_Contains :: "net_IPNet \<Rightarrow> ip \<Rightarrow> bool" where
  "net_Contains n ip =
     (case networkNumberAndMask n of (nn, m) \<Rightarrow>
        let x = (case To4 ip of Some q \<Rightarrow> q | None \<Rightarrow> ip) in
        length x = length nn \<and> map2 (AND) nn m = map2 (AND) x m)"

text \<open>\<open>dtoi\<close>: the value of the leading digits and whether there are any; at most \<open>0xFFFFFE\<close>.\<close>

fun dtoi_loop :: "nat \<Rightarrow> string \<Rightarrow> (nat \<times> string) option" where
  "dtoi_loop n [] = Some (n, [])"
| "dtoi_loop n (c # cs) =
     (if is_digit c
      then if n * 10 + digit_val c \<ge> 0xFFFFFF then None else dtoi_loop (n * 10 + digit_val c) cs
      else Some (n, c # cs))"

definition ParseCIDR :: "string \<Rightarrow> net_IPNet result" where
  "ParseCIDR s =
     (case Cut s CHR ''/'' of (addr, msk, found) \<Rightarrow>
        if \<not> found then Inl (''invalid CIDR address: '' @ s)
        else case ParseAddr addr of
            None \<Rightarrow> Inl (''invalid CIDR address: '' @ s)
          | Some ipAddr \<Rightarrow>
              (case dtoi_loop 0 msk of
                 Some (n, []) \<Rightarrow>
                   if msk = [] \<or> n > 8 * length ipAddr then Inl (''invalid CIDR address: '' @ s)
                   else let m = CIDRMask n (length ipAddr) in
                     Inr \<lparr>net_IP = IP_Mask (As16 ipAddr) m, net_Mask = m\<rparr>
               | _ \<Rightarrow> Inl (''invalid CIDR address: '' @ s)))"

section \<open>IPNet and IPNets of package sets\<close>

text \<open>The embedded pointer is nil when parsing has failed.\<close>

record IPNet =
  IPNet_ptr :: "net_IPNet option"
  IPNet_raw :: string

text \<open>
  The decoder \<open>unmarshal\<close> of the JSON text stores a string in \<open>raw\<close> or reports an error. The
  result is the new value and the error.
\<close>

definition IPNet_UnmarshalJSON :: "(string \<Rightarrow> string result) \<Rightarrow> IPNet \<Rightarrow> string \<Rightarrow> IPNet \<times> gerror option" where
  "IPNet_UnmarshalJSON unmarshal n text0 =
     (case unmarshal text0 of
        Inl e \<Rightarrow> (n, Some e)
      | Inr s \<Rightarrow>
          let raw = (if CHR ''/'' \<notin> set s then s @ ''/32'' else s) in
          (case ParseCIDR raw of
             Inl e \<Rightarrow> (\<lparr>IPNet_ptr = None, IPNet_raw = raw\<rparr>, Some e)
           | Inr p \<Rightarrow> (\<lparr>IPNet_ptr = Some p, IPNet_raw = raw\<rparr>, None)))"

definition IPNet_MarshalJSON :: "(string \<Rightarrow> string) \<Rightarrow> IPNet \<Rightarrow> string" where
  "IPNet_MarshalJSON marshal n = marshal (IPNet_raw n)"

definition ParseIPNet :: "string \<Rightarrow> IPNet \<times> gerror option" where
  "ParseIPNet netStr =
     (let s = (if CHR ''/'' \<notin> set netStr then netStr @ ''/32'' else netStr) in
      case ParseCIDR s of
        Inl e \<Rightarrow> (\<lparr>IPNet_ptr = None, IPNet_raw = s\<rparr>, Some e)
      | Inr p \<Rightarrow> (\<lparr>IPNet_ptr = Some p, IPNet_raw = s\<rparr>, None))"

fun IPNets_Contains :: "IPNet list \<Rightarrow> ip \<Rightarrow> bool go" where
  "IPNets_Contains [] ip = Ret False"
| "IPNets_Contains (n # ns) ip =
     (case IPNet_ptr n of
        None \<Rightarrow> Panic nil_deref
      | Some p \<Rightarrow> if net_Contains p ip then Ret True else IPNets_Contains ns ip)"

section \<open>Package http\<close>

definition joinPath :: "string \<Rightarrow> string \<Rightarrow> string" where
  "joinPath a b =
     (let a1 = (if a = [] then ''/'' else if hd a \<noteq> CHR ''/'' then CHR ''/'' # a else a);
          b1 = (if b \<noteq> [] \<and> hd b = CHR ''/'' then tl b else b);
          a2 = (if b1 \<noteq> [] \<and> length a1 > 1 \<and> last a1 \<noteq> CHR ''/'' then a1 @ ''/'' else a1)
      in a2 @ b1)"

definition JoinPath :: "string list \<Rightarrow> string" where
  "JoinPath p =
     (case p of [] \<Rightarrow> [] | [x] \<Rightarrow> x | x # xs \<Rightarrow> foldl joinPath x xs)"

record Request =
  RemoteAddr :: string
  Header :: "string \<rightharpoonup> string list"

definition Header_Get :: "(string \<rightharpoonup> string list) \<Rightarrow> string \<Rightarrow> string" where
  "Header_Get h key = (case h key of Some (v # vs) \<Rightarrow> v | _ \<Rightarrow> [])"

text \<open>The loop from the last entry of the header to its first.\<close>

fun forwarded_loop :: "IPNet list \<Rightarrow> string list \<Rightarrow> string option go" where
  "forwarded_loop trustIP [] = Ret None"
| "forwarded_loop trustIP (s # ss) =
     (case ParseIP s of
        None \<Rightarrow> forwarded_loop trustIP ss
      | Some ip \<Rightarrow> go_bind (IPNets_Contains trustIP ip) (\<lambda>trusted.
          if trusted \<or> \<not> IsGlobalUnicast ip \<or> IsPrivate ip
          then forwarded_loop trustIP ss else Ret (Some s)))"

definition GetRemoteAddr :: "Request \<Rightarrow> IPNet list \<Rightarrow> string go" where
  "GetRemoteAddr r trustIP =
     (let i = LastIndex (RemoteAddr r) CHR '':'';
          remoteAddr = (if i \<ge> 0 then take (nat i) (RemoteAddr r) else RemoteAddr r);
          forwarded = Split (Header_Get (Header r) ''X-Forwarded-For'') CHR '',''
      in go_bind (forwarded_loop trustIP (rev forwarded)) (\<lambda>found.
           Ret (case found of Some s \<Rightarrow> s | None \<Rightarrow> remoteAddr)))"

section \<open>Paths\<close>

text \<open>
  A segment is a body without slashes at its ends, and maybe one slash before and one after it.
\<close>

definition slashed :: "bool \<times> string \<times> bool \<Rightarrow> string" where
  "slashed seg =
     (case seg of (l, s, t) \<Rightarrow> (if l then ''/'' else []) @ s @ (if t then ''/'' else []))"

definition body_ok :: "string \<Rightarrow> bool" where
  "body_ok s \<longleftrightarrow> s \<noteq> [] \<and> hd s \<noteq> CHR ''/'' \<and> last s \<noteq> CHR ''/''"

lemma joinPath_slashed:
  assumes "body_ok s" "body_ok s'"
  shows "joinPath (slashed (l, s, t)) (slashed (l', s', t')) = slashed (True, s @ ''/'' @ s', t')"
  using assms by (auto simp: joinPath_def slashed_def body_ok_def Let_def)

lemma body_ok_joined: "body_ok s \<Longrightarrow> body_ok s' \<Longrightarrow> body_ok (s @ ''/'' @ s')"
  by (simp add: body_ok_def)

lemma foldl_joinPath:
  assumes "body_ok s" "list_all (\<lambda>(l, b, t). body_ok b) segs" "segs \<noteq> []"
  shows "foldl joinPath (slashed (l, s, t)) (map slashed segs) =
         slashed (True, Join (s # map (fst \<circ> snd) segs) ''/'', snd (snd (last segs)))"
  using assms
proof (induction segs arbitrary: l s t)
  case (Cons seg segs)
  obtain l' s' t' where seg: "seg = (l', s', t')" by (cases seg) auto
  have ok: "body_ok s'" using Cons.prems(2) seg by simp
  show ?case
  proof (cases segs)
    case Nil
    then show ?thesis using seg joinPath_slashed [OF Cons.prems(1) ok] by simp
  next
    case (Cons x xs)
    then show ?thesis
      using seg joinPath_slashed [OF Cons.prems(1) ok] Cons.prems(2)
        Cons.IH [OF body_ok_joined [OF Cons.prems(1) ok], of True t']
      by (simp add: Join_Cons)
  qed
qed simp

text \<open>JoinPath puts exactly one slash between segments, whether or not they come with a slash at
  either end, starts the result with a slash and keeps the last segment's final slash.\<close>

theorem join_path_one_slash:
  assumes "list_all (\<lambda>(l, b, t). body_ok b) segs" "length segs \<ge> 2"
  shows "JoinPath (map slashed segs) =
         ''/'' @ Join (map (fst \<circ> snd) segs) ''/'' @ (if snd (snd (last segs)) then ''/'' else [])"
proof -
  obtain l s t seg rest where segs: "segs = (l, s, t) # seg # rest"
    using assms(2) by (cases segs; cases "tl segs") auto
  then show ?thesis
    using foldl_joinPath [of s "seg # rest" l t] assms(1)
    by (simp add: JoinPath_def) (simp add: slashed_def)
qed

theorem join_path_one_slash_witness:
  "JoinPath [''api/'', ''/v1'', ''/users/''] = ''/api/v1/users/''"
  using join_path_one_slash [of "[(False, ''api'', True), (True, ''v1'', False), (True, ''users'', True)]"]
  by (simp add: slashed_def body_ok_def)

section \<open>The client address\<close>

lemma Split_append: "Split (a @ c # b) c = Split a c @ Split b c"
  by (induction a) (auto split: list.splits)

lemma Split_one: "c \<notin> set s \<Longrightarrow> Split s c = [s]"
  by (induction s) auto

lemma Split_Join:
  "list_all (\<lambda>s. c \<notin> set s) ss \<Longrightarrow> ss \<noteq> [] \<Longrightarrow> Split (Join ss [c]) c = ss"
proof (induction ss)
  case (Cons s ss)
  then show ?case by (cases ss) (simp_all add: Split_one Split_append)
qed simp

text \<open>An entry the loop passes over, when every trusted network has been parsed.\<close>

definition skipped :: "IPNet list \<Rightarrow> string \<Rightarrow> bool" where
  "skipped trustIP s \<longleftrightarrow>
     (case ParseIP s of
        None \<Rightarrow> True
      | Some ip \<Rightarrow> list_ex (\<lambda>n. net_Contains (the (IPNet_ptr n)) ip) trustIP
                    \<or> \<not> IsGlobalUnicast ip \<or> IsPrivate ip)"

abbreviation nets_ok :: "IPNet list \<Rightarrow> bool" where
  "nets_ok \<equiv> list_all (\<lambda>n. IPNet_ptr n \<noteq> None)"

lemma IPNets_Contains_ok:
  "nets_ok ns \<Longrightarrow> IPNets_Contains ns ip = Ret (list_ex (\<lambda>n. net_Contains (the (IPNet_ptr n)) ip) ns)"
  by (induction ns) auto

lemma forwarded_loop_find:
  "nets_ok trustIP \<Longrightarrow>
   forwarded_loop trustIP ss = Ret (List.find (\<lambda>s. \<not> skipped trustIP s) ss)"
  by (induction ss) (auto simp: skipped_def IPNets_Contains_ok split: option.splits)

lemma find_append_skip: "list_all (\<lambda>x. \<not> P x) xs \<Longrightarrow> List.find P (xs @ ys) = List.find P ys"
  by (induction xs) auto

lemma replicate_bytes:
  "replicate 8 (0::byte) = [0, 0, 0, 0, 0, 0, 0, 0]"
  "replicate 10 (0::byte) = [0, 0, 0, 0, 0, 0, 0, 0, 0, 0]"
  "replicate 12 (0xff::byte) = [0xff, 0xff, 0xff, 0xff, 0xff, 0xff, 0xff, 0xff, 0xff, 0xff, 0xff, 0xff]"
  "replicate 15 (0::byte) = [0, 0, 0, 0, 0, 0, 0, 0, 0, 0, 0, 0, 0, 0, 0]"
  "replicate 16 (0::byte) = [0, 0, 0, 0, 0, 0, 0, 0, 0, 0, 0, 0, 0, 0, 0, 0]"
  by (simp_all add: numeral_eq_Suc)

lemmas address_tests = IsPrivate_def IsGlobalUnicast_def To4_def v4InV6Prefix_def IsUnspecified_def
  IsLoopback_def IsMulticast_def IsLinkLocalUnicast_def As16_def replicate_bytes

lemmas address_parsers = ParseIP_def ParseAddr_def parseIPv4_def parseIPv6_def hex_val_def
  expand_ellipsis_def is_digit_def digit_val_def

lemmas remote_addr_rules = GetRemoteAddr_def forwarded_loop_find Header_Get_def Let_def



lemma hex_group_space: "hex_group (CHR '' '' # s) 0 0 = Some (0, 0, CHR '' '' # s)"
  by (simp add: hex_val_def)

lemma ParseAddr_scan_space: "ParseAddr_scan cs (CHR '' '' # s) = None"
proof (induction cs)
  case (Cons c cs)
  have "parseIPv6_loop 8 (CHR '' '' # s) [] None = None"
    by (simp add: numeral_eq_Suc hex_group_space del: hex_group.simps)
  then have "parseIPv6 (CHR '' '' # s) = None" by (simp add: parseIPv6_def)
  moreover have "parseIPv4 (CHR '' '' # s) = None" by (simp add: parseIPv4_def is_digit_def)
  ultimately show ?case using Cons by simp
qed simp

lemma skipped_space: "skipped trustIP (CHR '' '' # s)"
  by (simp add: skipped_def ParseIP_def ParseAddr_def ParseAddr_scan_space)

text \<open>C37: The entries of X-Forwarded-For are not trimmed: in the usual form of the header, with a blank
  after every comma, all entries but the first are passed over, so the address that the client itself
  wrote first is reported if it is a public one.\<close>

theorem remote_addr_blank_separated:
  assumes "nets_ok trustIP"
    and "Header r ''X-Forwarded-For'' = Some (Join (first # map ((#) CHR '' '') rest) '','' # vals)"
    and "list_all (\<lambda>s. CHR '','' \<notin> set s) (first # rest)" and "\<not> skipped trustIP first"
  shows "GetRemoteAddr r trustIP = Ret first"
proof -
  let ?rest = "map ((#) CHR '' '') rest"
  have "Split (Join (first # ?rest) '','') CHR '','' = first # ?rest"
    using assms(3) by (intro Split_Join) (simp_all add: list_all_iff)
  moreover have "list_all (\<lambda>s. \<not> \<not> skipped trustIP s) (rev ?rest)"
    by (auto simp: list_all_iff skipped_space)
  ultimately show ?thesis using assms(1,2,4)
    by (simp add: remote_addr_rules find_append_skip)
qed

theorem remote_addr_blank_separated_witness:
  "GetRemoteAddr \<lparr>RemoteAddr = ''10.0.0.1:80'',
     Header = [''X-Forwarded-For'' \<mapsto> [''1.1.1.1, 8.8.8.8, 192.168.1.1'']]\<rparr> [] = Ret ''1.1.1.1''"
  using remote_addr_blank_separated [of "[]" "\<lparr>RemoteAddr = ''10.0.0.1:80'',
     Header = [''X-Forwarded-For'' \<mapsto> [''1.1.1.1, 8.8.8.8, 192.168.1.1'']]\<rparr>" "''1.1.1.1''" "[''8.8.8.8'', ''192.168.1.1'']" "[]"]
  by (simp add: skipped_def address_parsers address_tests)

section \<open>Networks\<close>

definition addr_bit :: "byte list \<Rightarrow> nat \<Rightarrow> bool" where
  "addr_bit xs i \<longleftrightarrow> bit (xs ! (i div 8)) (7 - i mod 8)"

lemma all_less_add8: "8 \<le> n \<Longrightarrow> (\<forall>i<n. P i) \<longleftrightarrow> (\<forall>i<8. P i) \<and> (\<forall>i<n - 8. P (i + 8 :: nat))"
proof (intro iffI conjI allI impI; (elim conjE)?)
  fix i assume n: "8 \<le> n" and lo: "\<forall>i<8. P i" and hi: "\<forall>i<n - 8. P (i + 8)" and "i < n"
  show "P i"
  proof (cases "i < 8")
    case False
    then have "P (i - 8 + 8)" using hi \<open>i < n\<close> by (metis diff_less_mono not_less)
    then show ?thesis using False by simp
  qed (use lo in simp)
qed auto

lemma byte_eq_bits: "(x :: byte) = y \<longleftrightarrow> (\<forall>i<8. bit x (7 - i) = bit y (7 - i))"
proof
  assume *: "\<forall>i<8. bit x (7 - i) = bit y (7 - i)"
  show "x = y"
  proof (rule bit_word_eqI)
    fix m assume "m < LENGTH(8)"
    then have "7 - m < 8" "7 - (7 - m) = m" by simp_all
    then have "bit x m = bit y m" using * by metis
    then show "bit x m = bit y m" using \<open>m < LENGTH(8)\<close> by simp
  qed
qed simp

lemma byte_masked_eq:
  assumes "n < 8"
  shows "x AND NOT (drop_bit n 0xff) = y AND NOT (drop_bit n (0xff :: byte)) \<longleftrightarrow>
         (\<forall>i<n. bit x (7 - i) = bit y (7 - i))"
proof -
  have ff: "(0xff :: byte) = mask 8" by (simp add: mask_eq_exp_minus_1)
  have b: "bit (NOT (drop_bit n (0xff :: byte))) (7 - i) \<longleftrightarrow> i < n" if "i < 8" for i
    using that assms unfolding ff by (auto simp: bit_not_iff bit_drop_bit_eq bit_mask_iff)
  then have "x AND NOT (drop_bit n 0xff) = y AND NOT (drop_bit n (0xff :: byte)) \<longleftrightarrow>
      (\<forall>i<8. i < n \<longrightarrow> bit x (7 - i) = bit y (7 - i))"
    by (auto simp: byte_eq_bits bit_and_iff)
  also have "\<dots> \<longleftrightarrow> (\<forall>i<n. bit x (7 - i) = bit y (7 - i))" using assms by (meson less_trans)
  finally show ?thesis .
qed

lemma map2_CIDRMask:
  "length xs = k \<Longrightarrow> length ys = k \<Longrightarrow> n \<le> 8 * k \<Longrightarrow>
   map2 (AND) xs (CIDRMask n k) = map2 (AND) ys (CIDRMask n k) \<longleftrightarrow> (\<forall>i<n. addr_bit xs i = addr_bit ys i)"
proof (induction k arbitrary: xs ys n)
  case (Suc k)
  obtain x xs' y ys' where xy: "xs = x # xs'" "ys = y # ys'" "length xs' = k" "length ys' = k"
    using Suc.prems by (metis length_Suc_conv)
  show ?case
  proof (cases "8 \<le> n")
    case True
    have "(0xff :: byte) = - 1" by simp
    then have ff: "z AND 0xff = z" for z :: byte by (metis and.right_neutral)
    have "(\<forall>i<8. addr_bit xs i = addr_bit ys i) \<longleftrightarrow> x = y"
      by (simp add: byte_eq_bits addr_bit_def xy)
    moreover have "addr_bit xs (i + 8) = addr_bit xs' i" "addr_bit ys (i + 8) = addr_bit ys' i" for i
      using div_add_self2 [of 8 i] by (simp_all add: addr_bit_def xy)
    ultimately have "(\<forall>i<n. addr_bit xs i = addr_bit ys i) \<longleftrightarrow>
        x = y \<and> (\<forall>i<n - 8. addr_bit xs' i = addr_bit ys' i)"
      using all_less_add8 [OF True, of "\<lambda>i. addr_bit xs i = addr_bit ys i"] by simp
    then show ?thesis using True Suc.prems(3) Suc.IH [OF xy(3,4), of "n - 8"]
      by (simp add: xy(1,2) ff)
  next
    case False
    have "map2 (AND) xs' (CIDRMask 0 k) = map2 (AND) ys' (CIDRMask 0 k)"
      using Suc.IH [OF xy(3,4), of 0] by simp
    then show ?thesis using False byte_masked_eq [of n x y] by (simp add: xy addr_bit_def)
  qed
qed simp

lemma length_CIDRMask [simp]: "length (CIDRMask n k) = k"
  by (induction k arbitrary: n) auto

lemma map2_and_idem: "map2 (AND) (map2 (AND) xs m) m = map2 (AND) xs (m :: byte list)"
  by (induction xs m rule: list_induct2') simp_all

text \<open>The network of a 4 byte address and a prefix length contains the addresses that share the prefix.\<close>

lemma net_Contains_v4:
  assumes "length q = 4" "n \<le> 32"
  shows "net_Contains \<lparr>net_IP = IP_Mask (As16 q) (CIDRMask n 4), net_Mask = CIDRMask n 4\<rparr> ip \<longleftrightarrow>
         (\<exists>x. To4 ip = Some x \<and> (\<forall>i<n. addr_bit x i = addr_bit q i))"
proof -
  have mq: "IP_Mask (As16 q) (CIDRMask n 4) = map2 (AND) q (CIDRMask n 4)"
    using assms(1) by (simp add: IP_Mask_def As16_def v4InV6Prefix_def Let_def)
  have nn: "networkNumberAndMask \<lparr>net_IP = map2 (AND) q (CIDRMask n 4), net_Mask = CIDRMask n 4\<rparr> =
      (map2 (AND) q (CIDRMask n 4), CIDRMask n 4)"
    using assms(1) by (simp add: networkNumberAndMask_def To4_def Let_def)
  show ?thesis
  proof (cases "To4 ip")
    case None
    then have "length ip \<noteq> 4" by (auto simp: To4_def)
    then show ?thesis using None assms(1) unfolding net_Contains_def mq nn by (simp add: Let_def)
  next
    case (Some x)
    then have "length x = 4" by (auto simp: To4_def split: if_splits)
    then show ?thesis
      using Some assms map2_CIDRMask [of q 4 x n] unfolding net_Contains_def mq nn
      by (auto simp: Let_def map2_and_idem)
  qed
qed

text \<open>The dotted form of an IPv4 address, and that it is read back.\<close>

definition dotted :: "nat list \<Rightarrow> string" where
  "dotted ns = Join (map Itoa_nat ns) ''.''"

lemma parseIPv4_field:
  assumes "n < 256"
  shows "parseIPv4_loop (Itoa_nat n @ rest) 0 0 fs = parseIPv4_loop rest n (length (Itoa_nat n)) fs"
proof -
  consider "n < 10" | "10 \<le> n" "n < 100" | "100 \<le> n" "n < 256" using assms by linarith
  then show ?thesis
  proof cases
    case 2
    then have "Itoa_nat n = [digit_char (n div 10), digit_char (n mod 10)]"
      by (simp add: Itoa_nat.simps [of n] Itoa_nat.simps [of "n div 10"])
    moreover have "n div 10 \<noteq> 0" "n div 10 \<le> 255" using 2 by simp_all
    ultimately show ?thesis using 2 by simp
  next
    case 3
    then have lt: "n div 10 div 10 < 10" "\<not> n div 10 < 10" "\<not> n < 10" by simp_all
    then have "Itoa_nat n = [digit_char (n div 10 div 10), digit_char (n div 10 mod 10), digit_char (n mod 10)]"
      by (simp add: Itoa_nat.simps [of n] Itoa_nat.simps [of "n div 10"] Itoa_nat.simps [of "n div 10 div 10"]
          del: div_less_iff_less_mult)
    moreover have "n div 10 div 10 < 10" "n div 10 div 10 \<noteq> 0"
      "n div 10 div 10 * 10 + n div 10 mod 10 = n div 10" "n div 10 * 10 + n mod 10 = n" "n div 10 \<le> 255"
      "n div 10 div 10 \<le> 255" using 3 by simp_all
    ultimately show ?thesis using 3 by (simp del: div_mult2_eq)
  qed (simp add: Itoa_nat.simps [of n])
qed

lemma Itoa_nat_length_pos [simp]: "0 < length (Itoa_nat n)"
  by simp

lemma parseIPv4_dotted:
  assumes "a < 256" "b < 256" "c < 256" "d < 256"
  shows "parseIPv4 (dotted [a, b, c, d]) = Some [of_nat a, of_nat b, of_nat c, of_nat d]"
proof -
  have "parseIPv4_loop (Itoa_nat d) 0 0 fs = parseIPv4_loop [] d (length (Itoa_nat d)) fs" for fs
    using parseIPv4_field [OF assms(4), of "[]"] by simp
  then show ?thesis
    by (simp add: parseIPv4_def dotted_def parseIPv4_field assms is_digit_def)
qed

lemma ParseAddr_scan_digits:
  "(\<And>c. c \<in> set ds \<Longrightarrow> is_digit c) \<Longrightarrow> ParseAddr_scan (ds @ CHR ''.'' # rest) s = parseIPv4 s"
proof (induction ds)
  case (Cons d ds)
  have "is_digit d" using Cons.prems by simp
  then have "d \<noteq> CHR ''.''" "d \<noteq> CHR '':''" "d \<noteq> CHR ''%''" by (auto simp: is_digit_def)
  then show ?case using Cons by simp
qed simp

lemma ParseAddr_dotted:
  assumes "a < 256" "b < 256" "c < 256" "d < 256"
  shows "ParseAddr (dotted [a, b, c, d]) = Some [of_nat a, of_nat b, of_nat c, of_nat d]"
  using parseIPv4_dotted [OF assms] ParseAddr_scan_digits [of "Itoa_nat a"] Itoa_nat_digits
  by (simp add: ParseAddr_def dotted_def)

lemma dotted_no_slash: "CHR ''/'' \<notin> set (dotted ns)"
proof -
  have "CHR ''/'' \<notin> set (Itoa_nat n)" for n using Itoa_nat_digits [of "CHR ''/''" n] by (auto simp: is_digit_def)
  then show ?thesis unfolding dotted_def by (induction ns rule: induct_list012) auto
qed

lemma dtoi_loop_digits:
  "(\<And>c. c \<in> set ds \<Longrightarrow> is_digit c) \<Longrightarrow> dec_from n ds < 0xFFFFFF \<Longrightarrow> dtoi_loop n ds = Some (dec_from n ds, [])"
proof (induction ds arbitrary: n)
  case (Cons c cs)
  then show ?case using dec_from_ge [of "n * 10 + digit_val c" cs] by simp
qed simp

lemma ParseCIDR_dotted:
  assumes "a < 256" "b < 256" "c < 256" "d < 256" "n \<le> 32"
  shows "ParseCIDR (dotted [a, b, c, d] @ CHR ''/'' # Itoa_nat n) =
    Inr \<lparr>net_IP = IP_Mask (As16 [of_nat a, of_nat b, of_nat c, of_nat d]) (CIDRMask n 4), net_Mask = CIDRMask n 4\<rparr>"
proof -
  have "dtoi_loop 0 (Itoa_nat n) = Some (n, [])"
    using dtoi_loop_digits [of "Itoa_nat n" 0] Itoa_nat_digits assms(5) by simp
  then show ?thesis using assms
    by (simp add: ParseCIDR_def dotted_no_slash ParseAddr_dotted Let_def eval_nat_numeral
        del: CIDRMask.simps)
qed

text \<open>C31: ParseIPNet accepts every dotted IPv4 address with a prefix length n up to 32, and the network
  contains exactly the IPv4 addresses (in either byte form) whose first n bits are those of the address;
  without a prefix length it contains that one host.\<close>

theorem ip_net_contains:
  assumes "a < 256" "b < 256" "c < 256" "d < 256" "n \<le> 32"
  shows "\<exists>p h. ParseIPNet (dotted [a, b, c, d] @ CHR ''/'' # Itoa_nat n) =
              (\<lparr>IPNet_ptr = Some p, IPNet_raw = dotted [a, b, c, d] @ CHR ''/'' # Itoa_nat n\<rparr>, None) \<and>
           ParseIPNet (dotted [a, b, c, d]) =
              (\<lparr>IPNet_ptr = Some h, IPNet_raw = dotted [a, b, c, d] @ ''/32''\<rparr>, None) \<and>
           (\<forall>ip. net_Contains p ip \<longleftrightarrow>
              (\<exists>x. To4 ip = Some x \<and>
                   (\<forall>i<n. addr_bit x i = addr_bit [of_nat a, of_nat b, of_nat c, of_nat d] i))) \<and>
           (\<forall>ip. net_Contains h ip \<longleftrightarrow>
              (\<exists>x. To4 ip = Some x \<and>
                   (\<forall>i<32. addr_bit x i = addr_bit [of_nat a, of_nat b, of_nat c, of_nat d] i)))"
proof -
  let ?q = "[of_nat a, of_nat b, of_nat c, of_nat d] :: byte list"
  let ?net = "\<lambda>n. \<lparr>net_IP = IP_Mask (As16 ?q) (CIDRMask n 4), net_Mask = CIDRMask n 4\<rparr>"
  have "digit_char 3 = CHR ''3''" "digit_char 2 = CHR ''2''" by code_simp+
  then have "Itoa_nat 32 = ''32''" by (simp add: Itoa_nat.simps)
  then have "ParseIPNet (dotted [a, b, c, d]) =
      (\<lparr>IPNet_ptr = Some (?net 32), IPNet_raw = dotted [a, b, c, d] @ ''/32''\<rparr>, None)"
    using ParseCIDR_dotted [OF assms(1-4), of 32] by (simp add: ParseIPNet_def dotted_no_slash)
  moreover have "ParseIPNet (dotted [a, b, c, d] @ CHR ''/'' # Itoa_nat n) =
      (\<lparr>IPNet_ptr = Some (?net n), IPNet_raw = dotted [a, b, c, d] @ CHR ''/'' # Itoa_nat n\<rparr>, None)"
    using ParseCIDR_dotted [OF assms] by (simp add: ParseIPNet_def)
  ultimately show ?thesis using net_Contains_v4 [of ?q] assms(5) by (intro exI conjI) (assumption | simp)+
qed

theorem ip_net_contains_witness:
  "\<exists>p h. ParseIPNet (dotted [10, 1, 0, 0] @ CHR ''/'' # Itoa_nat 16) =
              (\<lparr>IPNet_ptr = Some p, IPNet_raw = dotted [10, 1, 0, 0] @ CHR ''/'' # Itoa_nat 16\<rparr>, None) \<and>
         ParseIPNet (dotted [10, 1, 0, 0]) =
              (\<lparr>IPNet_ptr = Some h, IPNet_raw = dotted [10, 1, 0, 0] @ ''/32''\<rparr>, None)"
  using ip_net_contains [of 10 1 0 0 16] by auto

lemma parseIPv6_loop_8: "parseIPv6_loop 8 = parseIPv6_loop (Suc (Suc (Suc (Suc (Suc (Suc (Suc (Suc 0))))))))"
  by (simp add: numeral_eq_Suc)

lemma ParseAddr_v6_example:
  "ParseAddr ''2001:db8::1'' = Some [0x20, 1, 0xd, 0xb8, 0, 0, 0, 0, 0, 0, 0, 0, 0, 0, 0, 1]"
  "ParseAddr ''2001:db8:ffff::2'' = Some [0x20, 1, 0xd, 0xb8, 0xff, 0xff, 0, 0, 0, 0, 0, 0, 0, 0, 0, 2]"
  by (simp_all add: address_parsers parseIPv6_loop_8 replicate_bytes)

lemma CIDRMask_32_16: "CIDRMask 32 16 = [0xff, 0xff, 0xff, 0xff, 0, 0, 0, 0, 0, 0, 0, 0, 0, 0, 0, 0]"
  by code_simp

lemma CIDR_v6_example:
  "ParseCIDR ''2001:db8::1/32'' =
     Inr \<lparr>net_IP = [0x20, 1, 0xd, 0xb8, 0, 0, 0, 0, 0, 0, 0, 0, 0, 0, 0, 0],
          net_Mask = CIDRMask 32 16\<rparr>"
  "net_Contains \<lparr>net_IP = [0x20, 1, 0xd, 0xb8, 0, 0, 0, 0, 0, 0, 0, 0, 0, 0, 0, 0], net_Mask = CIDRMask 32 16\<rparr>
     [0x20, 1, 0xd, 0xb8, 0, 0, 0, 0, 0, 0, 0, 0, 0, 0, 0, 1]"
  "net_Contains \<lparr>net_IP = [0x20, 1, 0xd, 0xb8, 0, 0, 0, 0, 0, 0, 0, 0, 0, 0, 0, 0], net_Mask = CIDRMask 32 16\<rparr>
     [0x20, 1, 0xd, 0xb8, 0xff, 0xff, 0, 0, 0, 0, 0, 0, 0, 0, 0, 2]"
proof -
  have "dtoi_loop 0 ''32'' = Some (32, [])" by (simp add: is_digit_def digit_val_def)
  then show "ParseCIDR ''2001:db8::1/32'' =
     Inr \<lparr>net_IP = [0x20, 1, 0xd, 0xb8, 0, 0, 0, 0, 0, 0, 0, 0, 0, 0, 0, 0], net_Mask = CIDRMask 32 16\<rparr>"
    by (simp add: ParseCIDR_def ParseAddr_v6_example As16_def IP_Mask_def CIDRMask_32_16 Let_def del: dtoi_loop.simps)
qed (simp_all add: net_Contains_def networkNumberAndMask_def To4_def v4InV6Prefix_def replicate_bytes Let_def
    CIDRMask_32_16)

text \<open>A host address without a mask gets the prefix length 32 also when it is an IPv6 address, so
  the network parsed from one IPv6 host contains every host of its 32 bit prefix.\<close>

theorem ip_net_v6_host_too_wide:
  "\<exists>h x y. ParseIPNet ''2001:db8::1'' = (\<lparr>IPNet_ptr = Some h, IPNet_raw = ''2001:db8::1/32''\<rparr>, None) \<and>
           ParseIP ''2001:db8::1'' = Some x \<and> ParseIP ''2001:db8:ffff::2'' = Some y \<and>
           net_Contains h x \<and> net_Contains h y"
  using CIDR_v6_example by (simp add: ParseIPNet_def ParseIP_def ParseAddr_v6_example As16_def)

end
