(* ===== verification/Storage.thy ===== *)
theory Storage
  imports GoPrelude
begin

text \<open>
  Package \<open>storage\<close> (\<open>clients/storage/storage.go\<close>): the stored object, the permission strings, the
  registry of backends; and the file system backend (\<open>clients/storage/fs/fs.go\<close>). An \<open>fs.FS\<close> is a
  value of a type \<open>'f\<close> whose operations are arguments; \<open>fs.WalkDir\<close> is written out on the tree of
  entries that the file system shows. A time is the number of nanoseconds; its text forms are
  arguments.
\<close>

unbundle bit_operations_syntax

section \<open>Runes\<close>

text \<open>\<open>[]rune(s)\<close>: UTF-8 decoding, with the replacement rune for each invalid byte.\<close>

definition cont :: "nat \<Rightarrow> nat \<Rightarrow> char list \<Rightarrow> bool" where
  "cont lo hi cs = (case cs of [] \<Rightarrow> False | c # _ \<Rightarrow> lo \<le> (of_char c :: nat) \<and> (of_char c :: nat) \<le> hi)"

definition low6 :: "char \<Rightarrow> nat" where
  "low6 c = (of_char c :: nat) mod 64"

fun runes :: "string \<Rightarrow> nat list" where
  "runes [] = []"
| "runes (c # cs) =
     (let b = (of_char c :: nat);
          lo = (if b = 0xE0 then 0xA0 else if b = 0xF0 then 0x90 else 0x80);
          hi = (if b = 0xED then 0x9F else if b = 0xF4 then 0x8F else 0xBF)
      in if b < 0x80 then b # runes cs
         else if 0xC2 \<le> b \<and> b \<le> 0xDF \<and> cont lo hi cs
           then (b mod 32 * 64 + low6 (cs ! 0)) # runes (drop 1 cs)
         else if 0xE0 \<le> b \<and> b \<le> 0xEF \<and> cont lo hi cs \<and> cont 0x80 0xBF (drop 1 cs)
           then (b mod 16 * 4096 + low6 (cs ! 0) * 64 + low6 (cs ! 1)) # runes (drop 2 cs)
         else if 0xF0 \<le> b \<and> b \<le> 0xF4 \<and> cont lo hi cs \<and> cont 0x80 0xBF (drop 1 cs) \<and> cont 0x80 0xBF (drop 2 cs)
           then (b mod 8 * 262144 + low6 (cs ! 0) * 4096 + low6 (cs ! 1) * 64 + low6 (cs ! 2)) # runes (drop 3 cs)
         else 0xFFFD # runes cs)"

abbreviation rune :: "char \<Rightarrow> nat" where
  "rune c \<equiv> of_char c"

lemma runes_ascii: "list_all (\<lambda>c. rune c < 128) s \<Longrightarrow> runes s = map rune s"
  by (induction s) (auto simp: Let_def)

section \<open>Objects\<close>

type_synonym filemode = "32 word"
type_synonym gtime = int
type_synonym http_header = "string \<rightharpoonup> string list"

definition FileMode_IsDir :: "filemode \<Rightarrow> bool" where
  "FileMode_IsDir m \<longleftrightarrow> m AND push_bit 31 1 \<noteq> 0"

record Object =
  Key :: string
  LastModified :: gtime
  Size :: int
  ETag :: string
  StorageClass :: string
  Mode :: filemode
  Headers :: http_header
  Metadata :: "string \<rightharpoonup> string"

record FileInfo =
  fi_name :: string
  fi_size :: int
  fi_mode :: filemode
  fi_modTime :: gtime

definition Object_Name :: "Object \<Rightarrow> string" where
  "Object_Name ob = Key ob"

definition Object_IsDir :: "Object \<Rightarrow> bool" where
  "Object_IsDir ob = FileMode_IsDir (Mode ob)"

definition Object_Type :: "Object \<Rightarrow> filemode" where
  "Object_Type ob = Mode ob"

definition Object_Info :: "Object \<Rightarrow> FileInfo result" where
  "Object_Info ob =
     Inr \<lparr>fi_name = Key ob, fi_size = Size ob, fi_mode = Mode ob, fi_modTime = LastModified ob\<rparr>"

record 'b ObjectReader =
  ReadCloser :: 'b
  or_Object :: Object

definition FileInfo_Name :: "FileInfo \<Rightarrow> string" where
  "FileInfo_Name f = fi_name f"

definition FileInfo_Size :: "FileInfo \<Rightarrow> int" where
  "FileInfo_Size f = fi_size f"

definition FileInfo_Mode :: "FileInfo \<Rightarrow> filemode" where
  "FileInfo_Mode f = fi_mode f"

definition FileInfo_ModTime :: "FileInfo \<Rightarrow> gtime" where
  "FileInfo_ModTime f = fi_modTime f"

definition FileInfo_Sys :: "FileInfo \<Rightarrow> 'a option" where
  "FileInfo_Sys f = None"

definition FileInfo_IsDir :: "FileInfo \<Rightarrow> bool" where
  "FileInfo_IsDir f = FileMode_IsDir (fi_mode f)"

definition ObjectReader_Stat :: "'b ObjectReader \<Rightarrow> FileInfo result" where
  "ObjectReader_Stat r = Object_Info (or_Object r)"

section \<open>Permission strings\<close>

definition type_chars :: string where
  "type_chars = ''dalTLDpSugct?''"

definition rwx_chars :: string where
  "rwx_chars = ''rwxrwxrwx''"

text \<open>The loop over the type characters, for the first rune \<open>p\<close>, from index \<open>i\<close> on.\<close>

fun type_loop :: "nat \<Rightarrow> nat \<Rightarrow> string \<Rightarrow> filemode \<Rightarrow> filemode" where
  "type_loop p i [] mode = mode"
| "type_loop p i (c # cs) mode =
     type_loop p (i + 1) cs (if p = rune c then mode OR push_bit (32 - 1 - i) 1 else mode)"

text \<open>The loop over the permission runes; \<open>rwx[i]\<close> panics past its end.\<close>

fun perm_loop :: "nat \<Rightarrow> nat list \<Rightarrow> filemode \<Rightarrow> filemode go" where
  "perm_loop i [] mode = Ret mode"
| "perm_loop i (ch # chs) mode =
     (if i < length rwx_chars
      then perm_loop (i + 1) chs (if rune (rwx_chars ! i) = ch then mode OR push_bit (8 - i) 1 else mode)
      else Panic out_of_range)"

definition RawPermissionsToMode :: "string \<Rightarrow> filemode go" where
  "RawPermissionsToMode raw0 =
     (let raw = (if length raw0 = 9 then CHR ''-'' # raw0 else raw0) in
      if length raw \<noteq> 10 then Ret 0x1FF
      else
        let permissions = runes raw;
            mode = (if hd raw \<noteq> CHR ''-'' then type_loop (hd permissions) 0 type_chars 0 else 0)
        in perm_loop 0 (tl permissions) mode)"

section \<open>Configuration and the registry of backends\<close>

record ConfigProvider =
  GetString :: "string \<Rightarrow> string"
  GetInt :: "string \<Rightarrow> int"

text \<open>The conversions of package \<open>cast\<close> are arguments; a missing key is converted from nil.\<close>

definition NewMapConfigProvider :: "('v option \<Rightarrow> string) \<Rightarrow> ('v option \<Rightarrow> int) \<Rightarrow> (string \<rightharpoonup> 'v) \<Rightarrow> ConfigProvider" where
  "NewMapConfigProvider cast_ToString cast_ToInt m =
     \<lparr>GetString = (\<lambda>key. cast_ToString (m key)), GetInt = (\<lambda>key. cast_ToInt (m key))\<rparr>"

type_synonym 's constructor = "ConfigProvider \<Rightarrow> 's result"
type_synonym 's registry = "string \<rightharpoonup> 's constructor"

definition RegisterStorage :: "string \<Rightarrow> 's constructor \<Rightarrow> 's registry \<Rightarrow> 's registry go" where
  "RegisterStorage storageType newFunc reg =
     (if reg storageType \<noteq> None then Panic ''Duplicate registration of storage types''
      else Ret (reg(storageType \<mapsto> newFunc)))"

definition NewClient :: "'s registry \<Rightarrow> 's constructor" where
  "NewClient reg v =
     (let storageType = GetString v ''type'' in
      if storageType = [] then Inl ''storage type is empty''
      else case reg storageType of
          Some newFunc \<Rightarrow> newFunc v
        | None \<Rightarrow> Inl (''unknown backend type '' @ storageType))"

section \<open>The file system backend\<close>

text \<open>\<open>strconv.FormatInt\<close> panics for a base it has no digits for.\<close>

definition int_digits :: string where
  "int_digits = ''0123456789abcdefghijklmnopqrstuvwxyz''"

fun formatBits :: "nat \<Rightarrow> nat \<Rightarrow> string" where
  "formatBits base n =
     (if base < 2 \<or> n < base then [int_digits ! n]
      else formatBits base (n div base) @ [int_digits ! (n mod base)])"

declare formatBits.simps [simp del]

definition FormatInt :: "int \<Rightarrow> nat \<Rightarrow> string go" where
  "FormatInt i base =
     (if base < 2 \<or> length int_digits < base then Panic ''strconv: illegal AppendInt/FormatInt base''
      else Ret ((if i < 0 then ''-'' else []) @ formatBits base (nat \<bar>i\<bar>)))"

text \<open>The zero \<open>time.Time\<close> is the first instant of the year 1.\<close>

definition zero_time :: gtime where
  "zero_time = - 62135596800 * 1000000000"

record 'f fs_Client =
  fs_fs :: "'f option"
  fs_fsType :: string
  fs_Base :: string
  fs_Type :: string

definition fs_Client_Type :: "'f fs_Client \<Rightarrow> string" where
  "fs_Client_Type c = fs_fsType c"

definition fs_Client_Name :: "'f fs_Client \<Rightarrow> string" where
  "fs_Client_Name c = fs_Client_Type c @ ''://'' @ fs_Base c"

text \<open>\<open>json.Marshal\<close> of the options.\<close>

definition fs_MarshalJSON :: "(string \<times> string \<Rightarrow> string result) \<Rightarrow> 'f fs_Client \<Rightarrow> string result" where
  "fs_MarshalJSON json_Marshal c = json_Marshal (fs_Base c, fs_Type c)"

text \<open>The prefix handling that every operation begins with.\<close>

definition strip_scheme :: "string \<Rightarrow> string" where
  "strip_scheme name =
     (if HasPrefix name ''file://'' then TrimPrefix name ''file://''
      else if HasPrefix name ''local://'' then TrimPrefix name ''local://''
      else name)"

text \<open>The operations on a file system value and on its open files.\<close>

record ('f, 'h, 'w) fs_ops =
  op_Open :: "'f \<Rightarrow> string \<Rightarrow> 'h result"
  op_Stat :: "'h \<Rightarrow> FileInfo result"
  op_ReadDir :: "'f \<Rightarrow> string \<Rightarrow> string list result"
  op_OpenFile :: "'f \<Rightarrow> (string \<Rightarrow> 'w result) option"
  os_Stat :: "string \<Rightarrow> FileInfo result"
  FormatDateTime :: "gtime \<Rightarrow> string"

definition fs_ReadDir :: "('f, 'h, 'w) fs_ops \<Rightarrow> 'f fs_Client \<Rightarrow> string \<Rightarrow> string list result go" where
  "fs_ReadDir lib c name =
     (case fs_fs c of None \<Rightarrow> Panic nil_deref | Some fs \<Rightarrow> Ret (op_ReadDir lib fs (strip_scheme name)))"

definition stat_object :: "('f, 'h, 'w) fs_ops \<Rightarrow> 'f fs_Client \<Rightarrow> string \<Rightarrow> FileInfo \<Rightarrow> nat \<Rightarrow> Object go" where
  "stat_object lib c key stat base =
     go_bind (FormatInt (fi_size stat) base) (\<lambda>len.
       Ret \<lparr>Key = key, LastModified = fi_modTime stat, Size = fi_size stat, ETag = [],
            StorageClass = fs_Client_Type c, Mode = fi_mode stat,
            Headers = [''Content-Length'' \<mapsto> [len], ''Last-Modified'' \<mapsto> [FormatDateTime lib (fi_modTime stat)]],
            Metadata = Map.empty\<rparr>)"

definition fs_GetObject :: "('f, 'h, 'w) fs_ops \<Rightarrow> 'f fs_Client \<Rightarrow> string \<Rightarrow> 'h ObjectReader result go" where
  "fs_GetObject lib c objectPath =
     (case fs_fs c of
        None \<Rightarrow> Panic nil_deref
      | Some fs \<Rightarrow>
          (case op_Open lib fs (strip_scheme objectPath) of
             Inl err \<Rightarrow> Ret (Inl err)
           | Inr f \<Rightarrow>
               (case op_Stat lib f of
                  Inl err \<Rightarrow> Ret (Inl err)
                | Inr stat \<Rightarrow> go_bind (stat_object lib c [] stat 10) (\<lambda>ob.
                    Ret (Inr \<lparr>ReadCloser = f, or_Object = ob\<rparr>)))))"

definition fs_Open :: "('f, 'h, 'w) fs_ops \<Rightarrow> 'f fs_Client \<Rightarrow> string \<Rightarrow> 'h ObjectReader result go" where
  "fs_Open lib c name = fs_GetObject lib c name"

text \<open>\<open>io.Copy\<close> is the argument: the writer with what was copied into it, and the error.\<close>

definition fs_PutObject ::
    "('f, 'h, 'w) fs_ops \<Rightarrow> ('w \<Rightarrow> 'r \<Rightarrow> gerror option) \<Rightarrow> 'f fs_Client \<Rightarrow> string \<Rightarrow> 'r \<Rightarrow> gerror option" where
  "fs_PutObject lib io_Copy c objectPath ob =
     (case Option.bind (fs_fs c) (op_OpenFile lib) of
        Some OpenFile \<Rightarrow>
          (case OpenFile (strip_scheme objectPath) of
             Inl err \<Rightarrow> Some err
           | Inr w \<Rightarrow> io_Copy w ob)
      | None \<Rightarrow> Some ''not support put object'')"

definition fs_HeadObject :: "('f, 'h, 'w) fs_ops \<Rightarrow> 'f fs_Client \<Rightarrow> string \<Rightarrow> Object result go" where
  "fs_HeadObject lib c objectPath =
     (case os_Stat lib (strip_scheme objectPath) of
        Inl err \<Rightarrow> Ret (Inl err)
      | Inr stat \<Rightarrow> go_bind (stat_object lib c (strip_scheme objectPath) stat 64) (\<lambda>ob. Ret (Inr ob)))"

subsection \<open>Walking a directory tree\<close>

text \<open>
  What \<open>fs.Stat\<close> and \<open>fs.ReadDir\<close> show of a file system below a name: a file with the result of
  its \<open>Info\<close>, or a directory with the error of reading it or its entries.
\<close>

datatype entry =
  FileEnt (ent_name: string) "FileInfo result"
| DirEnt (ent_name: string) "gerror option" "entry list"

datatype walk_error = SkipDir | WalkErr gerror

type_synonym 's walk_fn = "string \<Rightarrow> entry option \<Rightarrow> gerror option \<Rightarrow> 's \<Rightarrow> 's \<times> walk_error option"

fun is_dir :: "entry \<Rightarrow> bool" where
  "is_dir (FileEnt n i) = False"
| "is_dir (DirEnt n e ds) = True"

text \<open>\<open>path.Join\<close> on the clean names that \<open>fs.FS\<close> uses.\<close>

definition path_Join :: "string \<Rightarrow> string \<Rightarrow> string" where
  "path_Join name x = (if name = ''.'' then x else name @ ''/'' @ x)"

definition unless_skip :: "entry \<Rightarrow> 's \<times> walk_error option \<Rightarrow> 's \<times> walk_error option" where
  "unless_skip d r = (fst r, if snd r = Some SkipDir \<and> is_dir d then None else snd r)"

fun walkDir :: "'s walk_fn \<Rightarrow> string \<Rightarrow> entry \<Rightarrow> 's \<Rightarrow> 's \<times> walk_error option"
and walkDirs :: "'s walk_fn \<Rightarrow> string \<Rightarrow> entry list \<Rightarrow> 's \<Rightarrow> 's \<times> walk_error option" where
  "walkDir fn name (FileEnt n i) s = fn name (Some (FileEnt n i)) None s"
| "walkDir fn name (DirEnt n e ds) s =
     (case fn name (Some (DirEnt n e ds)) None s of
        (s', Some err) \<Rightarrow> unless_skip (DirEnt n e ds) (s', Some err)
      | (s', None) \<Rightarrow>
          (case e of
             None \<Rightarrow> walkDirs fn name ds s'
           | Some err \<Rightarrow>
               (case fn name (Some (DirEnt n e ds)) (Some err) s' of
                  (s'', Some err') \<Rightarrow> unless_skip (DirEnt n e ds) (s'', Some err')
                | (s'', None) \<Rightarrow> walkDirs fn name ds s'')))"
| "walkDirs fn name [] s = (s, None)"
| "walkDirs fn name (d1 # ds) s =
     (case walkDir fn (path_Join name (ent_name d1)) d1 s of
        (s', None) \<Rightarrow> walkDirs fn name ds s'
      | (s', Some SkipDir) \<Rightarrow> (s', None)
      | (s', Some err) \<Rightarrow> (s', Some err))"

definition WalkDir :: "entry result \<Rightarrow> string \<Rightarrow> 's walk_fn \<Rightarrow> 's \<Rightarrow> 's \<times> gerror option" where
  "WalkDir stat root fn s =
     (case (case stat of Inl err \<Rightarrow> fn root None (Some err) s | Inr d \<Rightarrow> walkDir fn root d s) of
        (s', Some (WalkErr err)) \<Rightarrow> (s', Some err)
      | (s', _) \<Rightarrow> (s', None))"

definition listed_object :: "'f fs_Client \<Rightarrow> string \<Rightarrow> FileInfo result \<Rightarrow> Object" where
  "listed_object c path i =
     \<lparr>Key = path,
      LastModified = (case i of Inl _ \<Rightarrow> zero_time | Inr fi \<Rightarrow> fi_modTime fi),
      Size = (case i of Inl _ \<Rightarrow> 0 | Inr fi \<Rightarrow> fi_size fi),
      ETag = [], StorageClass = fs_Client_Type c, Mode = 0, Headers = Map.empty, Metadata = Map.empty\<rparr>"

text \<open>
  The function that \<open>ListObject\<close> walks with; the state is the list of objects the callback has been
  given. \<open>done path\<close> is the error of the context when the walk reaches \<open>path\<close>, if it is cancelled.
\<close>

definition list_visit :: "'f fs_Client \<Rightarrow> bool \<Rightarrow> (string \<Rightarrow> gerror option) \<Rightarrow> Object list walk_fn" where
  "list_visit c recursion ctx_done path info err objs =
     (case err of
        Some e \<Rightarrow> (objs, Some (WalkErr e))
      | None \<Rightarrow>
          (case info of
             None \<Rightarrow> (objs, None)
           | Some (DirEnt n e ds) \<Rightarrow>
               if path = ''.'' then (objs, None)
               else if \<not> recursion then (objs, Some SkipDir) else (objs, None)
           | Some (FileEnt n i) \<Rightarrow>
               (case ctx_done path of
                  Some e \<Rightarrow> (objs, Some (WalkErr e))
                | None \<Rightarrow> (objs @ [listed_object c path i], None))))"

definition fs_ListObject ::
    "('f \<Rightarrow> string \<Rightarrow> entry result) \<Rightarrow> (string \<Rightarrow> gerror option) \<Rightarrow> 'f fs_Client \<Rightarrow> string \<Rightarrow> bool \<Rightarrow>
     (Object list \<times> gerror option) go" where
  "fs_ListObject view ctx_done c objectPrefix recursion =
     (case fs_fs c of
        None \<Rightarrow> Panic nil_deref
      | Some fs \<Rightarrow>
          let root = strip_scheme objectPrefix in
          Ret (WalkDir (view fs root) root (list_visit c recursion ctx_done) []))"

subsection \<open>Construction\<close>

text \<open>\<open>zip.OpenReader\<close> and the constructors of package \<open>afero\<close>; \<open>iofs_Name\<close> is the name of an \<open>afero.IOFS\<close>.\<close>

record 'f fs_lib =
  zip_OpenReader :: "string \<Rightarrow> 'f result"
  NewMemMapFs :: 'f
  NewBasePathFs :: "string \<Rightarrow> 'f"
  iofs_Name :: "'f \<Rightarrow> string option"

definition fs_NewClient :: "'f fs_lib \<Rightarrow> 'f option \<Rightarrow> ConfigProvider option \<Rightarrow> 'f fs_Client result" where
  "fs_NewClient lib fs v =
     (let storageType = (case v of None \<Rightarrow> [] | Some v \<Rightarrow> GetString v ''type'');
          base = (case v of None \<Rightarrow> [] | Some v \<Rightarrow> GetString v ''base'');
          opened =
            (if fs \<noteq> None then Inr fs
             else if storageType = ''zip'' then map_sum id Some (zip_OpenReader lib base)
             else if storageType \<in> {''in-memory'', ''inmemory''} then Inr (Some (NewMemMapFs lib))
             else if storageType \<in> {''local'', ''file''} then Inr (Some (NewBasePathFs lib base))
             else Inr None)
      in case opened of
           Inl err \<Rightarrow> Inl err
         | Inr fs' \<Rightarrow>
             let t = (if storageType \<noteq> [] then storageType
                      else case Option.bind fs' (iofs_Name lib) of Some n \<Rightarrow> n | None \<Rightarrow> ''unknown'')
             in Inr \<lparr>fs_fs = fs', fs_fsType = t, fs_Base = base, fs_Type = t\<rparr>)"

text \<open>The package's \<open>init\<close>; \<open>wrap\<close> makes a \<open>storage.Storage\<close> of a client.\<close>

definition fs_init :: "'f fs_lib \<Rightarrow> ('f fs_Client \<Rightarrow> 's) \<Rightarrow> 's registry \<Rightarrow> 's registry go" where
  "fs_init lib wrap reg =
     (let newFunc = (\<lambda>v. map_sum id wrap (fs_NewClient lib None (Some v))) in
      go_bind (RegisterStorage ''local'' newFunc reg) (\<lambda>reg.
      go_bind (RegisterStorage ''file'' newFunc reg) (\<lambda>reg.
      go_bind (RegisterStorage ''zip'' newFunc reg) (\<lambda>reg.
      go_bind (RegisterStorage ''in-memory'' newFunc reg) (\<lambda>reg.
      RegisterStorage ''inmemory'' newFunc reg)))))"

section \<open>Permission strings are read back\<close>

text \<open>\<open>FileMode.String\<close> of the standard library, which prints the strings that are parsed here.\<close>

definition FileMode_String :: "filemode \<Rightarrow> string" where
  "FileMode_String m =
     (let t = concat (map (\<lambda>i. if bit m (32 - 1 - i) then [type_chars ! i] else []) [0..<13]) in
      (if t = [] then ''-'' else t) @
      map (\<lambda>i. if bit m (9 - 1 - i) then rwx_chars ! i else CHR ''-'') [0..<9])"

lemma perm_loop_bits:
  assumes "i + length chs \<le> 9"
  shows "\<exists>m. perm_loop i chs mode = Ret m \<and>
    (\<forall>k. bit m k \<longleftrightarrow> bit mode k \<or> (\<exists>j<length chs. k = 8 - (i + j) \<and> rune (rwx_chars ! (i + j)) = chs ! j))"
  using assms
proof (induction chs arbitrary: i mode)
  case (Cons ch chs)
  let ?mode = "if rune (rwx_chars ! i) = ch then mode OR push_bit (8 - i) 1 else mode"
  have l: "i < length rwx_chars" using Cons.prems by (simp add: rwx_chars_def)
  obtain m where m: "perm_loop (i + 1) chs ?mode = Ret m"
    "\<And>k. bit m k \<longleftrightarrow> bit ?mode k \<or>
      (\<exists>j<length chs. k = 8 - (i + 1 + j) \<and> rune (rwx_chars ! (i + 1 + j)) = chs ! j)"
    using Cons.IH [of "i + 1" ?mode] Cons.prems by auto
  have "bit m k \<longleftrightarrow> bit mode k \<or>
      (\<exists>j<length (ch # chs). k = 8 - (i + j) \<and> rune (rwx_chars ! (i + j)) = (ch # chs) ! j)" for k
    unfolding m(2) by (simp add: Ex_less_Suc2 bit_or_iff bit_exp_iff) auto
  then show ?case using m(1) l by simp
qed simp

lemma type_loop_bits:
  "i + length cs \<le> 32 \<Longrightarrow>
   bit (type_loop p i cs mode) k \<longleftrightarrow> bit mode k \<or> (\<exists>j<length cs. k = 31 - (i + j) \<and> p = rune (cs ! j))"
proof (induction cs arbitrary: i mode)
  case (Cons c cs)
  then show ?case
    by (simp add: Ex_less_Suc2 bit_or_iff bit_exp_iff) auto
qed simp

lemma type_chars_distinct: "distinct type_chars" "length type_chars = 13"
  by (simp_all add: type_chars_def)

lemma type_loop_single:
  assumes "i < 13"
  shows "type_loop (rune (type_chars ! i)) 0 type_chars 0 = push_bit (31 - i) 1"
proof (rule bit_word_eqI)
  fix k assume "k < LENGTH(32)"
  have "rune (type_chars ! i) = rune (type_chars ! j) \<longleftrightarrow> i = j" if "j < 13" for j
    using that assms nth_eq_iff_index_eq [OF type_chars_distinct(1), of i j] type_chars_distinct(2) by simp
  then show "bit (type_loop (rune (type_chars ! i)) 0 type_chars 0) k = bit (push_bit (31 - i) 1 :: filemode) k"
    using assms by (auto simp: type_loop_bits type_chars_distinct bit_exp_iff)
qed

lemma runes_permissions:
  "list_all (\<lambda>c. c \<in> set (type_chars @ rwx_chars @ ''-'')) s \<Longrightarrow> runes s = map rune s"
proof (rule runes_ascii)
  have "list_all (\<lambda>c. rune c < 128) (type_chars @ rwx_chars @ ''-'')"
    by (simp add: type_chars_def rwx_chars_def)
  then show "list_all (\<lambda>c. rune c < 128) s"
    if "list_all (\<lambda>c. c \<in> set (type_chars @ rwx_chars @ ''-'')) s"
    using that unfolding list_all_iff by blast
qed

text \<open>A mode that has a permission string: at most one type bit, and nothing between type and permissions.\<close>

definition printable_mode :: "filemode \<Rightarrow> bool" where
  "printable_mode m \<longleftrightarrow> m AND NOT 0x1FF \<in> insert 0 ((\<lambda>i. push_bit (31 - i) 1) ` {..<13})"

lemma high_bits:
  "bit (m AND NOT 0x1FF) k \<longleftrightarrow> bit m k \<and> 9 \<le> k" for m :: filemode
proof -
  have "NOT (0x1FF :: filemode) = NOT (mask 9)" by (simp add: mask_eq_exp_minus_1)
  then have "bit (m AND NOT 0x1FF) k \<longleftrightarrow> bit (m AND NOT (mask 9)) k" by (simp only:)
  also have "\<dots> \<longleftrightarrow> bit m k \<and> 9 \<le> k"
    by (auto simp: bit_and_iff bit_not_iff bit_mask_iff dest: bit_imp_le_length)
  finally show ?thesis .
qed

lemma concat_single: "concat (map (\<lambda>j. if j = i then [x] else []) [0..<n]) = (if i < n then [x] else [])"
  by (induction n) auto

lemma type_string:
  assumes "m AND NOT 0x1FF = (if i < 13 then push_bit (31 - i) 1 else 0 :: filemode)"
  shows "concat (map (\<lambda>j. if bit m (32 - 1 - j) then [type_chars ! j] else []) [0..<13]) =
         (if i < 13 then [type_chars ! i] else [])"
proof -
  have b: "bit m (32 - 1 - j) \<longleftrightarrow> j = i" if "j < 13" for j
    using high_bits [of m "31 - j"] that unfolding assms
    by (auto simp: bit_exp_iff split: if_splits)
  have "concat (map (\<lambda>j. if bit m (32 - 1 - j) then [type_chars ! j] else []) [0..<13]) =
      concat (map (\<lambda>j. if j = i then [type_chars ! i] else []) [0..<13])"
    using b by (intro arg_cong [of _ _ concat] map_cong) auto
  also have "\<dots> = (if i < 13 then [type_chars ! i] else [])"
    by (rule concat_single)
  finally show ?thesis .
qed

lemma rwx_chars_nth:
  assumes "j < 9"
  shows "rwx_chars ! j \<in> set rwx_chars" "rwx_chars ! j \<noteq> CHR ''-''"
proof -
  have "CHR ''-'' \<notin> set rwx_chars" "length rwx_chars = 9" by (simp_all add: rwx_chars_def)
  then show "rwx_chars ! j \<in> set rwx_chars" "rwx_chars ! j \<noteq> CHR ''-''" using assms by (metis nth_mem)+
qed

lemma perm_string_bits:
  "\<exists>r. perm_loop 0 (map (\<lambda>i. rune (if bit m (9 - 1 - i) then rwx_chars ! i else CHR ''-'')) [0..<9]) mode = Ret r \<and>
       (\<forall>k. bit r k \<longleftrightarrow> bit mode k \<or> (k \<le> 8 \<and> bit m k))"
proof -
  define ps where "ps = map (\<lambda>i. rune (if bit m (9 - 1 - i) then rwx_chars ! i else CHR ''-'')) [0..<9]"
  have nth: "rune (rwx_chars ! j) = ps ! j \<longleftrightarrow> bit m (8 - j)" if "j < 9" for j
    using that rwx_chars_nth(2) [OF that] by (auto simp: ps_def)
  have "(\<exists>j<9. k = 8 - j \<and> rune (rwx_chars ! j) = ps ! j) \<longleftrightarrow> k \<le> 8 \<and> bit m k" for k
  proof
    assume "k \<le> 8 \<and> bit m k"
    then have "8 - k < 9" "k = 8 - (8 - k)" "rune (rwx_chars ! (8 - k)) = ps ! (8 - k)" using nth [of "8 - k"] by simp_all
    then show "\<exists>j<9. k = 8 - j \<and> rune (rwx_chars ! j) = ps ! j" by metis
  qed (use nth in auto)
  moreover have "length ps = 9" by (simp add: ps_def)
  ultimately show ?thesis using perm_loop_bits [of 0 ps mode] unfolding ps_def [symmetric] by simp
qed

lemma permission_string_chars:
  assumes "i < 13"
  shows "type_chars ! i \<in> set type_chars" "type_chars ! i \<noteq> CHR ''-''"
proof -
  show "type_chars ! i \<in> set type_chars" using assms type_chars_distinct(2) by simp
  moreover have "CHR ''-'' \<notin> set type_chars" by (simp add: type_chars_def)
  ultimately show "type_chars ! i \<noteq> CHR ''-''" by metis
qed



section \<open>Listing\<close>

fun tree_ok :: "entry \<Rightarrow> bool" where
  "tree_ok (FileEnt n i) = True"
| "tree_ok (DirEnt n e ds) = (e = None \<and> list_all tree_ok ds)"

text \<open>The files below a name with their full paths, in the order of the directories.\<close>

fun tree_files :: "string \<Rightarrow> entry \<Rightarrow> (string \<times> FileInfo result) list" where
  "tree_files name (FileEnt n i) = [(name, i)]"
| "tree_files name (DirEnt n e ds) = concat (map (\<lambda>d. tree_files (path_Join name (ent_name d)) d) ds)"

fun dir_files :: "string \<Rightarrow> entry \<Rightarrow> (string \<times> FileInfo result) list" where
  "dir_files name (FileEnt n i) = [(name, i)]"
| "dir_files name (DirEnt n e ds) = []"

abbreviation listed :: "'f fs_Client \<Rightarrow> (string \<times> FileInfo result) list \<Rightarrow> Object list" where
  "listed c fs \<equiv> map (\<lambda>(path, i). listed_object c path i) fs"

lemma list_visit_recursive:
  "list_visit c True ctx_done path (Some (DirEnt n e ds)) None objs = (objs, None)"
  "list_visit c True (\<lambda>_. None) path (Some (FileEnt n i)) None objs = (objs @ [listed_object c path i], None)"
  by (simp_all add: list_visit_def)

lemma walk_recursive:
  shows "fn = list_visit c True (\<lambda>_. None) \<Longrightarrow> tree_ok d \<Longrightarrow>
           walkDir fn name d objs = (objs @ listed c (tree_files name d), None)"
    and "fn = list_visit c True (\<lambda>_. None) \<Longrightarrow> list_all tree_ok ds \<Longrightarrow>
           walkDirs fn name ds objs =
             (objs @ listed c (concat (map (\<lambda>d. tree_files (path_Join name (ent_name d)) d) ds)), None)"
  by (induction fn name d objs and fn name ds objs rule: walkDir_walkDirs.induct)
    (simp_all add: list_visit_recursive)

lemma walk_flat:
  "name \<noteq> ''.'' \<Longrightarrow> walkDir (list_visit c False (\<lambda>_. None)) name d objs = (objs @ listed c (dir_files name d), None)"
  by (cases d) (simp_all add: list_visit_def unless_skip_def)

lemma walks_flat:
  "list_all (\<lambda>d. path_Join name (ent_name d) \<noteq> ''.'') ds \<Longrightarrow>
   walkDirs (list_visit c False (\<lambda>_. None)) name ds objs =
     (objs @ listed c (concat (map (\<lambda>d. dir_files (path_Join name (ent_name d)) d) ds)), None)"
  by (induction ds arbitrary: objs) (simp_all add: walk_flat)

text \<open>C33: On a directory tree that can be read, with a context that is not cancelled, a recursive
  ListObject of the file system backend reports every file below the prefix exactly once with its full
  path, in the order of the directories; a non-recursive one of the root reports exactly the files that
  are directly in it.\<close>

theorem fs_list_object:
  assumes "fs_fs c = Some fs" "view fs (strip_scheme p) = Inr t" "tree_ok t"
    and "view fs ''.'' = Inr (DirEnt n None ds)" "list_all (\<lambda>d. ent_name d \<noteq> ''.'') ds"
  shows "fs_ListObject view (\<lambda>_. None) c p True = Ret (listed c (tree_files (strip_scheme p) t), None) \<and>
         fs_ListObject view (\<lambda>_. None) c ''.'' False =
           Ret (listed c (concat (map (\<lambda>d. dir_files (ent_name d) d) ds)), None)"
proof
  show "fs_ListObject view (\<lambda>_. None) c p True = Ret (listed c (tree_files (strip_scheme p) t), None)"
    using assms walk_recursive(1) [OF refl assms(3), of c "strip_scheme p" "[]"]
    by (simp add: fs_ListObject_def WalkDir_def)
  have "strip_scheme ''.'' = ''.''" by (simp add: strip_scheme_def HasPrefix_def)
  then show "fs_ListObject view (\<lambda>_. None) c ''.'' False =
           Ret (listed c (concat (map (\<lambda>d. dir_files (ent_name d) d) ds)), None)"
    using assms walks_flat [of "''.''" ds c "[]"]
    by (simp add: fs_ListObject_def WalkDir_def list_visit_def path_Join_def)
qed

theorem fs_list_object_witness:
  "\<exists>view c.
     fs_ListObject view (\<lambda>_. None) (c :: unit fs_Client) ''file://.'' True =
       Ret (listed c [(''a'', Inl ''no info''), (''d/b'', Inl ''no info'')], None) \<and>
     fs_ListObject view (\<lambda>_. None) c ''.'' False = Ret (listed c [(''a'', Inl ''no info'')], None)"
proof -
  let ?ds = "[FileEnt ''a'' (Inl ''no info''), DirEnt ''d'' None [FileEnt ''b'' (Inl ''no info'')]]"
  let ?view = "\<lambda>_ _. Inr (DirEnt ''.'' None ?ds)"
  let ?c = "\<lparr>fs_fs = Some (), fs_fsType = ''local'', fs_Base = [], fs_Type = ''local''\<rparr>"
  have s: "strip_scheme ''file://.'' = ''.''" by (simp add: strip_scheme_def HasPrefix_def TrimPrefix_def)
  show ?thesis
    by (intro exI [of _ ?view] exI [of _ ?c])
      (use fs_list_object [of ?c "()" ?view "''file://.''" "DirEnt ''.'' None ?ds" "''.''" ?ds] in
        \<open>simp add: s path_Join_def\<close>)
qed

text \<open>A non-recursive ListObject of any directory other than the root reports nothing and no error,
  since the walk skips the very directory it starts from.\<close>

theorem fs_list_object_prefix_empty:
  assumes "fs_fs c = Some fs" "view fs (strip_scheme p) = Inr (DirEnt n e ds)" "strip_scheme p \<noteq> ''.''"
  shows "fs_ListObject view ctx_done c p False = Ret ([], None)"
  using assms by (simp add: fs_ListObject_def WalkDir_def list_visit_def unless_skip_def)

theorem fs_list_object_prefix_empty_witness:
  "\<exists>c. fs_ListObject (\<lambda>_ _. Inr (DirEnt ''data'' None [FileEnt ''a'' (Inl ''no info'')])) (\<lambda>_. None)
     (c :: unit fs_Client) ''data'' False = Ret ([], None)"
proof
  let ?c = "\<lparr>fs_fs = Some (), fs_fsType = ''local'', fs_Base = [], fs_Type = ''local''\<rparr>"
  show "fs_ListObject (\<lambda>_ _. Inr (DirEnt ''data'' None [FileEnt ''a'' (Inl ''no info'')])) (\<lambda>_. None)
     ?c ''data'' False = Ret ([], None)"
    by (rule fs_list_object_prefix_empty [of ?c "()"]) (simp_all add: strip_scheme_def HasPrefix_def)
qed

section \<open>Objects of files\<close>

lemma FormatInt_64: "FormatInt i 64 = Panic ''strconv: illegal AppendInt/FormatInt base''"
  by (simp add: FormatInt_def int_digits_def)

text \<open>HeadObject of the file system backend never returns an object: for a file that exists it
  panics, because it prints the size in base 64. GetObject of the same file describes it correctly.\<close>

theorem fs_head_object_panics:
  assumes "os_Stat lib (strip_scheme p) = Inr stat"
    and "fs_fs c = Some fs" "op_Open lib fs (strip_scheme p) = Inr f" "op_Stat lib f = Inr stat" "0 \<le> fi_size stat"
  shows "fs_HeadObject lib c p = Panic ''strconv: illegal AppendInt/FormatInt base'' \<and>
         (\<exists>r. fs_GetObject lib c p = Ret (Inr r) \<and> ReadCloser r = f \<and> Size (or_Object r) = fi_size stat \<and>
              LastModified (or_Object r) = fi_modTime stat \<and> Mode (or_Object r) = fi_mode stat \<and>
              Headers (or_Object r) ''Content-Length'' = Some [formatBits 10 (nat (fi_size stat))])"
  using assms
  by (simp add: fs_HeadObject_def fs_GetObject_def stat_object_def FormatInt_64 FormatInt_def int_digits_def)

theorem fs_head_object_panics_witness:
  "\<exists>lib :: (unit, unit, unit) fs_ops. \<exists>c p.
     fs_HeadObject lib c p = Panic ''strconv: illegal AppendInt/FormatInt base''"
proof -
  let ?st = "\<lparr>fi_name = ''a'', fi_size = 3, fi_mode = 0, fi_modTime = 0\<rparr>"
  let ?lib = "\<lparr>op_Open = (\<lambda>_ _. Inr ()), op_Stat = (\<lambda>_. Inr ?st), op_ReadDir = (\<lambda>_ _. Inr []),
    op_OpenFile = (\<lambda>_. None), os_Stat = (\<lambda>_. Inr ?st), FormatDateTime = (\<lambda>_. [])\<rparr> :: (unit, unit, unit) fs_ops"
  let ?c = "\<lparr>fs_fs = Some (), fs_fsType = ''local'', fs_Base = [], fs_Type = ''local''\<rparr>"
  show ?thesis
    by (intro exI [of _ ?lib] exI [of _ ?c] exI [of _ "''a''"])
      (use fs_head_object_panics [of ?lib "''a''" ?st ?c "()" "()"] in simp)
qed

section \<open>The registry\<close>

definition fs_types :: "string set" where
  "fs_types = {''local'', ''file'', ''zip'', ''in-memory'', ''inmemory''}"

text \<open>After the backend's init, NewClient constructs a file system client for exactly its five
  types, keeps every other registration, and reports an error for an empty or an unknown type; a second
  init panics.\<close>

theorem storage_registry:
  assumes "dom reg \<inter> fs_types = {}"
  shows "\<exists>reg'. fs_init lib wrap reg = Ret reg' \<and> dom reg' = dom reg \<union> fs_types \<and>
     (\<forall>v. NewClient reg' v =
       (let t = GetString v ''type'' in
        if t \<in> fs_types then map_sum id wrap (fs_NewClient lib None (Some v))
        else if t = [] then Inl ''storage type is empty''
        else case reg t of Some newFunc \<Rightarrow> newFunc v | None \<Rightarrow> Inl (''unknown backend type '' @ t))) \<and>
     fs_init lib wrap reg' = Panic ''Duplicate registration of storage types''"
proof -
  let ?new = "\<lambda>v. map_sum id wrap (fs_NewClient lib None (Some v))"
  let ?reg = "reg(''local'' \<mapsto> ?new, ''file'' \<mapsto> ?new, ''zip'' \<mapsto> ?new, ''in-memory'' \<mapsto> ?new, ''inmemory'' \<mapsto> ?new)"
  have "reg t = None" if "t \<in> fs_types" for t using assms that by blast
  then have "fs_init lib wrap reg = Ret ?reg"
    by (simp add: fs_init_def RegisterStorage_def fs_types_def Let_def)
  moreover have "dom ?reg = dom reg \<union> fs_types" by (auto simp: fs_types_def)
  moreover have "NewClient ?reg v =
       (let t = GetString v ''type'' in
        if t \<in> fs_types then map_sum id wrap (fs_NewClient lib None (Some v))
        else if t = [] then Inl ''storage type is empty''
        else case reg t of Some newFunc \<Rightarrow> newFunc v | None \<Rightarrow> Inl (''unknown backend type '' @ t))" for v
    by (auto simp: NewClient_def fs_types_def Let_def)
  moreover have "fs_init lib wrap ?reg = Panic ''Duplicate registration of storage types''"
    by (simp add: fs_init_def RegisterStorage_def Let_def)
  ultimately show ?thesis by blast
qed

theorem storage_registry_witness:
  "\<exists>lib :: unit fs_lib. \<exists>reg'. fs_init lib id Map.empty = Ret reg' \<and> dom reg' = fs_types"
proof -
  let ?lib = "\<lparr>zip_OpenReader = (\<lambda>_. Inl ''no file''), NewMemMapFs = (), NewBasePathFs = (\<lambda>_. ()),
    iofs_Name = (\<lambda>_. None)\<rparr> :: unit fs_lib"
  show ?thesis by (rule exI [of _ ?lib]) (use storage_registry [of Map.empty ?lib id] in auto)
qed

end
