(* ===== verification/ObjectStore.thy ===== *)
theory ObjectStore
  imports Storage SafeString
begin

text \<open>
  The two object store backends, \<open>clients/storage/s3/s3.go\<close> and \<open>clients/storage/oss/oss.go\<close>. The
  calls of the vendors' clients are arguments; what is modelled is what the packages add to them:
  how a path names a bucket and a key, which request is sent, how a reply becomes an object, the
  loop over the pages of a listing, and how a client is configured.
\<close>

section \<open>Replies of the services\<close>

text \<open>\<open>strings.Trim(s, cutset)\<close> for a cutset of one byte; \<open>aws.ToString\<close> and its like read a pointer.\<close>

definition trim_char :: "char \<Rightarrow> string \<Rightarrow> string" where
  "trim_char c s = rev (dropWhile ((=) c) (rev (dropWhile ((=) c) s)))"

definition to_string :: "string option \<Rightarrow> string" where
  "to_string p = (case p of None \<Rightarrow> [] | Some s \<Rightarrow> s)"

definition to_int :: "int option \<Rightarrow> int" where
  "to_int p = (case p of None \<Rightarrow> 0 | Some i \<Rightarrow> i)"

definition to_time :: "gtime option \<Rightarrow> gtime" where
  "to_time p = (case p of None \<Rightarrow> zero_time | Some i \<Rightarrow> i)"

definition map_lookup :: "(string \<rightharpoonup> string) \<Rightarrow> string \<Rightarrow> string" where
  "map_lookup m k = (case m k of None \<Rightarrow> [] | Some v \<Rightarrow> v)"

definition header_first :: "http_header \<Rightarrow> string \<Rightarrow> string" where
  "header_first h k = (case h k of Some (v # _) \<Rightarrow> v | _ \<Rightarrow> [])"

record s3_output =
  out_LastModified :: "gtime option"
  out_ContentLength :: "int option"
  out_ContentType :: "string option"
  out_ContentEncoding :: "string option"
  out_ContentLanguage :: "string option"
  out_ContentDisposition :: "string option"
  out_CacheControl :: "string option"
  out_ExpiresString :: "string option"
  out_ETag :: "string option"
  out_StorageClass :: string
  out_Metadata :: "string \<rightharpoonup> string"

record oss_output =
  oss_LastModified :: "gtime option"
  oss_ContentLength :: int
  oss_ETag :: "string option"
  oss_Headers :: http_header
  oss_Metadata :: "string \<rightharpoonup> string"

text \<open>
  An entry of a listing and a page of it. A field that one of the vendors' types holds as a plain
  value is present there.
\<close>

record list_item =
  it_Key :: "string option"
  it_LastModified :: "gtime option"
  it_Size :: "int option"
  it_ETag :: "string option"
  it_StorageClass :: "string option"

record list_page =
  Contents :: "list_item list"
  NextContinuationToken :: "string option"

section \<open>Paths\<close>

definition s3_resolveObjectPath :: "string \<Rightarrow> string \<Rightarrow> (string \<times> string) result" where
  "s3_resolveObjectPath c_bucket objectPath =
     (let r = (if \<not> HasPrefix objectPath ''s3://'' then Inr (objectPath, c_bucket)
               else case Cut (TrimPrefix objectPath ''s3://'') CHR ''/'' of (bucket, key, found) \<Rightarrow>
                 if \<not> found then Inl (''invalid object path: path is empty: '' @ objectPath)
                 else Inr (key, bucket))
      in case r of
           Inl err \<Rightarrow> Inl err
         | Inr (key, bucket) \<Rightarrow>
             if length bucket = 0 then Inl ''invalid object path: bucket is empty'' else Inr (key, bucket))"

text \<open>The same steps at the head of the operations of the OSS client, with its check of the path.\<close>

definition oss_resolve :: "string \<Rightarrow> string \<Rightarrow> (string \<times> string) result" where
  "oss_resolve c_bucket objectPath =
     (let r = (if \<not> HasPrefix objectPath ''oss://'' then Inr (objectPath, c_bucket)
               else case Cut (TrimPrefix objectPath ''oss://'') CHR ''/'' of (bucket, key, found) \<Rightarrow>
                 if \<not> found then Inl (''invalid object path: path is empty: '' @ objectPath)
                 else Inr (key, bucket))
      in case r of
           Inl err \<Rightarrow> Inl err
         | Inr (key, bucket) \<Rightarrow>
             if length bucket = 0 then Inl ''invalid object path: bucket is empty''
             else if length objectPath = 0 then Inl ''invalid object path: path is empty''
             else Inr (key, bucket))"

section \<open>S3 objects\<close>

record s3_Options =
  o_Type :: string
  o_Endpoint :: string
  o_AccessKeyId :: string
  o_SecretAccessKey :: SString
  o_Bucket :: string
  o_Region :: string

text \<open>What \<open>s3.NewFromConfig\<close> is given.\<close>

record s3_config =
  cfg_Region :: string
  cfg_AccessKeyID :: string
  cfg_SecretAccessKey :: string
  cfg_BaseEndpoint :: string

record s3_Client =
  s3_clt :: s3_config
  s3_bucket :: string
  s3_o :: s3_Options

definition s3_Type :: string where
  "s3_Type = ''s3''"

definition s3_Name :: "s3_Client \<Rightarrow> string" where
  "s3_Name c = s3_Type @ ''://'' @ s3_bucket c"

text \<open>
  An error of a call: whether it holds a \<open>smithy.OperationError\<close>, and the status of the
  \<open>http.ResponseError\<close> within that.
\<close>

datatype store_error = CallError bool "nat option" string | PathError gerror | ErrNotExist

definition s3_headers :: "(gtime \<Rightarrow> string) \<Rightarrow> s3_output \<Rightarrow> http_header go" where
  "s3_headers FormatHTTPDate ret =
     go_bind (FormatInt (to_int (out_ContentLength ret)) 64) (\<lambda>len.
       Ret [''Content-Type'' \<mapsto> [to_string (out_ContentType ret)],
            ''Content-Encoding'' \<mapsto> [to_string (out_ContentEncoding ret)],
            ''Content-Language'' \<mapsto> [to_string (out_ContentLanguage ret)],
            ''Content-Disposition'' \<mapsto> [to_string (out_ContentDisposition ret)],
            ''Cache-Control'' \<mapsto> [to_string (out_CacheControl ret)],
            ''Expires'' \<mapsto> [to_string (out_ExpiresString ret)],
            ''Content-Length'' \<mapsto> [len],
            ''Last-Modified'' \<mapsto> [FormatHTTPDate (to_time (out_LastModified ret))],
            ''ETag'' \<mapsto> [to_string (out_ETag ret)]])"

definition s3_GetObject ::
    "(gtime \<Rightarrow> string) \<Rightarrow> (string \<Rightarrow> string \<Rightarrow> store_error + 'b \<times> s3_output) \<Rightarrow> s3_Client \<Rightarrow> string \<Rightarrow>
     (store_error + 'b ObjectReader) go" where
  "s3_GetObject FormatHTTPDate call c objectPath =
     (case s3_resolveObjectPath (s3_bucket c) objectPath of
        Inl err \<Rightarrow> Ret (Inl (PathError err))
      | Inr (key, bucket) \<Rightarrow>
          if length key = 0 then Ret (Inl (PathError ''invalid object path: path is empty''))
          else case call bucket key of
              Inl err \<Rightarrow> Ret (Inl err)
            | Inr (body, ret) \<Rightarrow>
                go_bind (s3_headers FormatHTTPDate ret) (\<lambda>headers.
                go_bind (RawPermissionsToMode (map_lookup (out_Metadata ret) ''x-amz-meta-file-permissions'')) (\<lambda>mode.
                  Ret (Inr \<lparr>ReadCloser = body, or_Object =
                    \<lparr>Key = [], LastModified = to_time (out_LastModified ret), Size = to_int (out_ContentLength ret),
                     ETag = [], StorageClass = [], Mode = mode, Headers = headers, Metadata = out_Metadata ret\<rparr>\<rparr>))))"

definition s3_HeadObject ::
    "(gtime \<Rightarrow> string) \<Rightarrow> (string \<Rightarrow> string \<Rightarrow> store_error + s3_output) \<Rightarrow> s3_Client \<Rightarrow> string \<Rightarrow>
     (store_error + Object) go" where
  "s3_HeadObject FormatHTTPDate call c objectPath =
     (case s3_resolveObjectPath (s3_bucket c) objectPath of
        Inl err \<Rightarrow> Ret (Inl (PathError err))
      | Inr (key, bucket) \<Rightarrow>
          if length key = 0 then Ret (Inl (PathError ''invalid object path: path is empty''))
          else case call bucket key of
              Inl err \<Rightarrow>
                (case err of
                   CallError True (Some status) msg \<Rightarrow> Ret (Inl (if status = 404 then ErrNotExist else err))
                 | _ \<Rightarrow> Ret (Inl err))
            | Inr info \<Rightarrow>
                (case (out_LastModified info, out_ContentLength info) of
                   (Some t, Some len) \<Rightarrow>
                     go_bind (s3_headers FormatHTTPDate info) (\<lambda>headers.
                     go_bind (RawPermissionsToMode (map_lookup (out_Metadata info) ''x-amz-meta-file-permissions'')) (\<lambda>mode.
                       Ret (Inr
                         \<lparr>Key = key, LastModified = t, Size = len, ETag = trim_char CHR 0x22 (to_string (out_ETag info)),
                          StorageClass = out_StorageClass info, Mode = mode, Headers = headers,
                          Metadata = out_Metadata info\<rparr>)))
                 | _ \<Rightarrow> Panic nil_deref))"

text \<open>The request of \<open>PutObject\<close>; \<open>names\<close> is the order in which the loop meets the header's names.\<close>

record put_request =
  put_Key :: string
  put_Bucket :: string
  put_Metadata :: "string \<rightharpoonup> string"
  put_ContentType :: "string option"
  put_ContentEncoding :: "string option"
  put_ContentLanguage :: "string option"
  put_ContentDisposition :: "string option"
  put_CacheControl :: "string option"
  put_Expires :: "string option"

definition blank_request :: "string \<Rightarrow> string \<Rightarrow> (string \<rightharpoonup> string) \<Rightarrow> put_request" where
  "blank_request key bucket metadata =
     \<lparr>put_Key = key, put_Bucket = bucket, put_Metadata = metadata, put_ContentType = None,
      put_ContentEncoding = None, put_ContentLanguage = None, put_ContentDisposition = None,
      put_CacheControl = None, put_Expires = None\<rparr>"

text \<open>\<open>date\<close> is what \<open>ParseHTTPDate\<close> reads from the value, in the form the request carries it.\<close>

definition s3_set_header :: "(string \<Rightarrow> string option) \<Rightarrow> http_header \<Rightarrow> put_request \<Rightarrow> string \<Rightarrow> put_request" where
  "s3_set_header ParseHTTPDate headers req name =
     (let v = header_first headers name in
      if name = ''Content-Type'' then req\<lparr>put_ContentType := Some v\<rparr>
      else if name = ''Content-Encoding'' then req\<lparr>put_ContentEncoding := Some v\<rparr>
      else if name = ''Content-Language'' then req\<lparr>put_ContentLanguage := Some v\<rparr>
      else if name = ''Content-Disposition'' then req\<lparr>put_ContentDisposition := Some v\<rparr>
      else if name = ''Cache-Control'' then req\<lparr>put_CacheControl := Some v\<rparr>
      else if name = ''Expires'' then
        (case ParseHTTPDate v of None \<Rightarrow> req | Some date \<Rightarrow> req\<lparr>put_Expires := Some date\<rparr>)
      else req)"

definition s3_PutObject ::
    "(string \<Rightarrow> string option) \<Rightarrow> (put_request \<Rightarrow> 'r \<Rightarrow> store_error option) \<Rightarrow> s3_Client \<Rightarrow> string \<Rightarrow> 'r \<Rightarrow>
     http_header \<Rightarrow> string list \<Rightarrow> (string \<rightharpoonup> string) \<Rightarrow> store_error option" where
  "s3_PutObject ParseHTTPDate upload c objectPath ob headers names metadata =
     (case s3_resolveObjectPath (s3_bucket c) objectPath of
        Inl err \<Rightarrow> Some (PathError err)
      | Inr (key, bucket) \<Rightarrow>
          if length key = 0 then Some (PathError ''invalid object path: path is empty'')
          else upload (foldl (s3_set_header ParseHTTPDate headers) (blank_request key bucket metadata) names) ob)"

section \<open>Listing page by page\<close>

text \<open>
  The loop over the pages, common to both clients: \<open>fetch\<close> is the call with the continuation token,
  \<open>conv\<close> what the callback is given for an entry, and the state is the number of times the context
  has been asked whether it is cancelled and the objects reported so far. The service decides how
  many pages there are, so the loop may not end.
\<close>

fun contents_loop ::
    "(nat \<Rightarrow> 'e option) \<Rightarrow> ('c \<Rightarrow> Object) \<Rightarrow> nat \<Rightarrow> 'c list \<Rightarrow> Object list \<Rightarrow> nat \<times> Object list \<times> 'e option" where
  "contents_loop ctx_done conv n [] objs = (n, objs, None)"
| "contents_loop ctx_done conv n (x # xs) objs =
     (case ctx_done n of
        Some e \<Rightarrow> (n, objs, Some e)
      | None \<Rightarrow> contents_loop ctx_done conv (n + 1) xs (objs @ [conv x]))"

partial_function (option) list_loop ::
    "(nat \<Rightarrow> 'e option) \<Rightarrow> (list_item \<Rightarrow> Object) \<Rightarrow> (string option \<Rightarrow> 'e + list_page) \<Rightarrow> nat \<Rightarrow> string option \<Rightarrow>
     Object list \<Rightarrow> (Object list \<times> 'e option) option" where
  "list_loop ctx_done conv fetch n continueToken objs =
     (case ctx_done n of
        Some e \<Rightarrow> Some (objs, Some e)
      | None \<Rightarrow>
          (case fetch continueToken of
             Inl err \<Rightarrow> Some (objs, Some err)
           | Inr result \<Rightarrow>
               (case contents_loop ctx_done conv (n + 1) (Contents result) objs of
                  (n', objs', Some e) \<Rightarrow> Some (objs', Some e)
                | (n', objs', None) \<Rightarrow>
                    if NextContinuationToken result = None \<or> length (to_string (NextContinuationToken result)) = 0
                    then Some (objs', None)
                    else list_loop ctx_done conv fetch n' (NextContinuationToken result) objs')))"

definition s3_listed :: "list_item \<Rightarrow> Object" where
  "s3_listed it =
     \<lparr>Key = to_string (it_Key it), LastModified = to_time (it_LastModified it), Size = to_int (it_Size it),
      ETag = trim_char CHR 0x22 (to_string (it_ETag it)), StorageClass = to_string (it_StorageClass it),
      Mode = 0, Headers = Map.empty, Metadata = Map.empty\<rparr>"

definition s3_ListObject ::
    "(nat \<Rightarrow> store_error option) \<Rightarrow> (string \<Rightarrow> string \<Rightarrow> string option \<Rightarrow> string option \<Rightarrow> store_error + list_page) \<Rightarrow>
     s3_Client \<Rightarrow> string \<Rightarrow> bool \<Rightarrow> (Object list \<times> store_error option) option" where
  "s3_ListObject ctx_done call c objectPrefix recursion =
     (case s3_resolveObjectPath (s3_bucket c) objectPrefix of
        Inl err \<Rightarrow> Some ([], Some (PathError err))
      | Inr (pre, bucket) \<Rightarrow>
          let delimiter = (if \<not> recursion then Some ''/'' else None) in
          list_loop ctx_done s3_listed (call bucket pre delimiter) 0 None [])"

definition s3_ReadDir ::
    "(string \<Rightarrow> string \<Rightarrow> string option \<Rightarrow> string option \<Rightarrow> store_error + list_page) \<Rightarrow> s3_Client \<Rightarrow> string \<Rightarrow>
     (Object list \<times> store_error option) option" where
  "s3_ReadDir call c name = s3_ListObject (\<lambda>_. None) call c name False"

section \<open>S3 construction\<close>

datatype new_error = ParseSecret crypt_error | DecryptSecret crypt_error

definition s3_NewClient :: "crypto_lib \<Rightarrow> string \<Rightarrow> ConfigProvider \<Rightarrow> (new_error + s3_Client) go" where
  "s3_NewClient lib env v =
     go_bind (SString_SetValue lib env \<lparr>ss_value = [], ss_secret = []\<rparr> (GetString v ''secret_access_key'')) (\<lambda>(safeSecretKey, err).
     case err of
       Some e \<Rightarrow> Ret (Inl (ParseSecret e))
     | None \<Rightarrow>
         go_bind (SString_UnsafeString lib env safeSecretKey) (\<lambda>(accessKeySecret, err).
         case err of
           Some e \<Rightarrow> Ret (Inl (DecryptSecret e))
         | None \<Rightarrow>
             let accessKeyId = GetString v ''access_key_id'';
                 region = GetString v ''region'';
                 endpoint0 = GetString v ''endpoint'';
                 endpoint1 = (if endpoint0 = [] \<and> region \<noteq> [] then ''s3.'' @ region @ ''.amazonaws.com'' else endpoint0);
                 endpoint = (if length endpoint1 > 0 \<and> \<not> (HasPrefix endpoint1 ''http://'' \<or> HasPrefix endpoint1 ''https://'')
                             then ''http://'' @ endpoint1 else endpoint1)
             in Ret (Inr
                  \<lparr>s3_clt = \<lparr>cfg_Region = region, cfg_AccessKeyID = accessKeyId,
                             cfg_SecretAccessKey = accessKeySecret, cfg_BaseEndpoint = endpoint\<rparr>,
                   s3_bucket = GetString v ''bucket'',
                   s3_o = \<lparr>o_Type = s3_Type, o_Endpoint = endpoint, o_AccessKeyId = accessKeyId,
                           o_SecretAccessKey = safeSecretKey, o_Bucket = GetString v ''bucket'', o_Region = region\<rparr>\<rparr>)))"

section \<open>OSS objects\<close>

record oss_Options =
  p_Type :: string
  p_Endpoint :: string
  p_AccessKeyId :: string
  p_SecretAccessKey :: SString
  p_Bucket :: string
  p_Region :: string
  p_Worker :: int
  p_OSSMaxIdleConns :: int
  p_OSSMaxIdleConnsPerHost :: int

text \<open>What \<open>oss.NewClient\<close> is given.\<close>

record oss_config =
  ocfg_Endpoint :: string
  ocfg_Region :: string
  ocfg_AccessKeyID :: string
  ocfg_SecretAccessKey :: string
  ocfg_MaxIdleConns :: int
  ocfg_MaxIdleConnsPerHost :: int

record oss_Client =
  oss_clt :: oss_config
  oss_bucket :: string
  oss_o :: oss_Options

definition oss_Type :: string where
  "oss_Type = ''oss''"

definition oss_Name :: "oss_Client \<Rightarrow> string" where
  "oss_Name c = oss_Type @ ''://'' @ oss_bucket c"

definition oss_GetObject ::
    "(string \<Rightarrow> string \<Rightarrow> store_error + 'b \<times> oss_output) \<Rightarrow> oss_Client \<Rightarrow> string \<Rightarrow> (store_error + 'b ObjectReader) go" where
  "oss_GetObject call c objectPath =
     (case oss_resolve (oss_bucket c) objectPath of
        Inl err \<Rightarrow> Ret (Inl (PathError err))
      | Inr (key, bucket) \<Rightarrow>
          (case call bucket key of
             Inl err \<Rightarrow> Ret (Inl err)
           | Inr (body, ob) \<Rightarrow>
               go_bind (RawPermissionsToMode (map_lookup (oss_Metadata ob) ''x-oss-storage-perms'')) (\<lambda>mode.
                 Ret (Inr \<lparr>ReadCloser = body, or_Object =
                   \<lparr>Key = key, LastModified = to_time (oss_LastModified ob), Size = oss_ContentLength ob,
                    ETag = trim_char CHR 0x22 (to_string (oss_ETag ob)),
                    StorageClass = header_first (oss_Headers ob) ''X-Oss-Storage-Class'', Mode = mode,
                    Headers = oss_Headers ob, Metadata = oss_Metadata ob\<rparr>\<rparr>))))"

text \<open>The loop of \<open>PutObject\<close> over the headers fills a request.\<close>

definition oss_set_header :: "http_header \<Rightarrow> put_request \<Rightarrow> string \<Rightarrow> put_request" where
  "oss_set_header headers req name =
     (let v = header_first headers name in
      if name = ''Content-Type'' then req\<lparr>put_ContentType := Some v\<rparr>
      else if name = ''Content-Encoding'' then req\<lparr>put_ContentEncoding := Some v\<rparr>
      else if name = ''Content-Disposition'' then req\<lparr>put_ContentDisposition := Some v\<rparr>
      else if name = ''Cache-Control'' then req\<lparr>put_CacheControl := Some v\<rparr>
      else if name = ''Expires'' then req\<lparr>put_Expires := Some v\<rparr>
      else req)"

definition oss_PutObject ::
    "(put_request \<Rightarrow> 'r \<Rightarrow> store_error option) \<Rightarrow> oss_Client \<Rightarrow> string \<Rightarrow> 'r \<Rightarrow>
     http_header \<Rightarrow> string list \<Rightarrow> (string \<rightharpoonup> string) \<Rightarrow> store_error option" where
  "oss_PutObject upload c objectPath ob headers names metadata =
     (case oss_resolve (oss_bucket c) objectPath of
        Inl err \<Rightarrow> Some (PathError err)
      | Inr (key, bucket) \<Rightarrow>
          let req = foldl (oss_set_header headers) (blank_request key bucket metadata) names in
          upload (blank_request key bucket metadata) ob)"

text \<open>
  The object that \<open>HeadObject\<close> returns reads the metadata and headers of its own named result, which
  is still nil at that point.
\<close>

definition oss_HeadObject ::
    "(string \<Rightarrow> string \<Rightarrow> store_error + oss_output) \<Rightarrow> oss_Client \<Rightarrow> string \<Rightarrow> (store_error + Object) go" where
  "oss_HeadObject call c objectPath =
     (let ob = (None :: Object option) in
      case oss_resolve (oss_bucket c) objectPath of
        Inl err \<Rightarrow> Ret (Inl (PathError err))
      | Inr (key, bucket) \<Rightarrow>
          (case call bucket key of
             Inl err \<Rightarrow> Ret (Inl err)
           | Inr meta \<Rightarrow>
               (case ob of
                  None \<Rightarrow> Panic nil_deref
                | Some ob \<Rightarrow>
                    go_bind (RawPermissionsToMode (map_lookup (Metadata ob) ''x-oss-storage-perms'')) (\<lambda>mode.
                      Ret (Inr
                        \<lparr>Key = key, LastModified = to_time (oss_LastModified meta), Size = oss_ContentLength meta,
                         ETag = trim_char CHR 0x22 (to_string (oss_ETag meta)),
                         StorageClass = header_first (oss_Headers meta) ''X-Oss-Storage-Class'', Mode = mode,
                         Headers = Headers ob, Metadata = Metadata ob\<rparr>)))))"

definition oss_listed :: "list_item \<Rightarrow> Object" where
  "oss_listed it =
     \<lparr>Key = to_string (it_Key it), LastModified = to_time (it_LastModified it), Size = to_int (it_Size it),
      ETag = trim_char CHR 0x22 (to_string (it_ETag it)), StorageClass = to_string (it_StorageClass it),
      Mode = 0, Headers = Map.empty, Metadata = Map.empty\<rparr>"

definition oss_ListObject ::
    "(nat \<Rightarrow> store_error option) \<Rightarrow> (string \<Rightarrow> string \<Rightarrow> string option \<Rightarrow> string option \<Rightarrow> store_error + list_page) \<Rightarrow>
     oss_Client \<Rightarrow> string \<Rightarrow> bool \<Rightarrow> (Object list \<times> store_error option) option" where
  "oss_ListObject ctx_done call c objectPrefix recursion =
     (let (pre, bucket) =
        (if \<not> HasPrefix objectPrefix ''oss://'' then (objectPrefix, oss_bucket c)
         else case Cut (TrimPrefix objectPrefix ''oss://'') CHR ''/'' of (bucket, pre, _) \<Rightarrow> (pre, bucket))
      in if length bucket = 0 then Some ([], Some (PathError ''invalid object path: bucket is empty''))
         else
           let delimiter = (if \<not> recursion then Some ''/'' else None) in
           list_loop ctx_done oss_listed (call bucket pre delimiter) 0 None [])"

definition oss_ReadDir ::
    "(string \<Rightarrow> string \<Rightarrow> string option \<Rightarrow> string option \<Rightarrow> store_error + list_page) \<Rightarrow> oss_Client \<Rightarrow> string \<Rightarrow>
     (Object list \<times> store_error option) option" where
  "oss_ReadDir call c name = oss_ListObject (\<lambda>_. None) call c name False"

text \<open>The default for an unset number of idle connections.\<close>

definition idle_default :: "int \<Rightarrow> int \<Rightarrow> int" where
  "idle_default configured workerNum =
     (if configured = 0
      then let n = go_div ((workerNum + 1) * 3) 2 in if n < 100 then 100 else n
      else configured)"

definition oss_NewClient :: "crypto_lib \<Rightarrow> string \<Rightarrow> ConfigProvider \<Rightarrow> (new_error + oss_Client) go" where
  "oss_NewClient lib env v =
     go_bind (SString_SetValue lib env \<lparr>ss_value = [], ss_secret = []\<rparr> (GetString v ''secret_access_key'')) (\<lambda>(safeSecretKey, err).
     case err of
       Some e \<Rightarrow> Ret (Inl (ParseSecret e))
     | None \<Rightarrow>
         go_bind (SString_UnsafeString lib env safeSecretKey) (\<lambda>(accessKeySecret, err).
         case err of
           Some e \<Rightarrow> Ret (Inl (DecryptSecret e))
         | None \<Rightarrow>
             let accessKeyId = GetString v ''access_key_id'';
                 region = GetString v ''region'';
                 endpoint0 = GetString v ''endpoint'';
                 workerNum = GetInt v ''worker'';
                 endpoint = (if endpoint0 = [] \<and> region \<noteq> [] then ''https://oss-'' @ region @ ''.aliyuncs.com'' else endpoint0);
                 maxIdleConns = idle_default (GetInt v ''oss_max_idle_conns'') workerNum;
                 maxIdleConnsPerHost = idle_default (GetInt v ''oss_max_idle_conns_per_host'') workerNum
             in Ret (Inr
                  \<lparr>oss_clt = \<lparr>ocfg_Endpoint = endpoint, ocfg_Region = region, ocfg_AccessKeyID = accessKeyId,
                              ocfg_SecretAccessKey = accessKeySecret, ocfg_MaxIdleConns = maxIdleConns,
                              ocfg_MaxIdleConnsPerHost = maxIdleConnsPerHost\<rparr>,
                   oss_bucket = GetString v ''bucket'',
                   oss_o = \<lparr>p_Type = oss_Type, p_Endpoint = endpoint, p_AccessKeyId = accessKeyId,
                            p_SecretAccessKey = safeSecretKey, p_Bucket = GetString v ''bucket'', p_Region = region,
                            p_Worker = workerNum, p_OSSMaxIdleConns = maxIdleConns,
                            p_OSSMaxIdleConnsPerHost = maxIdleConnsPerHost\<rparr>\<rparr>)))"

section \<open>Paths name the same object in both forms\<close>

text \<open>
  What the operations of a client rely on when they resolve a path: a path without the scheme is a
  key of the client's bucket, a URL names its own bucket, and a resolved bucket is never empty.
\<close>

locale object_paths =
  fixes resolve :: "string \<Rightarrow> string \<Rightarrow> (string \<times> string) result"
    and scheme :: string
  assumes plain: "\<not> HasPrefix p scheme \<Longrightarrow> b \<noteq> [] \<Longrightarrow> p \<noteq> [] \<Longrightarrow> resolve b p = Inr (p, b)"
    and url: "b' \<noteq> [] \<Longrightarrow> CHR ''/'' \<notin> set b' \<Longrightarrow> resolve b (scheme @ b' @ ''/'' @ k) = Inr (k, b')"
    and no_key: "CHR ''/'' \<notin> set b' \<Longrightarrow>
      resolve b (scheme @ b') = Inl (''invalid object path: path is empty: '' @ scheme @ b')"
    and bucket: "resolve b p = Inr (k, b') \<Longrightarrow> b' \<noteq> []"
begin

lemma forms_agree:
  assumes "\<not> HasPrefix k scheme" "k \<noteq> []" "b \<noteq> []" "CHR ''/'' \<notin> set b"
  shows "resolve b k = Inr (k, b) \<and> resolve b' (scheme @ b @ ''/'' @ k) = resolve b k \<and>
    resolve b' (scheme @ b) = Inl (''invalid object path: path is empty: '' @ scheme @ b)"
  using assms plain url no_key by simp

lemma no_bucket: "\<not> (\<exists>k. resolve b p = Inr (k, []))"
  using bucket by blast

end

interpretation s3_paths: object_paths s3_resolveObjectPath "''s3://''"
proof unfold_locales
  fix b b' k
  show "s3_resolveObjectPath b (''s3://'' @ b' @ ''/'' @ k) = Inr (k, b')" if "b' \<noteq> []" "CHR ''/'' \<notin> set b'"
    using that HasPrefix_append [of "''s3://''"] TrimPrefix_append [of "''s3://''"]
    by (simp add: s3_resolveObjectPath_def)
  show "s3_resolveObjectPath b (''s3://'' @ b') = Inl (''invalid object path: path is empty: '' @ ''s3://'' @ b')"
    if "CHR ''/'' \<notin> set b'"
    using that HasPrefix_append [of "''s3://''"] TrimPrefix_append [of "''s3://''"]
    by (simp add: s3_resolveObjectPath_def)
qed (auto simp: s3_resolveObjectPath_def Let_def split: if_splits prod.splits sum.splits)

interpretation oss_paths: object_paths oss_resolve "''oss://''"
proof unfold_locales
  fix b b' k
  show "oss_resolve b (''oss://'' @ b' @ ''/'' @ k) = Inr (k, b')" if "b' \<noteq> []" "CHR ''/'' \<notin> set b'"
    using that HasPrefix_append [of "''oss://''"] TrimPrefix_append [of "''oss://''"]
    by (simp add: oss_resolve_def)
  show "oss_resolve b (''oss://'' @ b') = Inl (''invalid object path: path is empty: '' @ ''oss://'' @ b')"
    if "CHR ''/'' \<notin> set b'"
    using that HasPrefix_append [of "''oss://''"] TrimPrefix_append [of "''oss://''"]
    by (simp add: oss_resolve_def)
qed (auto simp: oss_resolve_def Let_def split: if_splits prod.splits sum.splits)

text \<open>In both object stores the key k under the client's bucket b and the URL scheme://b/k name the
  same object, a URL without a key is refused, and no path is resolved to an empty bucket.\<close>

theorem object_path_forms:
  assumes "\<not> HasPrefix k ''s3://''" "\<not> HasPrefix k ''oss://''" "k \<noteq> []" "b \<noteq> []" "CHR ''/'' \<notin> set b"
  shows "s3_resolveObjectPath b k = Inr (k, b) \<and>
         s3_resolveObjectPath b' (''s3://'' @ b @ ''/'' @ k) = s3_resolveObjectPath b k \<and>
         s3_resolveObjectPath b' (''s3://'' @ b) = Inl (''invalid object path: path is empty: '' @ ''s3://'' @ b) \<and>
         oss_resolve b k = Inr (k, b) \<and> oss_resolve b' (''oss://'' @ b @ ''/'' @ k) = oss_resolve b k \<and>
         oss_resolve b' (''oss://'' @ b) = Inl (''invalid object path: path is empty: '' @ ''oss://'' @ b) \<and>
         (\<nexists>k'. s3_resolveObjectPath b' p = Inr (k', [])) \<and> (\<nexists>k'. oss_resolve b' p = Inr (k', []))"
  using s3_paths.forms_agree [of k b b'] oss_paths.forms_agree [of k b b']
    s3_paths.no_bucket [of b' p] oss_paths.no_bucket [of b' p] assms by blast

theorem object_path_forms_witness:
  "s3_resolveObjectPath ''bkt'' ''a/b'' = Inr (''a/b'', ''bkt'') \<and>
   s3_resolveObjectPath [] ''s3://bkt/a/b'' = Inr (''a/b'', ''bkt'') \<and>
   oss_resolve [] ''oss://bkt/a/b'' = Inr (''a/b'', ''bkt'')"
  using object_path_forms [of "''a/b''" "''bkt''" "[]" "[]"] by (simp add: HasPrefix_def)

section \<open>A listing is complete\<close>

lemma contents_loop_all:
  "(\<And>n. ctx_done n = None) \<Longrightarrow>
   contents_loop ctx_done conv n xs objs = (n + length xs, objs @ map conv xs, None)"
  by (induction xs arbitrary: n objs) auto

text \<open>The service serves these pages: each page names the token of the next, the last names none.\<close>

fun page_chain :: "(string option \<Rightarrow> 'e + list_page) \<Rightarrow> string option \<Rightarrow> list_page list \<Rightarrow> bool" where
  "page_chain fetch tok [] = False"
| "page_chain fetch tok [p] = (fetch tok = Inr p \<and> to_string (NextContinuationToken p) = [])"
| "page_chain fetch tok (p # q # ps) =
     (fetch tok = Inr p \<and> to_string (NextContinuationToken p) \<noteq> [] \<and>
      page_chain fetch (NextContinuationToken p) (q # ps))"

lemma to_string_None [simp]: "to_string None = []"
  by (simp add: to_string_def)

lemma list_loop_pages:
  assumes "page_chain fetch tok ps"
  shows "list_loop (\<lambda>_. None) conv fetch n tok objs = Some (objs @ map conv (concat (map Contents ps)), None)"
  using assms
proof (induction fetch tok ps arbitrary: n objs rule: page_chain.induct)
  case (2 fetch tok p)
  then show ?case by (subst list_loop.simps) (auto simp: contents_loop_all)
next
  case (3 fetch tok p q ps)
  then show ?case by (subst list_loop.simps) (auto simp: contents_loop_all)
qed simp

text \<open>Two clients for concrete instances.\<close>

definition s3_sample :: s3_Client where
  "s3_sample =
     \<lparr>s3_clt = \<lparr>cfg_Region = [], cfg_AccessKeyID = [], cfg_SecretAccessKey = [], cfg_BaseEndpoint = []\<rparr>,
      s3_bucket = ''b'',
      s3_o = \<lparr>o_Type = s3_Type, o_Endpoint = [], o_AccessKeyId = [],
              o_SecretAccessKey = \<lparr>ss_value = [], ss_secret = []\<rparr>, o_Bucket = ''b'', o_Region = []\<rparr>\<rparr>"

definition oss_sample :: oss_Client where
  "oss_sample =
     \<lparr>oss_clt = \<lparr>ocfg_Endpoint = [], ocfg_Region = [], ocfg_AccessKeyID = [], ocfg_SecretAccessKey = [],
                 ocfg_MaxIdleConns = 100, ocfg_MaxIdleConnsPerHost = 100\<rparr>,
      oss_bucket = ''b'',
      oss_o = \<lparr>p_Type = oss_Type, p_Endpoint = [], p_AccessKeyId = [],
               p_SecretAccessKey = \<lparr>ss_value = [], ss_secret = []\<rparr>, p_Bucket = ''b'', p_Region = [],
               p_Worker = 0, p_OSSMaxIdleConns = 100, p_OSSMaxIdleConnsPerHost = 100\<rparr>\<rparr>"

lemma sample_paths:
  "s3_resolveObjectPath (s3_bucket s3_sample) ''k'' = Inr (''k'', ''b'')"
  "oss_resolve (oss_bucket oss_sample) ''k'' = Inr (''k'', ''b'')"
  by (simp_all add: s3_sample_def oss_sample_def s3_resolveObjectPath_def oss_resolve_def HasPrefix_def)

text \<open>C15: When the service serves a finite chain of pages and the context is not cancelled, ListObject of
  either object store returns, reports every entry of every page exactly once and in order, and sends
  the delimiter exactly when the listing is not recursive.\<close>

theorem list_object_complete:
  assumes "page_chain (call b k (if recursion then None else Some ''/'')) None pages"
    and "s3_resolveObjectPath (s3_bucket c) p = Inr (k, b)"
    and "oss_resolve (oss_bucket d) q = Inr (k, b)"
  shows "s3_ListObject (\<lambda>_. None) call c p recursion =
           Some (map s3_listed (concat (map Contents pages)), None) \<and>
         oss_ListObject (\<lambda>_. None) call d q recursion =
           Some (map oss_listed (concat (map Contents pages)), None)"
proof -
  note loop = list_loop_pages [OF assms(1)]
  have "s3_ListObject (\<lambda>_. None) call c p recursion =
      list_loop (\<lambda>_. None) s3_listed (call b k (if recursion then None else Some ''/'')) 0 None []"
    using assms(2) by (simp add: s3_ListObject_def)
  moreover have "oss_ListObject (\<lambda>_. None) call d q recursion =
      list_loop (\<lambda>_. None) oss_listed (call b k (if recursion then None else Some ''/'')) 0 None []"
    using assms(3) by (auto simp: oss_ListObject_def oss_resolve_def Let_def split: if_splits prod.splits)
  ultimately show ?thesis using loop [of s3_listed 0 "[]"] loop [of oss_listed 0 "[]"] by simp
qed

theorem list_object_complete_witness:
  "\<exists>call. \<exists>x y z :: list_item.
     s3_ListObject (\<lambda>_. None) call s3_sample ''k'' False = Some (map s3_listed [x, y, z], None) \<and>
     oss_ListObject (\<lambda>_. None) call oss_sample ''k'' False = Some (map oss_listed [x, y, z], None)"
proof -
  define it where "it k = \<lparr>it_Key = Some k, it_LastModified = None, it_Size = Some 1, it_ETag = None,
    it_StorageClass = None\<rparr>" for k
  define p where "p = \<lparr>Contents = [it ''x'', it ''y''], NextContinuationToken = Some ''t''\<rparr>"
  define q where "q = \<lparr>Contents = [it ''z''], NextContinuationToken = Some []\<rparr>"
  define call :: "string \<Rightarrow> string \<Rightarrow> string option \<Rightarrow> string option \<Rightarrow> store_error + list_page"
    where "call = (\<lambda>_ _ _ tok. Inr (if tok = None then p else q))"
  have "page_chain (call ''b'' ''k'' (if False then None else Some ''/'')) None [p, q]"
    by (simp add: call_def p_def q_def to_string_def)
  from list_object_complete [of call "''b''" "''k''" False "[p, q]", OF this sample_paths] show ?thesis
    by (intro exI [of _ call] exI [of _ "it ''x''"] exI [of _ "it ''y''"] exI [of _ "it ''z''"])
      (simp add: p_def q_def)
qed

section \<open>Objects\<close>

text \<open>C38: An object that exists cannot be read through S3, nor described through either store: after a
  successful call GetObject and HeadObject of the S3 client panic, because they print the length in
  base 64, and HeadObject of the OSS client panics, because it reads its own nil result.\<close>

theorem object_store_success_panics:
  assumes "s3_resolveObjectPath (s3_bucket c) p = Inr (k, b)" "k \<noteq> []"
    and "get b k = Inr (body, out)" "head b k = Inr out"
    and "oss_resolve (oss_bucket d) q = Inr (k, b)" "meta b k = Inr out'"
  shows "\<exists>m1 m2. s3_GetObject fmt get c p = Panic m1 \<and> s3_HeadObject fmt head c p = Panic m2 \<and>
         oss_HeadObject meta d q = Panic nil_deref"
proof -
  have "s3_headers fmt out = Panic ''strconv: illegal AppendInt/FormatInt base''"
    by (simp add: s3_headers_def FormatInt_64)
  then show ?thesis using assms
    by (simp add: s3_GetObject_def s3_HeadObject_def oss_HeadObject_def split: option.splits)
qed

theorem object_store_success_panics_witness:
  "\<exists>get. \<exists>out :: s3_output. get ''b'' ''k'' = Inr ((), out) \<and>
     (\<exists>m. s3_GetObject (\<lambda>_. []) get s3_sample ''k'' = Panic m)"
proof -
  define out where "out = \<lparr>out_LastModified = Some 0, out_ContentLength = Some 5, out_ContentType = None,
    out_ContentEncoding = None, out_ContentLanguage = None, out_ContentDisposition = None,
    out_CacheControl = None, out_ExpiresString = None, out_ETag = None, out_StorageClass = [], out_Metadata = Map.empty\<rparr>"
  define meta where "meta = \<lparr>oss_LastModified = None, oss_ContentLength = 5, oss_ETag = None,
    oss_Headers = Map.empty, oss_Metadata = Map.empty\<rparr>"
  define get :: "string \<Rightarrow> string \<Rightarrow> store_error + unit \<times> s3_output" where "get = (\<lambda>_ _. Inr ((), out))"
  show ?thesis
    using object_store_success_panics [OF sample_paths(1) _ _ _ sample_paths(2), of get "()" out "\<lambda>_ _. Inr out"
        "\<lambda>_ _. Inr meta" meta "\<lambda>_. []"]
    by (intro exI [of _ get] exI [of _ out]) (auto simp: get_def)
qed

lemma set_header_fold:
  assumes "distinct names"
  shows "foldl (s3_set_header parse h) r names =
    r\<lparr>put_ContentType := (if ''Content-Type'' \<in> set names then Some (header_first h ''Content-Type'') else put_ContentType r),
      put_ContentEncoding := (if ''Content-Encoding'' \<in> set names then Some (header_first h ''Content-Encoding'') else put_ContentEncoding r),
      put_ContentLanguage := (if ''Content-Language'' \<in> set names then Some (header_first h ''Content-Language'') else put_ContentLanguage r),
      put_ContentDisposition := (if ''Content-Disposition'' \<in> set names then Some (header_first h ''Content-Disposition'') else put_ContentDisposition r),
      put_CacheControl := (if ''Cache-Control'' \<in> set names then Some (header_first h ''Cache-Control'') else put_CacheControl r),
      put_Expires := (if ''Expires'' \<in> set names \<and> parse (header_first h ''Expires'') \<noteq> None
                      then parse (header_first h ''Expires'') else put_Expires r)\<rparr>"
  using assms
proof (induction names arbitrary: r)
  case (Cons name names)
  then show ?case by (auto simp: s3_set_header_def Let_def split: option.splits)
qed simp

text \<open>PutObject of the S3 client sends each of the headers it knows with the first value of that
  header, whatever the order in which the loop meets them, and leaves the others unset; PutObject of the
  OSS client sends the same request whatever headers it is given: it fills in a request and uploads
  another one.\<close>

theorem put_object_headers:
  assumes "s3_resolveObjectPath (s3_bucket c) p = Inr (k, b)" "k \<noteq> []" "distinct names" "set names = dom headers"
    and "oss_resolve (oss_bucket d) q = Inr (k, b)"
  shows "(\<exists>req :: put_request. s3_PutObject parse upload c p ob headers names md = upload req ob \<and>
            put_Key req = k \<and> put_Bucket req = b \<and> put_Metadata req = md \<and>
            put_ContentType req = map_option (\<lambda>_. header_first headers ''Content-Type'') (headers ''Content-Type'') \<and>
            put_ContentEncoding req = map_option (\<lambda>_. header_first headers ''Content-Encoding'') (headers ''Content-Encoding'') \<and>
            put_ContentLanguage req = map_option (\<lambda>_. header_first headers ''Content-Language'') (headers ''Content-Language'') \<and>
            put_CacheControl req = map_option (\<lambda>_. header_first headers ''Cache-Control'') (headers ''Cache-Control'')) \<and>
         oss_PutObject upload d q ob headers names md = oss_PutObject upload d q ob Map.empty [] md"
proof
  let ?req = "foldl (s3_set_header parse headers) (blank_request k b md) names"
  have opt: "(if n \<in> dom headers then Some (header_first headers n) else None) =
      map_option (\<lambda>_. header_first headers n) (headers n)" for n
    by (cases "headers n") auto
  have "s3_PutObject parse upload c p ob headers names md = upload ?req ob"
    using assms(1,2) by (simp add: s3_PutObject_def)
  moreover have "put_Key ?req = k" "put_Bucket ?req = b" "put_Metadata ?req = md"
    "put_ContentType ?req = map_option (\<lambda>_. header_first headers ''Content-Type'') (headers ''Content-Type'')"
    "put_ContentEncoding ?req = map_option (\<lambda>_. header_first headers ''Content-Encoding'') (headers ''Content-Encoding'')"
    "put_ContentLanguage ?req = map_option (\<lambda>_. header_first headers ''Content-Language'') (headers ''Content-Language'')"
    "put_CacheControl ?req = map_option (\<lambda>_. header_first headers ''Cache-Control'') (headers ''Cache-Control'')"
    unfolding set_header_fold [OF assms(3)] assms(4) blank_request_def opt [symmetric] by simp_all
  ultimately show "\<exists>req :: put_request. s3_PutObject parse upload c p ob headers names md = upload req ob \<and>
            put_Key req = k \<and> put_Bucket req = b \<and> put_Metadata req = md \<and>
            put_ContentType req = map_option (\<lambda>_. header_first headers ''Content-Type'') (headers ''Content-Type'') \<and>
            put_ContentEncoding req = map_option (\<lambda>_. header_first headers ''Content-Encoding'') (headers ''Content-Encoding'') \<and>
            put_ContentLanguage req = map_option (\<lambda>_. header_first headers ''Content-Language'') (headers ''Content-Language'') \<and>
            put_CacheControl req = map_option (\<lambda>_. header_first headers ''Cache-Control'') (headers ''Cache-Control'')"
    by blast
  show "oss_PutObject upload d q ob headers names md = oss_PutObject upload d q ob Map.empty [] md"
    using assms(5) by (simp add: oss_PutObject_def)
qed

theorem put_object_headers_witness:
  "\<exists>req :: put_request. s3_PutObject (\<lambda>_. None) (\<lambda>req ob. Some (PathError (to_string (put_ContentType req)))) s3_sample ''k'' ()
     [''Content-Type'' \<mapsto> [''text/plain'']] [''Content-Type''] Map.empty = Some (PathError (to_string (put_ContentType req))) \<and>
     put_ContentType req = Some ''text/plain''"
proof -
  let ?h = "[''Content-Type'' \<mapsto> [''text/plain'']]"
  have "''k'' \<noteq> []" "distinct [''Content-Type'']" "set [''Content-Type''] = dom ?h" by simp_all
  from put_object_headers [OF sample_paths(1) this sample_paths(2), of "\<lambda>_. None"
      "\<lambda>req ob. Some (PathError (to_string (put_ContentType req)))" "()" Map.empty]
  show ?thesis by (elim conjE exE) (intro exI conjI, assumption, simp add: header_first_def)
qed

section \<open>Construction\<close>



section \<open>Opening and printing\<close>

text \<open>
  \<open>Open\<close> returns the reader as an \<open>fs.File\<close>: with an error the interface holds a nil pointer and is not nil itself
  (\<open>Some None\<close>).
\<close>

definition as_file :: "store_error + 'b ObjectReader \<Rightarrow> 'b ObjectReader option option \<times> store_error option" where
  "as_file r = (case r of Inl e \<Rightarrow> (Some None, Some e) | Inr b \<Rightarrow> (Some (Some b), None))"

definition s3_Open where
  "s3_Open FormatHTTPDate call c n = go_bind (s3_GetObject FormatHTTPDate call c n) (\<lambda>r. Ret (as_file r))"

definition oss_Open where
  "oss_Open call c n = go_bind (oss_GetObject call c n) (\<lambda>r. Ret (as_file r))"

definition s3_MarshalJSON :: "(s3_Options \<Rightarrow> string result) \<Rightarrow> s3_Client \<Rightarrow> string result" where
  "s3_MarshalJSON json c = json (s3_o c)"

definition oss_MarshalJSON :: "(oss_Options \<Rightarrow> string result) \<Rightarrow> oss_Client \<Rightarrow> string result" where
  "oss_MarshalJSON json c = json (oss_o c)"

text \<open>A file that could not be opened never compares equal to nil.\<close>

lemma as_file_not_nil: "as_file r = (f, e) \<Longrightarrow> f \<noteq> None"
  by (cases r) (auto simp: as_file_def)

lemma open_never_nil: "s3_Open fmt call c n = Ret (f, e) \<Longrightarrow> f \<noteq> None" "oss_Open call2 c2 n = Ret (f, e) \<Longrightarrow> f \<noteq> None"
  unfolding s3_Open_def oss_Open_def by (fastforce dest: as_file_not_nil)+

end
