(* ===== verification/Tls.thy ===== *)
theory Tls
  imports GoPrelude
begin

text \<open>
  Package \<open>tls\<close> (\<open>clients/tls/tls.go\<close>): the client configuration. Reading a file, building a pool from
  certificates and loading a key pair are arguments.
\<close>

record TLSOptions =
  CAFile :: string
  CertFile :: string
  KeyFile :: string
  ServerName :: string
  InsecureSkipVerify :: bool
  MinVersion :: string

text \<open>What the package sets of a \<open>crypto/tls\<close> configuration; a client certificate is the pair of files it is loaded from.\<close>

record 'p tls_Config =
  tc_InsecureSkipVerify :: bool
  tc_MinVersion :: "16 word"
  tc_RootCAs :: "'p option"
  tc_ServerName :: string
  tc_GetClientCertificate :: "(string \<times> string) option"

record 'p tls_lib =
  ReadFile :: "string \<Rightarrow> byte list result"
  CertsFromPEM :: "byte list \<Rightarrow> 'p option"
  LoadX509KeyPair :: "string \<Rightarrow> string \<Rightarrow> gerror option"

datatype tls_error =
    UnableToLoadCA string gerror
  | UnableToUseCA string
  | CertWithoutKey string
  | KeyWithoutCert string
  | UnableToUseClientCert string string gerror

definition Versions :: "(string, 16 word) gomap" where
  "Versions = [(''TLS13'', 0x0304), (''TLS12'', 0x0303), (''TLS11'', 0x0302), (''TLS10'', 0x0301)]"

text \<open>Indexing a map with a key it does not have gives the zero value.\<close>

definition version_of :: "string \<Rightarrow> 16 word" where
  "version_of name = (case map_of Versions name of None \<Rightarrow> 0 | Some v \<Rightarrow> v)"

definition readCAFile :: "'p tls_lib \<Rightarrow> string \<Rightarrow> tls_error + byte list" where
  "readCAFile lib f = (case ReadFile lib f of Inl err \<Rightarrow> Inl (UnableToLoadCA f err) | Inr bs \<Rightarrow> Inr bs)"

definition updateRootCA :: "'p tls_lib \<Rightarrow> 'p tls_Config \<Rightarrow> byte list \<Rightarrow> 'p tls_Config \<times> bool" where
  "updateRootCA lib cfg b =
     (case CertsFromPEM lib b of None \<Rightarrow> (cfg, False) | Some p \<Rightarrow> (cfg\<lparr>tc_RootCAs := Some p\<rparr>, True))"

definition getClientCertificate :: "'p tls_lib \<Rightarrow> TLSOptions \<Rightarrow> tls_error option" where
  "getClientCertificate lib c =
     map_option (UnableToUseClientCert (CertFile c) (KeyFile c)) (LoadX509KeyPair lib (CertFile c) (KeyFile c))"

definition default_Config :: "'p tls_Config" where
  "default_Config = \<lparr>tc_InsecureSkipVerify = False, tc_MinVersion = 0, tc_RootCAs = None, tc_ServerName = [],
     tc_GetClientCertificate = None\<rparr>"

text \<open>The part of \<open>NewTLSConfig\<close> that reads the certificate authority.\<close>

definition load_ca :: "'p tls_lib \<Rightarrow> TLSOptions \<Rightarrow> 'p tls_Config \<Rightarrow> tls_error + 'p tls_Config" where
  "load_ca lib cfg tlsConfig =
     (if length (CAFile cfg) > 0 then
        case readCAFile lib (CAFile cfg) of
          Inl err \<Rightarrow> Inl err
        | Inr b \<Rightarrow>
            (case updateRootCA lib tlsConfig b of
               (c, False) \<Rightarrow> Inl (UnableToUseCA (CAFile cfg))
             | (c, True) \<Rightarrow> Inr c)
      else Inr tlsConfig)"

definition NewTLSConfig :: "'p tls_lib \<Rightarrow> TLSOptions option \<Rightarrow> tls_error + 'p tls_Config" where
  "NewTLSConfig lib cfg0 =
     (case cfg0 of
        None \<Rightarrow> Inr default_Config
      | Some cfg \<Rightarrow>
          (case load_ca lib cfg (default_Config\<lparr>tc_InsecureSkipVerify := InsecureSkipVerify cfg,
                                               tc_MinVersion := version_of (MinVersion cfg)\<rparr>) of
             Inl err \<Rightarrow> Inl err
           | Inr c0 \<Rightarrow>
               let c = (if length (ServerName cfg) > 0 then c0\<lparr>tc_ServerName := ServerName cfg\<rparr> else c0) in
               if length (CertFile cfg) > 0 \<and> length (KeyFile cfg) = 0 then Inl (CertWithoutKey (CertFile cfg))
               else if length (KeyFile cfg) > 0 \<and> length (CertFile cfg) = 0 then Inl (KeyWithoutCert (KeyFile cfg))
               else if length (CertFile cfg) > 0 \<and> length (KeyFile cfg) > 0 then
                 (case getClientCertificate lib cfg of
                    Some err \<Rightarrow> Inl err
                  | None \<Rightarrow> Inr (c\<lparr>tc_GetClientCertificate := Some (CertFile cfg, KeyFile cfg)\<rparr>))
               else Inr c))"

section \<open>Properties\<close>

text \<open>The certificate authorities that the options ask for, if they can be loaded.\<close>

definition wanted_ca :: "'p tls_lib \<Rightarrow> TLSOptions \<Rightarrow> 'p option option" where
  "wanted_ca lib cfg =
     (if CAFile cfg = [] then Some None
      else case ReadFile lib (CAFile cfg) of Inl _ \<Rightarrow> None | Inr b \<Rightarrow> map_option Some (CertsFromPEM lib b))"

lemma load_ca_Inr:
  "tc_RootCAs c = None \<Longrightarrow>
   load_ca lib cfg c = Inr c' \<longleftrightarrow> (\<exists>r. wanted_ca lib cfg = Some r \<and> c' = c\<lparr>tc_RootCAs := r\<rparr>)"
  by (auto simp: load_ca_def wanted_ca_def readCAFile_def updateRootCA_def split: option.splits sum.splits)

lemma load_ca_Inl: "wanted_ca lib cfg = None \<Longrightarrow> \<exists>e. load_ca lib cfg c = Inl e"
  by (auto simp: load_ca_def wanted_ca_def readCAFile_def updateRootCA_def split: option.splits sum.splits if_splits)

lemma version_of_zero: "version_of n = 0 \<longleftrightarrow> n \<notin> {''TLS13'', ''TLS12'', ''TLS11'', ''TLS10''}"
  by (auto simp: version_of_def Versions_def)

text \<open>The configuration that the options ask for.\<close>

definition wanted_config :: "TLSOptions \<Rightarrow> 'p option \<Rightarrow> 'p tls_Config" where
  "wanted_config cfg r = \<lparr>tc_InsecureSkipVerify = InsecureSkipVerify cfg, tc_MinVersion = version_of (MinVersion cfg),
     tc_RootCAs = r, tc_ServerName = ServerName cfg,
     tc_GetClientCertificate = (if CertFile cfg = [] then None else Some (CertFile cfg, KeyFile cfg))\<rparr>"

lemma NewTLSConfig_wanted:
  "NewTLSConfig lib (Some cfg) = Inr c \<longleftrightarrow>
     (\<exists>r. wanted_ca lib cfg = Some r \<and> c = wanted_config cfg r) \<and> (CertFile cfg = [] \<longleftrightarrow> KeyFile cfg = []) \<and>
     (CertFile cfg = [] \<or> LoadX509KeyPair lib (CertFile cfg) (KeyFile cfg) = None)"
proof (cases "wanted_ca lib cfg")
  case None
  then show ?thesis using load_ca_Inl [OF None, of "default_Config\<lparr>tc_InsecureSkipVerify := InsecureSkipVerify cfg,
      tc_MinVersion := version_of (MinVersion cfg)\<rparr>"]
    by (auto simp: NewTLSConfig_def)
next
  case (Some r)
  have "load_ca lib cfg (default_Config\<lparr>tc_InsecureSkipVerify := InsecureSkipVerify cfg,
      tc_MinVersion := version_of (MinVersion cfg)\<rparr>) = Inr (default_Config\<lparr>tc_InsecureSkipVerify := InsecureSkipVerify cfg,
      tc_MinVersion := version_of (MinVersion cfg), tc_RootCAs := r\<rparr>)"
    by (subst load_ca_Inr) (simp_all add: Some default_Config_def)
  then show ?thesis using Some
    by (auto simp: NewTLSConfig_def getClientCertificate_def wanted_config_def default_Config_def Let_def
        split: option.splits)
qed



end
