(* ===== verification/Redis.thy ===== *)
theory Redis
  imports Slices SafeString Signals Tls
begin

text \<open>
  Package \<open>redis\<close> (\<open>clients/redis/redis.go\<close>): the options with their precedence over the URL, the
  connection with its shutdown hook, the text of a command, and the scan over a set. The JSON decoder,
  \<open>redis.ParseURL\<close> and the commands of go-redis are arguments. A duration is a number.
\<close>

section \<open>Options\<close>

text \<open>\<open>redis.Options\<close> of go-redis, as far as the package sets it.\<close>

record 'p redis_Options =
  ro_Addr :: string
  ro_Password :: string
  ro_DB :: int
  ro_MaxRetries :: int
  ro_MinRetryBackoff :: int
  ro_MaxRetryBackoff :: int
  ro_DialTimeout :: int
  ro_ReadTimeout :: int
  ro_WriteTimeout :: int
  ro_PoolSize :: int
  ro_MinIdleConns :: int
  ro_MaxConnAge :: int
  ro_PoolTimeout :: int
  ro_IdleTimeout :: int
  ro_IdleCheckFrequency :: int
  ro_TLSConfig :: "'p tls_Config option"

record 'p Options =
  op_o :: "'p redis_Options option"
  op_URL :: string
  op_Password :: SString
  op_DB :: "int option"
  op_MaxRetries :: "int option"
  op_MinRetryBackoff :: "int option"
  op_MaxRetryBackoff :: "int option"
  op_DialTimeout :: "int option"
  op_ReadTimeout :: "int option"
  op_WriteTimeout :: "int option"
  op_PoolSize :: "int option"
  op_MinIdleConns :: "int option"
  op_MaxConnAge :: "int option"
  op_PoolTimeout :: "int option"
  op_IdleTimeout :: "int option"
  op_IdleCheckFrequency :: "int option"
  op_TLSConfig :: "TLSOptions option"

datatype redis_error =
    JsonError gerror
  | UrlError gerror
  | SecretError crypt_error
  | TlsError tls_error
  | PingError gerror

text \<open>\<open>*w.DefaultPointer(p, &x)\<close>\<close>

definition override :: "'a option \<Rightarrow> 'a \<Rightarrow> 'a" where
  "override p x = the (DefaultPointer [p, Some x])"

text \<open>The assignments of the fields after the URL has been parsed.\<close>

definition override_fields :: "'p Options \<Rightarrow> 'p redis_Options \<Rightarrow> 'p redis_Options" where
  "override_fields op r =
     r\<lparr>ro_DB := override (op_DB op) (ro_DB r),
       ro_MaxRetries := override (op_MaxRetries op) (ro_MaxRetries r),
       ro_MinRetryBackoff := override (op_MinRetryBackoff op) (ro_MinRetryBackoff r),
       ro_MaxRetryBackoff := override (op_MaxRetryBackoff op) (ro_MaxRetryBackoff r),
       ro_DialTimeout := override (op_DialTimeout op) (ro_DialTimeout r),
       ro_ReadTimeout := override (op_ReadTimeout op) (ro_ReadTimeout r),
       ro_WriteTimeout := override (op_WriteTimeout op) (ro_WriteTimeout r),
       ro_PoolSize := override (op_PoolSize op) (ro_PoolSize r),
       ro_MinIdleConns := override (op_MinIdleConns op) (ro_MinIdleConns r),
       ro_MaxConnAge := override (op_MaxConnAge op) (ro_MaxConnAge r),
       ro_PoolTimeout := override (op_PoolTimeout op) (ro_PoolTimeout r),
       ro_IdleTimeout := override (op_IdleTimeout op) (ro_IdleTimeout r),
       ro_IdleCheckFrequency := override (op_IdleCheckFrequency op) (ro_IdleCheckFrequency r)\<rparr>"

text \<open>\<open>o.Password.SetValue(w.DefaultString(o.Password.String(), o.o.Password))\<close>\<close>

definition merge_password :: "crypto_lib \<Rightarrow> string \<Rightarrow> SString \<Rightarrow> string \<Rightarrow> (SString \<times> crypt_error option) go" where
  "merge_password lib env e url_password =
     go_bind (SString_String lib env e) (\<lambda>(e', s). SString_SetValue lib env e' (DefaultString [s, url_password]))"

record 'p redis_lib =
  json_string :: "string \<Rightarrow> string result"
  json_object :: "string \<Rightarrow> 'p Options \<Rightarrow> 'p Options \<times> gerror option"
  ParseURL :: "string \<Rightarrow> 'p redis_Options result"

definition Options_UnmarshalJSON ::
    "crypto_lib \<Rightarrow> 'p tls_lib \<Rightarrow> 'p redis_lib \<Rightarrow> string \<Rightarrow> 'p Options \<Rightarrow> string \<Rightarrow> ('p Options \<times> redis_error option) go" where
  "Options_UnmarshalJSON lib tlib rlib env op bytes =
     (if bytes \<noteq> [] \<and> hd bytes = CHR 0x22 then
        (case json_string rlib bytes of
           Inl err \<Rightarrow> Ret (op, Some (JsonError err))
         | Inr url \<Rightarrow>
             (case ParseURL rlib url of
                Inl err \<Rightarrow> Ret (op\<lparr>op_URL := url, op_o := None\<rparr>, Some (UrlError err))
              | Inr r \<Rightarrow>
                  go_bind (merge_password lib env (op_Password op) (ro_Password r)) (\<lambda>(pw, err).
                    Ret (op\<lparr>op_URL := url, op_o := Some r, op_Password := pw\<rparr>, map_option SecretError err))))
      else
        (case json_object rlib bytes op of
           (op1, Some err) \<Rightarrow> Ret (op1, Some (JsonError err))
         | (op1, None) \<Rightarrow>
             (case ParseURL rlib (op_URL op1) of
                Inl err \<Rightarrow> Ret (op1\<lparr>op_o := None\<rparr>, Some (UrlError err))
              | Inr r \<Rightarrow>
                  go_bind (merge_password lib env (op_Password op1) (ro_Password r)) (\<lambda>(pw, err).
                    let op2 = op1\<lparr>op_o := Some r, op_Password := pw\<rparr> in
                    case err of
                      Some e \<Rightarrow> Ret (op2, Some (SecretError e))
                    | None \<Rightarrow>
                        let r' = override_fields op2 r in
                        (case op_TLSConfig op2 of
                           None \<Rightarrow> Ret (op2\<lparr>op_o := Some r'\<rparr>, None)
                         | Some t \<Rightarrow>
                             (case NewTLSConfig tlib (Some t) of
                                Inl e \<Rightarrow> Ret (op2\<lparr>op_o := Some r'\<rparr>, Some (TlsError e))
                              | Inr c \<Rightarrow> Ret (op2\<lparr>op_o := Some (r'\<lparr>ro_TLSConfig := Some c\<rparr>)\<rparr>, None)))))))"

section \<open>Connecting\<close>

text \<open>
  \<open>NewRedisClient\<close>: the client is the go-redis options it is made with, \<open>ping\<close> the error of its first
  command, \<open>hook\<close> the function that closes it. The process-wide signal handler is threaded through.
\<close>

definition NewRedisClient ::
    "crypto_lib \<Rightarrow> string \<Rightarrow> ('p redis_Options \<Rightarrow> gerror option) \<Rightarrow> nat \<Rightarrow> Handler option \<Rightarrow> 'p Options \<Rightarrow>
     (Handler option \<times> (redis_error + 'p redis_Options)) go" where
  "NewRedisClient lib env ping hook stopHandler option0 =
     (case op_o option0 of
        None \<Rightarrow> Panic nil_deref
      | Some r \<Rightarrow>
          go_bind (SString_UnsafeString lib env (op_Password option0)) (\<lambda>(passwd, err).
            case err of
              Some e \<Rightarrow> Ret (stopHandler, Inl (SecretError e))
            | None \<Rightarrow>
                let client = r\<lparr>ro_Password := passwd\<rparr> in
                (case ping client of
                   Some e \<Rightarrow> Ret (stopHandler, Inl (PingError e))
                 | None \<Rightarrow>
                     go_bind (PreStop (SetupSignalHandler stopHandler) LevelDB hook) (\<lambda>h.
                       Ret (Some h, Inr client)))))"

record 'p Client =
  cl_client :: "'p redis_Options"
  cl_options :: "'p Options"

definition NewClient ::
    "crypto_lib \<Rightarrow> string \<Rightarrow> ('p redis_Options \<Rightarrow> gerror option) \<Rightarrow> nat \<Rightarrow> Handler option \<Rightarrow> 'p Options \<Rightarrow>
     (Handler option \<times> (redis_error + 'p Client)) go" where
  "NewClient lib env ping hook stopHandler option0 =
     go_bind (NewRedisClient lib env ping hook stopHandler option0) (\<lambda>(h, r).
       Ret (h, case r of Inl err \<Rightarrow> Inl err | Inr client \<Rightarrow> Inr \<lparr>cl_client = client, cl_options = option0\<rparr>))"

text \<open>\<open>url.Parse\<close> with \<open>Hostname\<close> and \<open>Port\<close> is the argument; the error of \<open>Atoi\<close> is ignored.\<close>

definition GetPeer :: "(string \<Rightarrow> (string \<times> string) result) \<Rightarrow> 'p Options \<Rightarrow> string \<times> int" where
  "GetPeer url_Parse op =
     (case url_Parse (op_URL op) of
        Inl err \<Rightarrow> ([], 0)
      | Inr (host, port) \<Rightarrow> (host, fst (ParseInt port)))"

section \<open>The text of a command\<close>

text \<open>The dynamic types an argument can have; the widths of an integer type make no difference.\<close>

datatype 'f arg =
    ArgNil
  | ArgString string
  | ArgBytes "byte list"
  | ArgInt int
  | ArgUint nat
  | ArgFloat 'f
  | ArgBool bool
  | ArgBinary "byte list result"
  | ArgOther string

definition parseArg :: "('f \<Rightarrow> string) \<Rightarrow> 'f arg \<Rightarrow> string result" where
  "parseArg FormatFloat v =
     (case v of
        ArgNil \<Rightarrow> Inr []
      | ArgString s \<Rightarrow> Inr s
      | ArgBytes b \<Rightarrow> Inr (to_str b)
      | ArgInt i \<Rightarrow> Inr (Itoa i)
      | ArgUint n \<Rightarrow> Inr (Itoa_nat n)
      | ArgFloat f \<Rightarrow> Inr (FormatFloat f)
      | ArgBool b \<Rightarrow> Inr (if b then ''true'' else ''false'')
      | ArgBinary (Inl err) \<Rightarrow> Inl err
      | ArgBinary (Inr b) \<Rightarrow> Inr (to_str b)
      | ArgOther t \<Rightarrow> Inl (''redis: can'' @ [CHR 0x27] @ ''t marshal '' @ t @ '' (implement encoding.BinaryMarshaler)''))"

fun cmder_loop :: "('f \<Rightarrow> string) \<Rightarrow> (string \<Rightarrow> string) \<Rightarrow> nat \<Rightarrow> 'f arg list \<Rightarrow> string \<Rightarrow> string" where
  "cmder_loop FormatFloat marshal idx [] buf = buf"
| "cmder_loop FormatFloat marshal idx (arg # args) buf =
     (let buf1 = (if idx \<noteq> 0 then buf @ '' '' else buf);
          buf2 = (case parseArg FormatFloat arg of
                    Inl err \<Rightarrow> buf1 @ marshal (''<'' @ err @ ''>'')
                  | Inr s \<Rightarrow> buf1 @ s)
      in cmder_loop FormatFloat marshal (idx + 1) args buf2)"

definition Cmder_String :: "('f \<Rightarrow> string) \<Rightarrow> (string \<Rightarrow> string) \<Rightarrow> 'f arg list \<Rightarrow> string" where
  "Cmder_String FormatFloat marshal args = cmder_loop FormatFloat marshal 0 args []"

section \<open>Scanning a set\<close>

text \<open>The error of the callback: the value that stops the loop, or another.\<close>

datatype 'e callback_error = ErrStopLoop | CallbackError 'e

fun members_loop :: "('s \<Rightarrow> string \<Rightarrow> string \<Rightarrow> 's \<times> 'e callback_error option) \<Rightarrow> string \<Rightarrow> string list \<Rightarrow> 's \<Rightarrow> 's \<times> 'e option" where
  "members_loop f key [] st = (st, None)"
| "members_loop f key (member # ms) st =
     (case f st key member of
        (st', None) \<Rightarrow> members_loop f key ms st'
      | (st', Some ErrStopLoop) \<Rightarrow> (st', None)
      | (st', Some (CallbackError e)) \<Rightarrow> (st', Some e))"

text \<open>
  The loop asks the context, then the server for the page at the cursor. \<open>ctx_done n\<close> says whether the
  context is cancelled the n-th time it is asked; the empty case of the source goes on with the loop.
\<close>

partial_function (option) foreach_loop ::
    "(nat \<Rightarrow> bool) \<Rightarrow> (nat \<Rightarrow> 'e + string list \<times> nat) \<Rightarrow> ('s \<Rightarrow> string \<Rightarrow> string \<Rightarrow> 's \<times> 'e callback_error option) \<Rightarrow>
     string \<Rightarrow> int \<Rightarrow> nat \<Rightarrow> nat \<Rightarrow> 's \<Rightarrow> ('s \<times> 'e option) option" where
  "foreach_loop ctx_done SScan f key pageSize n cursor st =
     (if ctx_done n then foreach_loop ctx_done SScan f key pageSize (n + 1) cursor st
      else case SScan cursor of
          Inl err \<Rightarrow> Some (st, Some err)
        | Inr (ret, cursor') \<Rightarrow>
            (case members_loop f key ret st of
               (st', Some err) \<Rightarrow> Some (st', Some err)
             | (st', None) \<Rightarrow>
                 if int (length ret) < pageSize then Some (st', None)
                 else foreach_loop ctx_done SScan f key pageSize (n + 1) cursor' st'))"

definition ForeachSet ::
    "(nat \<Rightarrow> bool) \<Rightarrow> 'e + int \<Rightarrow> (nat \<Rightarrow> 'e + string list \<times> nat) \<Rightarrow> ('s \<Rightarrow> string \<Rightarrow> string \<Rightarrow> 's \<times> 'e callback_error option) \<Rightarrow>
     string \<Rightarrow> nat \<Rightarrow> int \<Rightarrow> 's \<Rightarrow> ('s \<times> 'e option) option" where
  "ForeachSet ctx_done SCard SScan f key cursor pageSize st =
     (case SCard of
        Inl err \<Rightarrow> Some (st, Some err)
      | Inr listLength \<Rightarrow>
          if listLength = 0 then Some (st, None)
          else foreach_loop ctx_done SScan f key (if pageSize = 0 then 100 else pageSize) 0 cursor st)"

section \<open>Properties of the options\<close>

lemma override_simps [simp]: "override None x = x" "override (Some y) x = y"
  by (simp_all add: override_def)

lemma merge_password_url:
  assumes "crypto_laws lib" "\<And>n. \<exists>iv. rand_Read lib n = Inr iv"
    and "ss_value e = []" "\<not> HasPrefix v ciphertextPrefix" "v \<noteq> []"
  shows "\<exists>e'. merge_password lib env e v = Ret (e', None) \<and> SString_UnsafeString lib env e' = Ret (v, None)"
  using read_back_parts(1) [OF assms(1,2,4,5), of env e] assms(3,5)
  by (auto simp: merge_password_def SString_String_def)

lemma merge_password_own:
  assumes "HasPrefix (ss_value e) ciphertextPrefix"
  shows "merge_password lib env e v = Ret (e, None)"
proof -
  have "ss_value e \<noteq> []" using assms by (auto simp: HasPrefix_def ciphertextPrefix_def)
  then show ?thesis using assms
    by (simp add: merge_password_def SString_String_def SString_SetValue_def)
qed

text \<open>Options for concrete instances: those of a URL, and those of an object that sets the database.\<close>

definition url_sample :: "unit redis_Options" where
  "url_sample = \<lparr>ro_Addr = ''host:6379'', ro_Password = ''pw'', ro_DB = 0, ro_MaxRetries = 0, ro_MinRetryBackoff = 0,
     ro_MaxRetryBackoff = 0, ro_DialTimeout = 0, ro_ReadTimeout = 3, ro_WriteTimeout = 0, ro_PoolSize = 10,
     ro_MinIdleConns = 0, ro_MaxConnAge = 0, ro_PoolTimeout = 0, ro_IdleTimeout = 0, ro_IdleCheckFrequency = 0,
     ro_TLSConfig = None\<rparr>"

definition options_sample :: "unit Options" where
  "options_sample = \<lparr>op_o = None, op_URL = ''redis://:pw@host:6379/0'', op_Password = \<lparr>ss_value = [], ss_secret = []\<rparr>,
     op_DB = Some 4, op_MaxRetries = None, op_MinRetryBackoff = None, op_MaxRetryBackoff = None, op_DialTimeout = None,
     op_ReadTimeout = None, op_WriteTimeout = None, op_PoolSize = None, op_MinIdleConns = None, op_MaxConnAge = None,
     op_PoolTimeout = None, op_IdleTimeout = None, op_IdleCheckFrequency = None, op_TLSConfig = None\<rparr>"



text \<open>A client is returned exactly when its first ping succeeds, made with the plaintext password. It
  then has one hook more in the database level of the signal handler, which the shutdown runs; a client
  that fails leaves the handler as it was.\<close>

theorem redis_client_hook:
  assumes "op_o opt = Some r" "SString_UnsafeString lib env (op_Password opt) = Ret (pw, None)"
  shows "NewRedisClient lib env ping hook stopHandler opt =
    (case ping (r\<lparr>ro_Password := pw\<rparr>) of
       Some e \<Rightarrow> Ret (stopHandler, Inl (PingError e))
     | None \<Rightarrow>
         let h = (case stopHandler of None \<Rightarrow> new_handler | Some h \<Rightarrow> h) in
         Ret (Some (h\<lparr>preStopFuncs := (preStopFuncs h)(LevelDB := preStopFuncs h LevelDB @ [hook])\<rparr>),
              Inr (r\<lparr>ro_Password := pw\<rparr>)))"
proof -
  have "PreStop (SetupSignalHandler stopHandler) LevelDB hook =
      (let h = (case stopHandler of None \<Rightarrow> new_handler | Some h \<Rightarrow> h) in
       Ret (h\<lparr>preStopFuncs := (preStopFuncs h)(LevelDB := preStopFuncs h LevelDB @ [hook])\<rparr>))"
    by (simp add: PreStop_def SetupSignalHandler_def LevelDB_def LevelMax_def Let_def)
  then show ?thesis using assms by (simp add: NewRedisClient_def Let_def split: option.splits)
qed

theorem redis_client_hook_witness:
  "\<exists>h. NewRedisClient rev_lib [] (\<lambda>_. None) 7 None (options_sample\<lparr>op_o := Some url_sample\<rparr>) =
     Ret (Some h, Inr (url_sample\<lparr>ro_Password := []\<rparr>)) \<and> preStopFuncs h LevelDB = [7]"
  using redis_client_hook [of "options_sample\<lparr>op_o := Some url_sample\<rparr>" url_sample rev_lib "[]" "[]" "\<lambda>_. None" 7 None]
  by (simp add: options_sample_def SString_UnsafeString_def new_handler_def Let_def)

interpretation redis_closer: closes_on_shutdown "\<lambda>hook h. NewRedisClient lib env ping hook h opt" "\<lambda>h. h" LevelDB
  for lib env ping opt
  by unfold_locales
    (auto simp: NewRedisClient_def Let_def SetupSignalHandler_def split: option.splits)

section \<open>Properties of commands and scans\<close>

definition arg_text :: "('f \<Rightarrow> string) \<Rightarrow> (string \<Rightarrow> string) \<Rightarrow> 'f arg \<Rightarrow> string" where
  "arg_text FormatFloat marshal a =
     (case parseArg FormatFloat a of Inl err \<Rightarrow> marshal (''<'' @ err @ ''>'') | Inr s \<Rightarrow> s)"

lemma cmder_loop_Cons:
  "cmder_loop ff marshal idx (a # args) buf =
   cmder_loop ff marshal (idx + 1) args (buf @ (if idx \<noteq> 0 then '' '' else []) @ arg_text ff marshal a)"
  by (simp add: arg_text_def Let_def split: sum.splits)

lemma cmder_loop_join:
  "cmder_loop ff marshal idx args buf =
   buf @ (if idx \<noteq> 0 \<and> args \<noteq> [] then '' '' else []) @ Join (map (arg_text ff marshal) args) '' ''"
proof (induction args arbitrary: idx buf)
  case (Cons a args)
  show ?case unfolding cmder_loop_Cons Cons.IH by (cases args) simp_all
qed simp

text \<open>The text of a command is the texts of its arguments, separated by single blanks.\<close>

lemma Cmder_String_join: "Cmder_String ff marshal args = Join (map (arg_text ff marshal) args) '' ''"
  by (simp add: Cmder_String_def cmder_loop_join)

text \<open>The server serves these pages: every page but the last is full, and names the cursor of the next.\<close>

fun scan_chain :: "(nat \<Rightarrow> 'e + string list \<times> nat) \<Rightarrow> int \<Rightarrow> nat \<Rightarrow> string list list \<Rightarrow> bool" where
  "scan_chain scan psize cursor [] = False"
| "scan_chain scan psize cursor [p] = (int (length p) < psize \<and> (\<exists>c. scan cursor = Inr (p, c)))"
| "scan_chain scan psize cursor (p # q # ps) =
     (int (length p) \<ge> psize \<and> (\<exists>c. scan cursor = Inr (p, c) \<and> scan_chain scan psize c (q # ps)))"

lemma members_loop_all:
  "members_loop (\<lambda>st k m. (g st k m, None)) key ms st = (foldl (\<lambda>st. g st key) st ms, None)"
  by (induction ms arbitrary: st) simp_all

lemma foreach_loop_all:
  "scan_chain scan psize cursor ps \<Longrightarrow>
   foreach_loop (\<lambda>_. False) scan (\<lambda>st k m. (g st k m, None)) key psize n cursor st =
     Some (foldl (\<lambda>st. g st key) st (concat ps), None)"
proof (induction scan psize cursor ps arbitrary: n st rule: scan_chain.induct)
  case (2 scan psize cursor p)
  then show ?case by (subst foreach_loop.simps) (auto simp: members_loop_all)
next
  case (3 scan psize cursor p q ps)
  then show ?case by (subst foreach_loop.simps) (auto simp: members_loop_all)
qed simp

text \<open>C27: When every page but the last is full and the last is not, ForeachSet returns and calls the
  function for every member of every page, in order; an empty set calls nothing.\<close>

theorem foreach_set_visits_all:
  assumes "scan_chain scan (if psize = 0 then 100 else psize) cursor ps" "count0 \<noteq> 0"
  shows "ForeachSet (\<lambda>_. False) (Inr count0) scan (\<lambda>st k m. (g st k m, None)) key cursor psize st =
           Some (foldl (\<lambda>st. g st key) st (concat ps), None) \<and>
         ForeachSet (\<lambda>_. False) (Inr 0) scan (\<lambda>st k m. (g st k m, None)) key cursor psize st = Some (st, None)"
  using foreach_loop_all [OF assms(1), of g key 0 st] assms(2) by (simp add: ForeachSet_def)

theorem foreach_set_visits_all_witness:
  "ForeachSet (\<lambda>_. False) (Inr 3) (\<lambda>c. if c = 0 then Inr ([''a'', ''b''], 9) else Inr ([''c''], 0) :: gerror + string list \<times> nat)
     (\<lambda>st k m. (st @ [m], None)) ''key'' 0 2 [] = Some ([''a'', ''b'', ''c''], None)"
  using foreach_set_visits_all [of "\<lambda>c. if c = 0 then Inr ([''a'', ''b''], 9) else Inr ([''c''], 0) :: gerror + string list \<times> nat"
      2 0 "[[''a'', ''b''], [''c'']]" 3 "\<lambda>st k m. st @ [m]" "''key''" "[]"]
  by simp

lemma foreach_full_page:
  assumes "foreach_loop d sc f key ps n c st = Some y"
  shows "\<not> (d = (\<lambda>_. False) \<and> sc = (\<lambda>_. Inr (page, c0)) \<and> f = (\<lambda>st k m. (g st k m, None)) \<and> ps \<le> int (length page))"
  by (rule foreach_loop.raw_induct [where P = "\<lambda>d sc f key ps n c st y. \<not> (d = (\<lambda>_. False) \<and>
        sc = (\<lambda>_. Inr (page, c0)) \<and> f = (\<lambda>st k m. (g st k m, None)) \<and> ps \<le> int (length page))", OF _ assms])
    (auto simp: members_loop_all split: if_splits)

lemma foreach_cancelled:
  assumes "foreach_loop d sc f key ps n c st = Some y"
  shows "d \<noteq> (\<lambda>_. True)"
  by (rule foreach_loop.raw_induct [where P = "\<lambda>d sc f key ps n c st y. d \<noteq> (\<lambda>_. True)", OF _ assms])
    (auto split: if_splits)


section \<open>Clients\<close>

text \<open>A client's JSON is that of its options; \<open>json_options\<close> is its text.\<close>

definition Client_MarshalJSON :: "('p Options \<Rightarrow> string result) \<Rightarrow> 'p Client \<Rightarrow> string result" where
  "Client_MarshalJSON json_options r = json_options (cl_options r)"

text \<open>
  \<open>UnmarshalJSON\<close> decodes into the options and connects. The client of a failed connection is nil, and the options
  are the decoded ones all the same.
\<close>

definition Client_UnmarshalJSON ::
    "crypto_lib \<Rightarrow> 'p tls_lib \<Rightarrow> 'p redis_lib \<Rightarrow> string \<Rightarrow> ('p redis_Options \<Rightarrow> gerror option) \<Rightarrow> nat \<Rightarrow> Handler option \<Rightarrow>
     'p redis_Options option \<times> 'p Options \<Rightarrow> string \<Rightarrow>
     (Handler option \<times> ('p redis_Options option \<times> 'p Options) \<times> redis_error option) go" where
  "Client_UnmarshalJSON lib tlib rlib env ping hook stopHandler r data =
     go_bind (Options_UnmarshalJSON lib tlib rlib env (snd r) data) (\<lambda>(op, err).
       case err of
         Some e \<Rightarrow> Ret (stopHandler, (fst r, op), Some e)
       | None \<Rightarrow>
           go_bind (NewRedisClient lib env ping hook stopHandler op) (\<lambda>(h, res).
             case res of
               Inl e \<Rightarrow> Ret (h, (None, op), Some e)
             | Inr client \<Rightarrow> Ret (h, (Some client, op), None)))"

definition Redis_Close :: "('p redis_Options \<Rightarrow> gerror option) \<Rightarrow> 'p Client \<Rightarrow> gerror option" where
  "Redis_Close close r = close (cl_client r)"

text \<open>
  The function that \<open>Redis\<close> wraps around a command: its span with attributes and final status, the level of the log
  line and the error of the command, \<open>redis.Nil\<close> being one of them.
\<close>

datatype redis_result = CmdOk | CmdNil | CmdErr gerror

datatype redis_status = SpanOk | SpanError string

record redis_span =
  sp_name :: string
  sp_attributes :: "(string \<times> string) list"
  sp_status :: redis_status
  sp_error_line :: bool

definition redis_nil :: gerror where "redis_nil = ''redis: nil''"

definition Redis_process ::
    "(string \<Rightarrow> (string \<times> string) result) \<Rightarrow> ('f \<Rightarrow> string) \<Rightarrow> (string \<Rightarrow> string) \<Rightarrow> string \<Rightarrow> 'p Client \<Rightarrow> string \<Rightarrow>
     'f arg list \<Rightarrow> redis_result \<Rightarrow> redis_span \<times> redis_result" where
  "Redis_process url_Parse FormatFloat marshal client_text r cmd_name args oldProcess =
     (case GetPeer url_Parse (cl_options r) of (host, port) \<Rightarrow>
        (\<lparr>sp_name = ''ExecuteRedisCommand.'' @ cmd_name,
          sp_attributes = [(''db.info'', client_text), (''net.peer.name'', host), (''net.peer.port'', Itoa port),
            (''db.statement'', Cmder_String FormatFloat marshal args), (''db.system'', ''redis'')],
          sp_status = (case oldProcess of CmdOk \<Rightarrow> SpanOk | CmdNil \<Rightarrow> SpanError redis_nil | CmdErr e \<Rightarrow> SpanError e),
          sp_error_line = (case oldProcess of CmdErr e \<Rightarrow> True | _ \<Rightarrow> False)\<rparr>,
         oldProcess))"

text \<open>Tracing does not change what a command returns, and only a real error is logged as one; the whole command,
  with every value that it stores, is an attribute of its span.\<close>

lemma process_transparent:
  assumes "Redis_process up ff m ct r n args res = (span, res')"
  shows "res' = res" "sp_error_line span \<longleftrightarrow> (\<exists>e. res = CmdErr e)"
    "(''db.statement'', Cmder_String ff m args) \<in> set (sp_attributes span)"
  using assms by (auto simp: Redis_process_def split: prod.splits redis_result.splits)

text \<open>A client that is decoded without an error is connected with the plaintext of the password that was decoded.\<close>

lemma client_decoded:
  assumes "Client_UnmarshalJSON lib tlib rlib env ping hook s r data = Ret (h, (c, op), None)"
  shows "\<exists>client. c = Some client \<and> ping client = None \<and>
    SString_UnsafeString lib env (op_Password op) = Ret (ro_Password client, None)"
  using assms by (auto simp: Client_UnmarshalJSON_def NewRedisClient_def Let_def split: option.splits sum.splits prod.splits)

end
