(* ===== verification/Generator.thy ===== *)
theory Generator
  imports GoPrelude
begin

text \<open>
  Package \<open>generator\<close> (\<open>generator/uuid.go\<close>): identifiers whose first eight bytes are a time stamp. The
  clock, the random UUID and the text form of a trace identifier are arguments.
\<close>

section \<open>Package encoding/binary\<close>

definition be_nat :: "byte list \<Rightarrow> nat" where
  "be_nat bs = foldl (\<lambda>n b. n * 256 + unat b) 0 bs"

definition BigEndian_Uint64 :: "byte list \<Rightarrow> uint64" where
  "BigEndian_Uint64 bs = of_nat (be_nat (take 8 bs))"

text \<open>The low \<open>k\<close> bytes of a number, the most significant first.\<close>

primrec be_bytes :: "nat \<Rightarrow> nat \<Rightarrow> byte list" where
  "be_bytes 0 n = []"
| "be_bytes (Suc k) n = be_bytes k (n div 256) @ [of_nat (n mod 256)]"

definition BigEndian_PutUint64 :: "uint64 \<Rightarrow> byte list" where
  "BigEndian_PutUint64 w = be_bytes 8 (unat w)"

lemma length_be_bytes [simp]: "length (be_bytes k n) = k"
  by (induction k arbitrary: n) simp_all

lemma be_nat_snoc [simp]: "be_nat (bs @ [b]) = be_nat bs * 256 + unat b"
  by (simp add: be_nat_def)

lemma be_nat_be_bytes: "n < 256 ^ k \<Longrightarrow> be_nat (be_bytes k n) = n"
proof (induction k arbitrary: n)
  case (Suc k)
  have "unat (of_nat (n mod 256) :: byte) = n mod 256" by (simp add: unat_of_nat take_bit_eq_mod)
  moreover have "be_nat (be_bytes k (n div 256)) = n div 256"
    using Suc.prems by (intro Suc.IH) (simp add: less_mult_imp_div_less mult.commute)
  ultimately show ?case by simp
qed (simp add: be_nat_def)

lemma Uint64_PutUint64: "BigEndian_Uint64 (BigEndian_PutUint64 w) = w"
proof -
  have "unat w < 256 ^ 8" using unsigned_less [of w] by simp
  then show ?thesis by (simp add: BigEndian_Uint64_def BigEndian_PutUint64_def be_nat_be_bytes)
qed

section \<open>NewUUID\<close>

definition midUint64 :: uint64 where
  "midUint64 = 2 ^ 63"

text \<open>The loop over the bytes of one seed, eight at a time, on top of the hash so far.\<close>

function seed_loop :: "byte list \<Rightarrow> uint64 \<Rightarrow> uint64" where
  "seed_loop bs hash =
     (if bs = [] then hash
      else if length bs \<le> 8 then hash + BigEndian_Uint64 (bs @ replicate (8 - length bs) 0)
      else seed_loop (drop 8 bs) (hash + BigEndian_Uint64 (take 8 bs)))"
  by pat_completeness auto

termination
  by (relation "measure (\<lambda>(bs, hash). length bs)") auto

declare seed_loop.simps [simp del]

definition seed_hash :: "byte list list \<Rightarrow> uint64" where
  "seed_hash seed =
     (let hash = foldl (\<lambda>hash bs. seed_loop bs hash) 0 seed in
      if hash > midUint64 then hash - midUint64 else hash)"

text \<open>\<open>now\<close> is \<open>uint64(time.Now().UnixMicro())\<close>, \<open>NewV4\<close> the random identifier; \<open>uuid.Must\<close> panics on its error.\<close>

definition NewUUID :: "uint64 \<Rightarrow> byte list result \<Rightarrow> byte list list \<Rightarrow> byte list go" where
  "NewUUID now NewV4 seed =
     (let ts = (if now < midUint64 then now + seed_hash seed else now) in
      case NewV4 of
        Inl err \<Rightarrow> Panic err
      | Inr i \<Rightarrow> Ret (BigEndian_PutUint64 ts @ drop 8 i))"

definition NewId :: "(byte list \<Rightarrow> string) \<Rightarrow> uint64 \<Rightarrow> byte list result \<Rightarrow> byte list list \<Rightarrow> string go" where
  "NewId TraceID_String now NewV4 seed = go_bind (NewUUID now NewV4 seed) (\<lambda>i. Ret (TraceID_String i))"

section \<open>Properties\<close>

lemma mid_unat: "unat midUint64 = 2 ^ 63"
  by (simp add: midUint64_def)

lemma seed_hash_le: "unat (seed_hash seed) \<le> 2 ^ 63"
proof -
  have "unat (if h > midUint64 then h - midUint64 else h) \<le> 2 ^ 63" for h :: uint64
  proof (cases "h > midUint64")
    case True
    then have "unat (h - midUint64) = unat h - 2 ^ 63" by (simp add: unat_sub mid_unat less_imp_le)
    moreover have "unat h < 2 ^ 64" using unsigned_less [of h] by simp
    ultimately show ?thesis using True by simp
  qed (simp add: word_less_nat_alt mid_unat)
  then show ?thesis by (simp add: seed_hash_def Let_def)
qed

lemma stamp_no_overflow:
  assumes "now < midUint64"
  shows "unat (now + seed_hash seed) = unat now + unat (seed_hash seed)"
proof (rule unat_add_lem [THEN iffD1])
  have "unat now < 2 ^ 63" using assms by (simp add: word_less_nat_alt mid_unat)
  then show "unat now + unat (seed_hash seed) < 2 ^ LENGTH(64)" using seed_hash_le [of seed] by simp
qed

text \<open>C29: Identifiers are ordered by their time of creation: with the same seed, an identifier made at an
  earlier microsecond has the smaller first eight bytes, because the reduced hash of the seed never
  makes the sum overflow. The other eight bytes are the random ones.\<close>

theorem uuid_ordered:
  assumes "now1 < now2" "now2 < midUint64" "length r1 = 16" "length r2 = 16"
  shows "\<exists>id1 id2. NewUUID now1 (Inr r1) seed = Ret id1 \<and> NewUUID now2 (Inr r2) seed = Ret id2 \<and>
           length id1 = 16 \<and> length id2 = 16 \<and> drop 8 id1 = drop 8 r1 \<and> drop 8 id2 = drop 8 r2 \<and>
           BigEndian_Uint64 id1 < BigEndian_Uint64 id2"
proof -
  let ?b = "\<lambda>now. BigEndian_PutUint64 (now + seed_hash seed)"
  have l: "length (?b now) = 8" for now by (simp add: BigEndian_PutUint64_def)
  have u: "BigEndian_Uint64 (?b now @ r) = now + seed_hash seed" for now r
    using Uint64_PutUint64 [of "now + seed_hash seed"] l [of now] by (simp add: BigEndian_Uint64_def)
  have "now1 + seed_hash seed < now2 + seed_hash seed"
    using assms(1,2) stamp_no_overflow [of now1 seed] stamp_no_overflow [of now2 seed]
    by (simp add: word_less_nat_alt)
  then show ?thesis using assms l u
    by (auto simp: NewUUID_def Let_def)
qed

theorem uuid_ordered_witness:
  "\<exists>id1 id2. NewUUID 5 (Inr (replicate 16 7)) [[1, 2]] = Ret id1 \<and> NewUUID 6 (Inr (replicate 16 3)) [[1, 2]] = Ret id2 \<and>
     BigEndian_Uint64 id1 < BigEndian_Uint64 id2"
  using uuid_ordered [of 5 6 "replicate 16 7" "replicate 16 3" "[[1, 2]]"] by (auto simp: midUint64_def)

text \<open>The time stamp overwrites the version of the random identifier, which is the high half of byte 6.\<close>

theorem uuid_version_lost:
  assumes "now < midUint64"
  shows "\<exists>i. NewUUID now (Inr r) [] = Ret i \<and> i ! 6 = of_nat (unat now div 256 mod 256)"
proof -
  have "be_bytes 8 n ! 6 = of_nat (n div 256 mod 256)" for n
  proof -
    have "be_bytes (Suc (Suc 6)) n = be_bytes 6 (n div 256 div 256) @ [of_nat (n div 256 mod 256), of_nat (n mod 256)]"
      by (simp only: be_bytes.simps append_assoc append.simps)
    moreover have "be_bytes 8 n = be_bytes (Suc (Suc 6)) n" by (simp only: numeral_eq_Suc pred_numeral_simps BitM.simps)
    ultimately show ?thesis by (simp only: nth_append length_be_bytes) simp
  qed
  then show ?thesis using assms
    by (simp add: NewUUID_def seed_hash_def midUint64_def BigEndian_PutUint64_def nth_append)
qed

end
