(* ===== verification/LogConfig.thy ===== *)
theory LogConfig
  imports GoPrelude
begin

text \<open>
  The configuration of package \<open>log\<close> (\<open>log/config.go\<close>): levels, formats and the registry of formats. A
  method with a pointer receiver returns the new value and the error; a constructor of a logger is a
  value of a type \<open>'c\<close>. The registry is a \<open>sync.Map\<close>, whose \<open>Range\<close> visits the entries in an order
  that is an argument.
\<close>

section \<open>Levels\<close>

type_synonym AllowedLevel = string
type_synonym AllowedFormat = string

definition LevelDebug :: AllowedLevel where "LevelDebug = ''debug''"
definition LevelInfo :: AllowedLevel where "LevelInfo = ''info''"
definition LevelWarn :: AllowedLevel where "LevelWarn = ''warn''"
definition LevelError :: AllowedLevel where "LevelError = ''error''"

lemmas level_names = LevelDebug_def LevelInfo_def LevelWarn_def LevelError_def

datatype level_option = AllowDebug | AllowInfo | AllowWarn | AllowError

definition getOption :: "AllowedLevel \<Rightarrow> level_option" where
  "getOption l =
     (if l = LevelDebug then AllowDebug
      else if l = LevelInfo then AllowInfo
      else if l = LevelWarn then AllowWarn
      else if l = LevelError then AllowError
      else AllowWarn)"

definition Level_Valid :: "AllowedLevel \<Rightarrow> gerror option" where
  "Level_Valid l =
     (if l \<in> {LevelDebug, LevelInfo, LevelWarn, LevelError} then None
      else Some (''unrecognized log level \"'' @ l @ ''\"''))"

definition Level_Set :: "AllowedLevel \<Rightarrow> string \<Rightarrow> AllowedLevel \<times> gerror option" where
  "Level_Set l s =
     (let lvl = s; s' = (if length s = 0 then LevelWarn else s) in
      case Level_Valid lvl of
        Some err \<Rightarrow> (l, Some err)
      | None \<Rightarrow> (s', None))"

definition Level_UnmarshalYAML :: "AllowedLevel \<Rightarrow> string result \<Rightarrow> AllowedLevel \<times> gerror option" where
  "Level_UnmarshalYAML l decoded = (case decoded of Inl err \<Rightarrow> (l, Some err) | Inr s \<Rightarrow> Level_Set l s)"

definition Level_String :: "AllowedLevel \<Rightarrow> string" where
  "Level_String l = l"

section \<open>Formats\<close>

type_synonym 'c formats = "(AllowedFormat, 'c) gomap"

definition RegisterLogFormat :: "AllowedFormat \<Rightarrow> 'c \<Rightarrow> 'c formats \<Rightarrow> 'c formats" where
  "RegisterLogFormat logFmt f m = AList.update logFmt f m"

definition GetRegisteredLogFormats :: "('c formats \<Rightarrow> 'c formats) \<Rightarrow> 'c formats \<Rightarrow> AllowedFormat list" where
  "GetRegisteredLogFormats iter m = foldl (\<lambda>fmts kv. fmts @ [fst kv]) [] (iter m)"

definition Format_String :: "AllowedFormat \<Rightarrow> string" where
  "Format_String f = f"

definition Format_Valid :: "'c formats \<Rightarrow> AllowedFormat \<Rightarrow> gerror option" where
  "Format_Valid m f = (case map_of m f of None \<Rightarrow> Some (''unrecognized log format '' @ f) | Some _ \<Rightarrow> None)"

definition Format_Set :: "'c formats \<Rightarrow> AllowedFormat \<Rightarrow> string \<Rightarrow> AllowedFormat \<times> gerror option" where
  "Format_Set m f s = (case Format_Valid m s of Some err \<Rightarrow> (f, Some err) | None \<Rightarrow> (s, None))"

definition FormatJSON :: AllowedFormat where "FormatJSON = ''json''"
definition FormatLogfmt :: AllowedFormat where "FormatLogfmt = ''logfmt''"

section \<open>Config\<close>

record Config =
  cfg_Level :: "AllowedLevel option"
  cfg_Format :: "AllowedFormat option"
  FilePath :: string
  FileMaxAge :: int
  FileRotationSize :: string
  FileRotationTime :: int

definition MustNewConfig :: "'c formats \<Rightarrow> string \<Rightarrow> string \<Rightarrow> Config go" where
  "MustNewConfig m level format =
     (case Level_Set [] level of
        (l, Some err) \<Rightarrow> Panic err
      | (l, None) \<Rightarrow>
          (case Format_Set m [] format of
             (f, Some err) \<Rightarrow> Panic err
           | (f, None) \<Rightarrow>
               Ret \<lparr>cfg_Level = Some l, cfg_Format = Some f, FilePath = [], FileMaxAge = 0, FileRotationSize = [],
                    FileRotationTime = 0\<rparr>))"

text \<open>The package's \<open>init\<close>: the registry and the default configuration.\<close>

definition log_init :: "'c \<Rightarrow> 'c \<Rightarrow> 'c formats \<Rightarrow> ('c formats \<times> Config) go" where
  "log_init NewLogfmtLogger NewJSONLogger m =
     (let m' = RegisterLogFormat FormatJSON NewJSONLogger (RegisterLogFormat FormatLogfmt NewLogfmtLogger m) in
      go_bind (MustNewConfig m' ''info'' ''logfmt'') (\<lambda>cfg. Ret (m', cfg)))"

section \<open>Properties\<close>

lemma registered_formats: "GetRegisteredLogFormats iter m = map fst (iter m)"
proof -
  have "foldl (\<lambda>fmts kv. fmts @ [fst kv]) acc xs = acc @ map fst xs" for acc and xs :: "'a formats"
    by (induction xs arbitrary: acc) simp_all
  from this [of "[]"] show ?thesis by (simp add: GetRegisteredLogFormats_def)
qed

lemma Level_Set_cases:
  "Level_Set l s = (if s \<in> {LevelDebug, LevelInfo, LevelWarn, LevelError} then (s, None)
     else (l, Some (''unrecognized log level \"'' @ s @ ''\"'')))"
  by (auto simp: Level_Set_def Level_Valid_def level_names)

lemma Format_Set_cases:
  "Format_Set m f s = (if s \<in> fst ` set m then (s, None) else (f, Some (''unrecognized log format '' @ s)))"
  by (auto simp: Format_Set_def Format_Valid_def map_of_eq_None_iff split: option.splits dest: map_of_SomeD intro: rev_image_eqI)

lemma log_init_formats:
  "gomap_ok m \<Longrightarrow> \<exists>m' cfg. log_init mk1 mk2 m = Ret (m', cfg) \<and> gomap_ok m' \<and>
     fst ` set m' = insert FormatLogfmt (insert FormatJSON (fst ` set m)) \<and>
     map_of m' FormatLogfmt = Some mk1 \<and> map_of m' FormatJSON = Some mk2 \<and>
     cfg_Level cfg = Some LevelInfo \<and> cfg_Format cfg = Some FormatLogfmt"
  by (simp add: log_init_def RegisterLogFormat_def MustNewConfig_def Level_Set_cases Format_Set_cases
      dom_update update_conv gomap_ok_def distinct_update level_names FormatJSON_def FormatLogfmt_def)

text \<open>A configuration is built exactly for a known level and a registered format, and any other text
  panics; after the package's init both built-in formats are registered and listed exactly once, and the
  default configuration is level info in logfmt. The empty level is refused although Set replaces it by a
  default.\<close>

theorem log_config_valid:
  assumes "gomap_ok m" "range_order iter"
  shows "((\<exists>cfg. MustNewConfig m level format = Ret cfg \<and> cfg_Level cfg = Some level \<and> cfg_Format cfg = Some format) \<longleftrightarrow>
           level \<in> {LevelDebug, LevelInfo, LevelWarn, LevelError} \<and> format \<in> set (GetRegisteredLogFormats iter m)) \<and>
    (\<exists>m' cfg. log_init mk1 mk2 m = Ret (m', cfg) \<and> distinct (GetRegisteredLogFormats iter m') \<and>
           set (GetRegisteredLogFormats iter m') =
             insert FormatLogfmt (insert FormatJSON (set (GetRegisteredLogFormats iter m))) \<and>
           cfg_Level cfg = Some LevelInfo \<and> cfg_Format cfg = Some FormatLogfmt) \<and>
    (\<exists>err. Level_Set l [] = (l, Some err))"
proof (intro conjI)
  have fm: "set (GetRegisteredLogFormats iter m) = fst ` set m" for m using assms(2) by (simp add: registered_formats)
  show "(\<exists>cfg. MustNewConfig m level format = Ret cfg \<and> cfg_Level cfg = Some level \<and> cfg_Format cfg = Some format) \<longleftrightarrow>
      level \<in> {LevelDebug, LevelInfo, LevelWarn, LevelError} \<and> format \<in> set (GetRegisteredLogFormats iter m)"
    unfolding fm by (simp add: MustNewConfig_def Level_Set_cases Format_Set_cases)
  show "\<exists>m' cfg. log_init mk1 mk2 m = Ret (m', cfg) \<and> distinct (GetRegisteredLogFormats iter m') \<and>
           set (GetRegisteredLogFormats iter m') =
             insert FormatLogfmt (insert FormatJSON (set (GetRegisteredLogFormats iter m))) \<and>
           cfg_Level cfg = Some LevelInfo \<and> cfg_Format cfg = Some FormatLogfmt"
    unfolding fm using log_init_formats [OF assms(1), of mk1 mk2] range_order_distinct [OF assms(2)]
    by (metis registered_formats)
  show "\<exists>err. Level_Set l [] = (l, Some err)"
    by (simp add: Level_Set_cases level_names)
qed

theorem log_config_valid_witness:
  "\<exists>cfg. MustNewConfig [(''json'', ())] ''warn'' ''json'' = Ret cfg \<and> cfg_Level cfg = Some ''warn'' \<and> cfg_Format cfg = Some ''json''"
  using log_config_valid [of "[(''json'', ())]" "\<lambda>m. m" "''warn''" "''json''" "()" "()"]
  by (simp add: gomap_ok_def registered_formats level_names)

end
