(* ===== verification/DbOptions.thy ===== *)
theory DbOptions
  imports SafeString Tls "HOL-Library.Char_ord" "HOL-Library.List_Lexorder"
begin

text \<open>
  The options of package \<open>gorm\<close> (\<open>clients/gorm/gorm_mysql.go\<close>, \<open>gorm_clickhouse.go\<close>, \<open>gorm_sqlite.go\<close>):
  defaults, comparison, peers, texts and the ClickHouse DSN. A duration is a number of nanoseconds in 64
  bits; the text of a \<open>model.Duration\<close> is an argument, as are the JSON decoders. What the DSN uses of
  \<open>net/url\<close> is modelled.
\<close>

type_synonym int32 = "32 word"
type_synonym duration = int64

section \<open>Package net/url\<close>

datatype encoding = encodePath | encodeHost | encodeUserPassword | encodeQueryComponent

definition is_alnum :: "char \<Rightarrow> bool" where
  "is_alnum c \<longleftrightarrow> (let n = (of_char c :: nat) in 97 \<le> n \<and> n \<le> 122 \<or> 65 \<le> n \<and> n \<le> 90 \<or> 48 \<le> n \<and> n \<le> 57)"

definition host_chars :: string where
  "host_chars = ''!$&()*+,;=:[]<>'' @ [CHR 0x22, CHR 0x27]"

definition shouldEscape :: "char \<Rightarrow> encoding \<Rightarrow> bool" where
  "shouldEscape c mode =
     (if is_alnum c then False
      else if mode = encodeHost \<and> c \<in> set host_chars then False
      else if c \<in> set ''-_.~'' then False
      else if c \<in> set ''$&+,/:;=?@'' then
        (case mode of
           encodePath \<Rightarrow> c = CHR ''?''
         | encodeUserPassword \<Rightarrow> c \<in> set ''@/?:''
         | encodeQueryComponent \<Rightarrow> True
         | encodeHost \<Rightarrow> True)
      else True)"

definition upperhex :: "nat \<Rightarrow> char" where
  "upperhex n = (if n < 10 then char_of (48 + n) else char_of (55 + n))"

definition escape_char :: "encoding \<Rightarrow> char \<Rightarrow> string" where
  "escape_char mode c =
     (if c = CHR '' '' \<and> mode = encodeQueryComponent then ''+''
      else if shouldEscape c mode then [CHR ''%'', upperhex (of_char c div 16), upperhex (of_char c mod 16)]
      else [c])"

definition escape :: "string \<Rightarrow> encoding \<Rightarrow> string" where
  "escape s mode = concat (map (escape_char mode) s)"

text \<open>The inverse outside of queries, for the theorems.\<close>

definition unhex :: "char \<Rightarrow> nat" where
  "unhex c = (if of_char c \<le> (57 :: nat) then of_char c - 48 else of_char c - 55)"

fun unescape :: "string \<Rightarrow> string" where
  "unescape (c # a # b # s) =
     (if c = CHR ''%'' then char_of (unhex a * 16 + unhex b) # unescape s else c # unescape (a # b # s))"
| "unescape s = s"

record URL =
  u_Scheme :: string
  u_User :: "(string \<times> string) option"
  u_Host :: string
  u_Path :: string
  u_RawQuery :: string

definition Userinfo_String :: "string \<times> string \<Rightarrow> string" where
  "Userinfo_String ui = escape (fst ui) encodeUserPassword @ '':'' @ escape (snd ui) encodeUserPassword"

definition EscapedPath :: "URL \<Rightarrow> string" where
  "EscapedPath u = (if u_Path u = ''*'' then ''*'' else escape (u_Path u) encodePath)"

text \<open>\<open>URL.String\<close>, for a URL that has a scheme.\<close>

definition URL_String :: "URL \<Rightarrow> string" where
  "URL_String u =
     u_Scheme u @ '':'' @
     (if u_Host u \<noteq> [] \<or> u_Path u \<noteq> [] \<or> u_User u \<noteq> None then ''//'' else []) @
     (case u_User u of None \<Rightarrow> [] | Some ui \<Rightarrow> Userinfo_String ui @ ''@'') @
     escape (u_Host u) encodeHost @
     (if EscapedPath u \<noteq> [] \<and> hd (EscapedPath u) \<noteq> CHR ''/'' \<and> u_Host u \<noteq> [] then ''/'' else []) @
     EscapedPath u @
     (if u_RawQuery u \<noteq> [] then ''?'' @ u_RawQuery u else [])"

text \<open>\<open>url.Values\<close>, which may be the nil map: a nil map can be read but not written.\<close>

type_synonym url_Values = "(string, string list) gomap option"

definition Values_Set :: "url_Values \<Rightarrow> string \<Rightarrow> string \<Rightarrow> url_Values go" where
  "Values_Set v key value =
     (case v of
        None \<Rightarrow> Panic ''assignment to entry in nil map''
      | Some m \<Rightarrow> Ret (Some (AList.update key [value] m)))"

definition Values_Encode :: "url_Values \<Rightarrow> string" where
  "Values_Encode v =
     (case v of
        None \<Rightarrow> []
      | Some m \<Rightarrow>
          Join (concat (map (\<lambda>(k, vs). map (\<lambda>x. escape k encodeQueryComponent @ ''='' @ escape x encodeQueryComponent) vs)
                  (sort_key fst m))) ''&'')"

section \<open>MySQL\<close>

text \<open>The TLS setting: a registered name, or options that are registered under a generated name.\<close>

record mysql_TLS =
  mt_options :: "TLSOptions option"
  mt_name :: string

definition mysql_TLS_MarshalJSON :: "(TLSOptions \<Rightarrow> string result) \<Rightarrow> mysql_TLS \<Rightarrow> string result" where
  "mysql_TLS_MarshalJSON json_Marshal t =
     (case mt_options t of None \<Rightarrow> Inr (mt_name t) | Some opts \<Rightarrow> json_Marshal opts)"

definition zero_TLSOptions :: TLSOptions where
  "zero_TLSOptions = \<lparr>CAFile = [], CertFile = [], KeyFile = [], ServerName = [], InsecureSkipVerify = False, MinVersion = []\<rparr>"

datatype db_error =
    JsonErr gerror
  | TlsErr tls_error
  | RegisterErr gerror
  | PasswordErr crypt_error
  | ServerErr int gerror
  | DriverErr gerror
  | ExecErr gerror
  | HandleErr gerror
  | DurationErr gerror
  | SqliteErr string gerror

text \<open>
  The decoders of a string and of an object, \<open>g.NewId\<close> and the driver's registry (a state \<open>'w\<close>) are
  arguments.
\<close>

definition mysql_TLS_UnmarshalJSON ::
    "(string \<Rightarrow> string \<Rightarrow> string \<times> gerror option) \<Rightarrow> (string \<Rightarrow> TLSOptions \<Rightarrow> TLSOptions \<times> gerror option) \<Rightarrow>
     string go \<Rightarrow> 'p tls_lib \<Rightarrow> (string \<Rightarrow> 'p tls_Config \<Rightarrow> 'w \<Rightarrow> 'w \<times> gerror option) \<Rightarrow>
     string \<Rightarrow> mysql_TLS \<Rightarrow> 'w \<Rightarrow> ('w \<times> mysql_TLS \<times> db_error option) go" where
  "mysql_TLS_UnmarshalJSON json_string json_object NewId tlib RegisterTLSConfig data t w =
     (case json_string data (mt_name t) of
        (name, None) \<Rightarrow> Ret (w, t\<lparr>mt_name := name\<rparr>, None)
      | (name, Some _) \<Rightarrow>
          (case json_object data (case mt_options t of None \<Rightarrow> zero_TLSOptions | Some opts \<Rightarrow> opts) of
             (opts, Some err) \<Rightarrow> Ret (w, t\<lparr>mt_name := name, mt_options := Some opts\<rparr>, Some (JsonErr err))
           | (opts, None) \<Rightarrow>
               go_bind NewId (\<lambda>fresh.
                 let t1 = t\<lparr>mt_name := fresh, mt_options := Some opts\<rparr> in
                 case NewTLSConfig tlib (Some opts) of
                   Inl err \<Rightarrow> Ret (w, t1, Some (TlsErr err))
                 | Inr cfg \<Rightarrow>
                     (case RegisterTLSConfig fresh cfg w of (w', err) \<Rightarrow>
                        Ret (w', t1, map_option RegisterErr err)))))"

text \<open>The receiver and the argument are pointers; both conditions before the return read through them.\<close>

definition mysql_TLS_Equal :: "mysql_TLS option \<Rightarrow> mysql_TLS option \<Rightarrow> bool go" where
  "mysql_TLS_Equal a b =
     (if a = None \<and> b = None then Ret True
      else case a of
          None \<Rightarrow> Panic nil_deref
        | Some x \<Rightarrow>
            if mt_options x = None then
              (case b of
                 None \<Rightarrow> Panic nil_deref
               | Some y \<Rightarrow> if mt_options y = None then Ret True else Ret (mt_options x = mt_options y))
            else
              (case b of None \<Rightarrow> Ret False | Some y \<Rightarrow> Ret (mt_options x = mt_options y)))"

record MySQLOptions =
  my_Host :: string
  my_Username :: string
  my_Password :: SString
  my_Schema :: string
  my_MaxIdleConnections :: int32
  my_MaxOpenConnections :: int32
  my_MaxConnectionLifeTime :: "duration option"
  my_Charset :: string
  my_Collation :: string
  my_TablePrefix :: string
  my_SlowThreshold :: "duration option"
  my_TLSConfig :: "mysql_TLS option"
  my_EnableCompression :: bool

definition durationEqual :: "(duration \<Rightarrow> string) \<Rightarrow> duration option \<Rightarrow> duration option \<Rightarrow> bool" where
  "durationEqual dur_String dur1 dur2 =
     (case (dur1, dur2) of
        (None, None) \<Rightarrow> True
      | (Some a, Some b) \<Rightarrow> dur_String a = dur_String b
      | _ \<Rightarrow> False)"

definition MySQLOptions_Equal ::
    "crypto_lib \<Rightarrow> string \<Rightarrow> (duration \<Rightarrow> string) \<Rightarrow> MySQLOptions \<Rightarrow> MySQLOptions \<Rightarrow> bool go" where
  "MySQLOptions_Equal lib env dur_String x y =
     (if my_Host x \<noteq> my_Host y \<or> my_Username x \<noteq> my_Username y then Ret False
      else go_bind (SString_Equal lib env (my_Password x) (my_Password y)) (\<lambda>same.
        if \<not> same \<or> my_Schema x \<noteq> my_Schema y \<or>
           my_MaxIdleConnections x \<noteq> my_MaxIdleConnections y \<or>
           my_MaxOpenConnections x \<noteq> my_MaxOpenConnections y \<or>
           \<not> durationEqual dur_String (my_MaxConnectionLifeTime x) (my_MaxConnectionLifeTime y) \<or>
           my_Charset x \<noteq> my_Charset y \<or> my_Collation x \<noteq> my_Collation y \<or>
           my_TablePrefix x \<noteq> my_TablePrefix y \<or>
           \<not> durationEqual dur_String (my_SlowThreshold x) (my_SlowThreshold y)
        then Ret False
        else mysql_TLS_Equal (my_TLSConfig x) (my_TLSConfig x)))"

definition MySQLOptions_GetType :: "MySQLOptions \<Rightarrow> string" where
  "MySQLOptions_GetType x = ''mysql''"

definition MySQLOptions_String :: "MySQLOptions \<Rightarrow> string" where
  "MySQLOptions_String x = MySQLOptions_GetType x @ ''://'' @ my_Username x @ ''@'' @ my_Host x @ ''/'' @ my_Schema x"

definition MySQLOptions_GetPeer :: "MySQLOptions \<Rightarrow> string \<times> int" where
  "MySQLOptions_GetPeer x =
     (case Cut (my_Host x) (CHR '':'') of (host, port, found) \<Rightarrow>
        if found \<and> length port > 0 then
          (case ParseInt port of (portNum, None) \<Rightarrow> (host, portNum) | (_, Some _) \<Rightarrow> (my_Host x, 3306))
        else (my_Host x, 3306))"

definition MySQLOptions_GetConnectionString :: "MySQLOptions \<Rightarrow> string" where
  "MySQLOptions_GetConnectionString x = ''mysql://'' @ my_Host x"

definition MySQLOptions_GetDBName :: "MySQLOptions \<Rightarrow> string" where
  "MySQLOptions_GetDBName x = my_Schema x"

definition MySQLOptions_GetUsername :: "MySQLOptions \<Rightarrow> string" where
  "MySQLOptions_GetUsername x = my_Username x"

text \<open>A nil receiver is allowed.\<close>

definition MySQLOptions_GetStdMaxConnectionLifeTime :: "MySQLOptions option \<Rightarrow> duration" where
  "MySQLOptions_GetStdMaxConnectionLifeTime x =
     (case x of
        Some o1 \<Rightarrow> (case my_MaxConnectionLifeTime o1 of Some d \<Rightarrow> d | None \<Rightarrow> 30 * 1000000000)
      | None \<Rightarrow> 30 * 1000000000)"

definition NewMySQLOptions :: MySQLOptions where
  "NewMySQLOptions = \<lparr>my_Host = ''localhost'', my_Username = ''idas'', my_Password = \<lparr>ss_value = [], ss_secret = []\<rparr>,
     my_Schema = ''idas'', my_MaxIdleConnections = 2, my_MaxOpenConnections = 100,
     my_MaxConnectionLifeTime = Some (30 * 1000000000), my_Charset = ''utf8'', my_Collation = ''utf8_general_ci'',
     my_TablePrefix = ''t_'', my_SlowThreshold = None, my_TLSConfig = None, my_EnableCompression = False\<rparr>"

section \<open>ClickHouse\<close>

record ClickhouseOptions =
  ch_Host :: string
  ch_Username :: string
  ch_Password :: SString
  ch_Schema :: string
  ch_MaxIdleConnections :: int32
  ch_MaxOpenConnections :: int32
  ch_MaxConnectionLifeTime :: "duration option"
  ch_TablePrefix :: string
  ch_SlowThreshold :: "duration option"
  ch_DialTimeout :: "duration option"
  ch_ReadTimeout :: "duration option"
  ch_MaxExecutionTime :: "duration option"

definition ClickhouseOptions_Equal ::
    "crypto_lib \<Rightarrow> string \<Rightarrow> (duration \<Rightarrow> string) \<Rightarrow> ClickhouseOptions \<Rightarrow> ClickhouseOptions \<Rightarrow> bool go" where
  "ClickhouseOptions_Equal lib env dur_String x y =
     (if ch_Host x \<noteq> ch_Host y \<or> ch_Username x \<noteq> ch_Username y then Ret False
      else go_bind (SString_Equal lib env (ch_Password x) (ch_Password y)) (\<lambda>same.
        Ret (\<not> (\<not> same \<or> ch_Schema x \<noteq> ch_Schema y \<or>
           ch_MaxIdleConnections x \<noteq> ch_MaxIdleConnections y \<or>
           ch_MaxOpenConnections x \<noteq> ch_MaxOpenConnections y \<or>
           \<not> durationEqual dur_String (ch_MaxConnectionLifeTime x) (ch_MaxConnectionLifeTime y) \<or>
           ch_TablePrefix x \<noteq> ch_TablePrefix y \<or>
           \<not> durationEqual dur_String (ch_SlowThreshold x) (ch_SlowThreshold y) \<or>
           \<not> durationEqual dur_String (ch_DialTimeout x) (ch_DialTimeout y) \<or>
           \<not> durationEqual dur_String (ch_ReadTimeout x) (ch_ReadTimeout y) \<or>
           \<not> durationEqual dur_String (ch_MaxExecutionTime x) (ch_MaxExecutionTime y)))))"

definition ClickhouseOptions_GetPeer :: "ClickhouseOptions \<Rightarrow> string \<times> int" where
  "ClickhouseOptions_GetPeer x =
     (case Cut (ch_Host x) (CHR '':'') of (host, port, found) \<Rightarrow>
        if found \<and> length port > 0 then
          (case ParseInt port of (portNum, None) \<Rightarrow> (host, portNum) | (_, Some _) \<Rightarrow> (ch_Host x, 9000))
        else (ch_Host x, 9000))"

definition ClickhouseOptions_GetType :: "ClickhouseOptions \<Rightarrow> string" where
  "ClickhouseOptions_GetType x = ''clickhouse''"

definition ClickhouseOptions_String :: "ClickhouseOptions \<Rightarrow> string" where
  "ClickhouseOptions_String x =
     ClickhouseOptions_GetType x @ ''://'' @ ch_Username x @ ''@'' @ ch_Host x @ ''/'' @ ch_Schema x"

definition ClickhouseOptions_GetConnectionString :: "ClickhouseOptions \<Rightarrow> string" where
  "ClickhouseOptions_GetConnectionString x = ''clickhouse://'' @ ch_Host x"

definition ClickhouseOptions_GetDBName :: "ClickhouseOptions \<Rightarrow> string" where
  "ClickhouseOptions_GetDBName x = ch_Schema x"

definition ClickhouseOptions_GetUsername :: "ClickhouseOptions \<Rightarrow> string" where
  "ClickhouseOptions_GetUsername x = ch_Username x"

definition ClickhouseOptions_GetStdMaxConnectionLifeTime :: "ClickhouseOptions option \<Rightarrow> duration" where
  "ClickhouseOptions_GetStdMaxConnectionLifeTime x =
     (case x of
        Some o1 \<Rightarrow> (case ch_MaxConnectionLifeTime o1 of Some d \<Rightarrow> d | None \<Rightarrow> 30 * 1000000000)
      | None \<Rightarrow> 30 * 1000000000)"

text \<open>\<open>if d != nil { q.Set(key, d.String()) }\<close>\<close>

definition set_timeout :: "(duration \<Rightarrow> string) \<Rightarrow> string \<Rightarrow> duration option \<Rightarrow> url_Values \<Rightarrow> url_Values go" where
  "set_timeout dur_String key d q = (case d of None \<Rightarrow> Ret q | Some t \<Rightarrow> Values_Set q key (dur_String t))"

text \<open>\<open>var q url.Values\<close> declares the nil map.\<close>

definition GetDSN ::
    "crypto_lib \<Rightarrow> string \<Rightarrow> (duration \<Rightarrow> string) \<Rightarrow> ClickhouseOptions \<Rightarrow> (db_error + string) go" where
  "GetDSN lib env dur_String x =
     go_bind (SString_UnsafeString lib env (ch_Password x)) (\<lambda>(passwd, err).
       case err of
         Some e \<Rightarrow> Ret (Inl (PasswordErr e))
       | None \<Rightarrow>
           go_bind (set_timeout dur_String ''dial_timeout'' (ch_DialTimeout x) None) (\<lambda>q1.
           go_bind (set_timeout dur_String ''read_timeout'' (ch_ReadTimeout x) q1) (\<lambda>q2.
           go_bind (set_timeout dur_String ''max_execution_time'' (ch_MaxExecutionTime x) q2) (\<lambda>q3.
             Ret (Inr (URL_String \<lparr>u_Scheme = ''clickhouse'', u_User = Some (ch_Username x, passwd), u_Host = ch_Host x,
               u_Path = ''/'' @ ch_Schema x, u_RawQuery = Values_Encode q3\<rparr>))))))"

definition NewClickhouseOptions :: ClickhouseOptions where
  "NewClickhouseOptions = \<lparr>ch_Host = ''localhost'', ch_Username = ''idas'', ch_Password = \<lparr>ss_value = [], ss_secret = []\<rparr>,
     ch_Schema = ''idas'', ch_MaxIdleConnections = 2, ch_MaxOpenConnections = 100,
     ch_MaxConnectionLifeTime = Some (30 * 1000000000), ch_TablePrefix = ''t_'', ch_SlowThreshold = None,
     ch_DialTimeout = None, ch_ReadTimeout = None, ch_MaxExecutionTime = None\<rparr>"

section \<open>SQLite\<close>

text \<open>The slow threshold is a protobuf duration: seconds and nanoseconds.\<close>

record SQLiteOptions =
  sq_Path :: string
  sq_TablePrefix :: string
  sq_SlowThreshold :: "(int64 \<times> int32) option"

definition SQLiteOptions_GetConnectionString :: "SQLiteOptions \<Rightarrow> string" where
  "SQLiteOptions_GetConnectionString x = ''sqlite://'' @ sq_Path x"

definition SQLiteOptions_String :: "SQLiteOptions \<Rightarrow> string" where
  "SQLiteOptions_String x = SQLiteOptions_GetConnectionString x"

definition SQLiteOptions_GetPeer :: "SQLiteOptions \<Rightarrow> string \<times> int" where
  "SQLiteOptions_GetPeer x = (sq_Path x, 0)"

definition SQLiteOptions_GetDBName :: "SQLiteOptions \<Rightarrow> string" where
  "SQLiteOptions_GetDBName x = ''main''"

definition SQLiteOptions_GetUsername :: "SQLiteOptions \<Rightarrow> string" where
  "SQLiteOptions_GetUsername x = []"

definition SQLiteOptions_GetType :: "SQLiteOptions \<Rightarrow> string" where
  "SQLiteOptions_GetType x = ''sqlite''"

definition NewSQLiteOptions :: SQLiteOptions where
  "NewSQLiteOptions = \<lparr>sq_Path = ''data.db'', sq_TablePrefix = ''t_'', sq_SlowThreshold = None\<rparr>"

text \<open>The scalar function \<open>from_base64\<close> that \<open>init\<close> registers with SQLite; it is declared with one argument.\<close>

definition from_base64 :: "driver_value list \<Rightarrow> byte list result go" where
  "from_base64 args =
     (case args of
        [] \<Rightarrow> Panic ''index out of range''
      | Str s # _ \<Rightarrow>
          Ret (case b64_DecodeString s of Some b \<Rightarrow> Inr b | None \<Rightarrow> Inl ''illegal base64 data'')
      | Bytes _ # _ \<Rightarrow> Ret (Inl ''unsupported type: []uint8'')
      | Other t # _ \<Rightarrow> Ret (Inl (''unsupported type: '' @ t)))"

section \<open>Interfaces\<close>

text \<open>
  \<open>DBOptions\<close> as its users see it: six texts, and a password they must not show. The laws are that none
  of the texts depends on the password and that the two addresses start with the type.
\<close>

locale db_options =
  fixes connection_string :: "'o \<Rightarrow> string" and peer :: "'o \<Rightarrow> string \<times> int" and db_name :: "'o \<Rightarrow> string"
    and username :: "'o \<Rightarrow> string" and db_type :: "'o \<Rightarrow> string" and text_of :: "'o \<Rightarrow> string"
    and set_password :: "SString \<Rightarrow> 'o \<Rightarrow> 'o"
  assumes connection_password: "connection_string (set_password pw opts) = connection_string opts"
    and peer_password: "peer (set_password pw opts) = peer opts"
    and db_name_password: "db_name (set_password pw opts) = db_name opts"
    and username_password: "username (set_password pw opts) = username opts"
    and db_type_password: "db_type (set_password pw opts) = db_type opts"
    and text_password: "text_of (set_password pw opts) = text_of opts"
    and connection_type: "HasPrefix (connection_string opts) (db_type opts @ ''://'')"
    and text_type: "HasPrefix (text_of opts) (db_type opts @ ''://'')"
begin

text \<open>Whatever is computed from the interface alone is the same for every password.\<close>

lemma no_secret:
  "F (connection_string (set_password pw opts)) (peer (set_password pw opts)) (db_name (set_password pw opts))
     (username (set_password pw opts)) (db_type (set_password pw opts)) (text_of (set_password pw opts)) =
   F (connection_string opts) (peer opts) (db_name opts) (username opts) (db_type opts) (text_of opts)"
  by (simp add: connection_password peer_password db_name_password username_password db_type_password text_password)

lemma type_nonempty_address: "connection_string opts \<noteq> []"
  using connection_type [of opts] by (auto simp: HasPrefix_def)

end

text \<open>A server that is reached over TCP: a host with an optional port.\<close>

locale tcp_peer =
  fixes host_of :: "'o \<Rightarrow> string" and peer :: "'o \<Rightarrow> string \<times> int" and default_port :: int
  assumes port_given: "Cut (host_of opts) (CHR '':'') = (h, p, True) \<Longrightarrow> ParseInt p = (n, None) \<Longrightarrow> peer opts = (h, n)"
    and port_absent: "Cut (host_of opts) (CHR '':'') = (h, p, False) \<Longrightarrow> peer opts = (host_of opts, default_port)"
    and port_invalid: "Cut (host_of opts) (CHR '':'') = (h, p, True) \<Longrightarrow> ParseInt p = (n, Some e) \<Longrightarrow>
      peer opts = (host_of opts, default_port)"
begin

lemma peer_of_address:
  "host_of opts = h @ '':'' @ Itoa n \<Longrightarrow> CHR '':'' \<notin> set h \<Longrightarrow> - (2 ^ 63) \<le> n \<Longrightarrow> n < 2 ^ 63 \<Longrightarrow> peer opts = (h, n)"
  using port_given [of opts h "Itoa n" n] ParseInt_Itoa [of n] by simp

lemma peer_of_host: "CHR '':'' \<notin> set (host_of opts) \<Longrightarrow> peer opts = (host_of opts, default_port)"
  using port_absent [of opts] by simp

lemma peer_cases:
  obtains (address) h p n where "host_of opts = h @ '':'' @ p" "ParseInt p = (n, None)" "peer opts = (h, n)"
  | (other) "peer opts = (host_of opts, default_port)"
proof (cases "Cut (host_of opts) (CHR '':'')")
  case (fields h p found)
  show thesis
  proof (cases found)
    case True
    then have cut: "Cut (host_of opts) (CHR '':'') = (h, p, True)" using fields by simp
    obtain n e where pn: "ParseInt p = (n, e)" by (cases "ParseInt p") blast
    show thesis
    proof (cases e)
      case None
      then show thesis using port_given [OF cut] pn Cut_found [OF cut] address by simp
    next
      case (Some x)
      then show thesis using port_invalid [OF cut, of n x] pn other by simp
    qed
  next
    case False
    then show thesis using port_absent [of opts h p] fields other by simp
  qed
qed

text \<open>The host is never lost: the peer's host is what is configured, or what stands before a valid port.\<close>

lemma peer_host: "HasPrefix (host_of opts) (fst (peer opts))"
proof (cases opts rule: peer_cases)
  case (address h p n)
  then show ?thesis by simp
next
  case other
  then show ?thesis by (simp add: HasPrefix_def)
qed

end

lemma ParseInt_empty [simp]: "ParseInt [] = (0, Some ErrSyntax)"
  by (simp add: ParseInt_def)

interpretation my_peer: tcp_peer my_Host MySQLOptions_GetPeer 3306
  by unfold_locales (auto simp: MySQLOptions_GetPeer_def split: if_splits)

interpretation ch_peer: tcp_peer ch_Host ClickhouseOptions_GetPeer 9000
  by unfold_locales (auto simp: ClickhouseOptions_GetPeer_def split: if_splits)

text \<open>The interface value: one of the three options with its methods.\<close>

datatype DBOptions = OptMySQL MySQLOptions | OptClickhouse ClickhouseOptions | OptSQLite SQLiteOptions

fun GetConnectionString :: "DBOptions \<Rightarrow> string" where
  "GetConnectionString (OptMySQL x) = MySQLOptions_GetConnectionString x"
| "GetConnectionString (OptClickhouse x) = ClickhouseOptions_GetConnectionString x"
| "GetConnectionString (OptSQLite x) = SQLiteOptions_GetConnectionString x"

fun GetPeer :: "DBOptions \<Rightarrow> string \<times> int" where
  "GetPeer (OptMySQL x) = MySQLOptions_GetPeer x"
| "GetPeer (OptClickhouse x) = ClickhouseOptions_GetPeer x"
| "GetPeer (OptSQLite x) = SQLiteOptions_GetPeer x"

fun GetDBName :: "DBOptions \<Rightarrow> string" where
  "GetDBName (OptMySQL x) = MySQLOptions_GetDBName x"
| "GetDBName (OptClickhouse x) = ClickhouseOptions_GetDBName x"
| "GetDBName (OptSQLite x) = SQLiteOptions_GetDBName x"

fun GetUsername :: "DBOptions \<Rightarrow> string" where
  "GetUsername (OptMySQL x) = MySQLOptions_GetUsername x"
| "GetUsername (OptClickhouse x) = ClickhouseOptions_GetUsername x"
| "GetUsername (OptSQLite x) = SQLiteOptions_GetUsername x"

fun GetType :: "DBOptions \<Rightarrow> string" where
  "GetType (OptMySQL x) = MySQLOptions_GetType x"
| "GetType (OptClickhouse x) = ClickhouseOptions_GetType x"
| "GetType (OptSQLite x) = SQLiteOptions_GetType x"

fun DBOptions_String :: "DBOptions \<Rightarrow> string" where
  "DBOptions_String (OptMySQL x) = MySQLOptions_String x"
| "DBOptions_String (OptClickhouse x) = ClickhouseOptions_String x"
| "DBOptions_String (OptSQLite x) = SQLiteOptions_String x"

text \<open>The same options with another password, for the statements.\<close>

fun with_password :: "SString \<Rightarrow> DBOptions \<Rightarrow> DBOptions" where
  "with_password pw (OptMySQL x) = OptMySQL (x\<lparr>my_Password := pw\<rparr>)"
| "with_password pw (OptClickhouse x) = OptClickhouse (x\<lparr>ch_Password := pw\<rparr>)"
| "with_password pw (OptSQLite x) = OptSQLite x"

named_theorems db_texts \<open>the methods of the options\<close>

declare MySQLOptions_GetConnectionString_def [db_texts] MySQLOptions_GetPeer_def [db_texts]
  MySQLOptions_GetDBName_def [db_texts] MySQLOptions_GetUsername_def [db_texts] MySQLOptions_GetType_def [db_texts]
  MySQLOptions_String_def [db_texts] ClickhouseOptions_GetConnectionString_def [db_texts]
  ClickhouseOptions_GetPeer_def [db_texts] ClickhouseOptions_GetDBName_def [db_texts]
  ClickhouseOptions_GetUsername_def [db_texts] ClickhouseOptions_GetType_def [db_texts]
  ClickhouseOptions_String_def [db_texts] SQLiteOptions_GetConnectionString_def [db_texts]
  SQLiteOptions_GetPeer_def [db_texts] SQLiteOptions_GetDBName_def [db_texts]
  SQLiteOptions_GetUsername_def [db_texts] SQLiteOptions_GetType_def [db_texts] SQLiteOptions_String_def [db_texts]

interpretation db: db_options GetConnectionString GetPeer GetDBName GetUsername GetType DBOptions_String with_password
proof
  fix pw opts
  show "GetConnectionString (with_password pw opts) = GetConnectionString opts" by (cases opts) (simp_all add: db_texts)
  show "GetPeer (with_password pw opts) = GetPeer opts"
    by (cases opts) (auto simp: db_texts split: prod.splits option.splits)
  show "GetDBName (with_password pw opts) = GetDBName opts" by (cases opts) (simp_all add: db_texts)
  show "GetUsername (with_password pw opts) = GetUsername opts" by (cases opts) (simp_all add: db_texts)
  show "GetType (with_password pw opts) = GetType opts" by (cases opts) (simp_all add: db_texts)
  show "DBOptions_String (with_password pw opts) = DBOptions_String opts" by (cases opts) (simp_all add: db_texts)
  show "HasPrefix (GetConnectionString opts) (GetType opts @ ''://'')"
    by (cases opts) (simp_all add: db_texts HasPrefix_def)
  show "HasPrefix (DBOptions_String opts) (GetType opts @ ''://'')"
    by (cases opts) (simp_all add: db_texts HasPrefix_def)
qed

section \<open>Properties\<close>

text \<open>The peer of a MySQL or ClickHouse server: an address made of a host and a port gives that host and
  that port, a host alone gives the default port, and the host is always a part of what is configured.\<close>

theorem db_peer:
  "(CHR '':'' \<notin> set h \<and> - (2 ^ 63) \<le> n \<and> n < 2 ^ 63 \<longrightarrow>
      GetPeer (OptMySQL (x\<lparr>my_Host := h @ '':'' @ Itoa n\<rparr>)) = (h, n) \<and>
      GetPeer (OptClickhouse (y\<lparr>ch_Host := h @ '':'' @ Itoa n\<rparr>)) = (h, n)) \<and>
   (CHR '':'' \<notin> set h \<longrightarrow>
      GetPeer (OptMySQL (x\<lparr>my_Host := h\<rparr>)) = (h, 3306) \<and> GetPeer (OptClickhouse (y\<lparr>ch_Host := h\<rparr>)) = (h, 9000)) \<and>
   HasPrefix (my_Host x) (fst (GetPeer (OptMySQL x))) \<and> HasPrefix (ch_Host y) (fst (GetPeer (OptClickhouse y)))"
  using my_peer.peer_of_address [of "x\<lparr>my_Host := h @ '':'' @ Itoa n\<rparr>" h n]
    ch_peer.peer_of_address [of "y\<lparr>ch_Host := h @ '':'' @ Itoa n\<rparr>" h n]
    my_peer.peer_of_host [of "x\<lparr>my_Host := h\<rparr>"] ch_peer.peer_of_host [of "y\<lparr>ch_Host := h\<rparr>"]
    my_peer.peer_host [of x] ch_peer.peer_host [of y] by simp

theorem db_peer_witness:
  "GetPeer (OptMySQL (NewMySQLOptions\<lparr>my_Host := ''db'' @ '':'' @ Itoa 3307\<rparr>)) = (''db'', 3307) \<and>
   GetPeer (OptClickhouse (NewClickhouseOptions\<lparr>ch_Host := ''db''\<rparr>)) = (''db'', 9000)"
  using db_peer [of "''db''" 3307 NewMySQLOptions NewClickhouseOptions] by simp

text \<open>The comparison of two MySQL options when both passwords can be read.\<close>

lemma MySQL_Equal_iff:
  assumes "SString_UnsafeString lib env (my_Password x) = Ret (p, None)"
    and "SString_UnsafeString lib env (my_Password y) = Ret (q, None)"
  shows "MySQLOptions_Equal lib env ds x y = Ret
    (my_Host x = my_Host y \<and> my_Username x = my_Username y \<and> p = q \<and> my_Schema x = my_Schema y \<and>
     my_MaxIdleConnections x = my_MaxIdleConnections y \<and> my_MaxOpenConnections x = my_MaxOpenConnections y \<and>
     durationEqual ds (my_MaxConnectionLifeTime x) (my_MaxConnectionLifeTime y) \<and>
     my_Charset x = my_Charset y \<and> my_Collation x = my_Collation y \<and> my_TablePrefix x = my_TablePrefix y \<and>
     durationEqual ds (my_SlowThreshold x) (my_SlowThreshold y))"
  using assms by (auto simp: MySQLOptions_Equal_def SString_Equal_def mysql_TLS_Equal_def split: option.splits)

text \<open>MySQLOptions.Equal does not look at the TLS settings or at compression: it compares the TLS
  settings of the receiver with themselves. So options that differ only there are equal, with TLS and
  without, even though the comparison of two TLS settings would tell them apart.\<close>

theorem mysql_equal_ignores_tls:
  assumes "SString_UnsafeString lib env (my_Password x) = Ret (p, None)"
  shows "MySQLOptions_Equal lib env ds x (x\<lparr>my_TLSConfig := t, my_EnableCompression := b\<rparr>) = Ret True \<and>
    (my_TLSConfig x = Some \<lparr>mt_options = Some c, mt_name = n\<rparr> \<longrightarrow> mysql_TLS_Equal (my_TLSConfig x) None = Ret False)"
proof -
  have refl: "durationEqual ds d d" for d by (cases d) (simp_all add: durationEqual_def)
  show ?thesis
    using MySQL_Equal_iff [of lib env x p "x\<lparr>my_TLSConfig := t, my_EnableCompression := b\<rparr>" p ds] assms
    by (simp add: refl mysql_TLS_Equal_def)
qed

theorem mysql_equal_ignores_tls_witness:
  "MySQLOptions_Equal rev_lib [] (\<lambda>_. []) (NewMySQLOptions\<lparr>my_TLSConfig := Some \<lparr>mt_options = Some zero_TLSOptions, mt_name = ''a''\<rparr>\<rparr>)
     ((NewMySQLOptions\<lparr>my_TLSConfig := Some \<lparr>mt_options = Some zero_TLSOptions, mt_name = ''a''\<rparr>\<rparr>)
        \<lparr>my_TLSConfig := None, my_EnableCompression := True\<rparr>) = Ret True \<and>
   mysql_TLS_Equal (Some \<lparr>mt_options = Some zero_TLSOptions, mt_name = ''a''\<rparr>) None = Ret False"
  using mysql_equal_ignores_tls [of rev_lib "[]"
      "NewMySQLOptions\<lparr>my_TLSConfig := Some \<lparr>mt_options = Some zero_TLSOptions, mt_name = ''a''\<rparr>\<rparr>" "[]" "\<lambda>_. []" True None
      zero_TLSOptions "''a''"]
  by (simp add: NewMySQLOptions_def SString_UnsafeString_def)

text \<open>Comparing an absent TLS setting with a present one dereferences nil, in either order when the present
  one is a name.\<close>

lemma tls_equal_nil_panics:
  "mysql_TLS_Equal None (Some y) = Panic nil_deref \<and>
   mysql_TLS_Equal (Some \<lparr>mt_options = None, mt_name = n\<rparr>) None = Panic nil_deref \<and>
   mysql_TLS_Equal (Some \<lparr>mt_options = None, mt_name = n\<rparr>) (Some \<lparr>mt_options = None, mt_name = m\<rparr>) = Ret True"
  by (simp add: mysql_TLS_Equal_def)

section \<open>The DSN of ClickHouse\<close>

text \<open>A character is read back from its escaped form.\<close>

lemma char_nibbles: "(of_char c :: nat) div 16 < 16" "(of_char c :: nat) mod 16 < 16"
  using nat_of_char_less_256 [of c] by (simp_all add: less_mult_imp_div_less)

lemma upperhex_unhex: "n < 16 \<Longrightarrow> unhex (upperhex n) = n"
  by (simp add: unhex_def upperhex_def)

lemma percent_escaped: "shouldEscape (CHR ''%'') mode"
  by (simp add: shouldEscape_def is_alnum_def host_chars_def)

lemma unescape_plain: "c \<noteq> CHR ''%'' \<Longrightarrow> unescape (c # s) = c # unescape s"
  by (cases s rule: unescape.cases) simp_all

lemma unescape_escape_char:
  assumes "mode \<noteq> encodeQueryComponent"
  shows "unescape (escape_char mode c @ s) = c # unescape s"
proof (cases "shouldEscape c mode")
  case True
  note n = char_nibbles [of c]
  then show ?thesis using assms True by (simp add: escape_char_def upperhex_unhex)
next
  case False
  then have "c \<noteq> CHR ''%''" using percent_escaped by blast
  then show ?thesis using False assms by (simp add: escape_char_def unescape_plain)
qed

lemma unescape_escape: "mode \<noteq> encodeQueryComponent \<Longrightarrow> unescape (escape s mode) = s"
  by (induction s) (simp_all add: escape_def unescape_escape_char)

lemma upperhex_alnum: "n < 16 \<Longrightarrow> is_alnum (upperhex n)"
  by (auto simp: is_alnum_def upperhex_def)

text \<open>The separators of a URL do not occur in the escaped user and password.\<close>

lemma escape_user_no_sep:
  assumes "d \<in> set ''@/?:''"
  shows "d \<notin> set (escape s encodeUserPassword)"
proof
  assume "d \<in> set (escape s encodeUserPassword)"
  then obtain c where c: "d \<in> set (escape_char encodeUserPassword c)" by (auto simp: escape_def)
  have na: "\<not> is_alnum d" "d \<noteq> CHR ''%''" "shouldEscape d encodeUserPassword"
    using assms by (auto simp: is_alnum_def shouldEscape_def)
  note n = char_nibbles [of c]
  then show False using c na upperhex_alnum by (auto simp: escape_char_def split: if_splits)
qed

text \<open>The user, password and path that a reader finds in a DSN: what stands between the scheme and the first
  at sign, cut at the colon, and unescaped.\<close>

definition dsn_user :: "string \<Rightarrow> string \<times> string" where
  "dsn_user dsn =
     (case Cut (TrimPrefix dsn ''clickhouse://'') (CHR ''@'') of (ui, _, _) \<Rightarrow>
        case Cut ui (CHR '':'') of (u, p, _) \<Rightarrow> (unescape u, unescape p))"

lemma dsn_user_URL:
  "dsn_user (URL_String \<lparr>u_Scheme = ''clickhouse'', u_User = Some (u, p), u_Host = h, u_Path = CHR ''/'' # path, u_RawQuery = q\<rparr>) =
     (u, p)"
proof -
  let ?ui = "escape u encodeUserPassword @ CHR '':'' # escape p encodeUserPassword"
  let ?url = "\<lparr>u_Scheme = ''clickhouse'', u_User = Some (u, p), u_Host = h, u_Path = CHR ''/'' # path, u_RawQuery = q\<rparr>"
  have "\<exists>rest. URL_String ?url = ''clickhouse://'' @ ?ui @ CHR ''@'' # rest"
    by (simp add: URL_String_def Userinfo_String_def)
  then obtain rest where r: "URL_String ?url = ''clickhouse://'' @ ?ui @ CHR ''@'' # rest" by blast
  have 1: "Cut (?ui @ CHR ''@'' # rest) (CHR ''@'') = (?ui, rest, True)"
    by (rule Cut_append) (use escape_user_no_sep [of "CHR ''@''"] in auto)
  have 2: "Cut ?ui (CHR '':'') = (escape u encodeUserPassword, escape p encodeUserPassword, True)"
    by (rule Cut_append) (use escape_user_no_sep [of "CHR '':''"] in auto)
  show ?thesis
    unfolding r dsn_user_def TrimPrefix_append 1 by (simp add: 2 unescape_escape)
qed

text \<open>GetDSN of ClickHouse options: without timeouts the DSN holds the user and the plaintext of the
  password, whatever bytes they are made of; with any of the three timeouts set, it panics, because the
  values are a nil map.\<close>

theorem clickhouse_dsn:
  assumes "SString_UnsafeString lib env (ch_Password x) = Ret (pw, None)"
  shows "(ch_DialTimeout x = None \<and> ch_ReadTimeout x = None \<and> ch_MaxExecutionTime x = None \<longrightarrow>
      (\<exists>dsn. GetDSN lib env ds x = Ret (Inr dsn) \<and> dsn_user dsn = (ch_Username x, pw))) \<and>
    (\<not> (ch_DialTimeout x = None \<and> ch_ReadTimeout x = None \<and> ch_MaxExecutionTime x = None) \<longrightarrow>
      GetDSN lib env ds x = Panic ''assignment to entry in nil map'')"
  using assms by (auto simp: GetDSN_def set_timeout_def Values_Set_def dsn_user_URL split: option.splits)

theorem clickhouse_dsn_witness:
  "(\<exists>dsn. GetDSN rev_lib [] (\<lambda>_. ''5s'') (NewClickhouseOptions\<lparr>ch_Password := \<lparr>ss_value = ''p@ss:w/d'', ss_secret = []\<rparr>\<rparr>) = Ret (Inr dsn) \<and>
     dsn_user dsn = (''idas'', ''p@ss:w/d'')) \<and>
   GetDSN rev_lib [] (\<lambda>_. ''5s'') (NewClickhouseOptions\<lparr>ch_ReadTimeout := Some 5\<rparr>) = Panic ''assignment to entry in nil map''"
  using clickhouse_dsn [of rev_lib "[]" "NewClickhouseOptions\<lparr>ch_Password := \<lparr>ss_value = ''p@ss:w/d'', ss_secret = []\<rparr>\<rparr>" "''p@ss:w/d''" "\<lambda>_. ''5s''"]
    clickhouse_dsn [of rev_lib "[]" "NewClickhouseOptions\<lparr>ch_ReadTimeout := Some 5\<rparr>" "[]" "\<lambda>_. ''5s''"]
  by (simp add: NewClickhouseOptions_def SString_UnsafeString_def HasPrefix_def ciphertextPrefix_def)

end
