(* ===== verification/Gorm.thy ===== *)
theory Gorm
  imports DbOptions Signals LogConfig
begin

text \<open>
  The clients of package \<open>gorm\<close> (\<open>clients/gorm/\<close>): opening a connection with the creation of a missing
  schema, the clients with their shutdown hooks and metrics, sessions, and the logger of statements. The
  database, \<open>database/sql\<close> and the drivers are the record \<open>gorm_lib\<close> on a world \<open>'w\<close>; every call of them is
  recorded in the order it is made. A connection, a client and a shutdown hook are numbers.
\<close>

section \<open>The state\<close>

record mysql_Config =
  mc_User :: string
  mc_Passwd :: string
  mc_Net :: string
  mc_Addr :: string
  mc_DBName :: string
  mc_Params :: "(string, string) gomap"
  mc_Collation :: string
  mc_AllowNativePasswords :: bool
  mc_CheckConnLiveness :: bool
  mc_ParseTime :: bool
  mc_TLSConfig :: string
  mc_compress :: bool

datatype dsn = MySQLDSN mysql_Config | ClickhouseDSN string string | SQLiteDSN string

record gorm_Config =
  gc_TablePrefix :: string
  gc_SingularTable :: bool
  gc_slowThreshold :: duration
  gc_DisableForeignKeyConstraintWhenMigrating :: bool

text \<open>The error of \<open>gorm.Open\<close>: an error of the server with its number, or another.\<close>

datatype open_error = ServerException int gerror | OtherError gerror

record 'w gorm_lib =
  gl_Open :: "dsn \<Rightarrow> gorm_Config \<Rightarrow> 'w \<Rightarrow> 'w \<times> (open_error + nat)"
  gl_Exec :: "nat \<Rightarrow> string \<Rightarrow> 'w \<Rightarrow> 'w \<times> gerror option"
  gl_DB :: "nat \<Rightarrow> 'w \<Rightarrow> gerror option"
  gl_Close :: "nat \<Rightarrow> 'w \<Rightarrow> 'w \<times> gerror option"
  gl_Stats :: "nat \<Rightarrow> 'w \<Rightarrow> string \<Rightarrow> int"

datatype db_call =
    OpenCall dsn gorm_Config
  | ExecCall nat string
  | CloseCall nat
  | PoolCall nat int duration int

fun is_open :: "db_call \<Rightarrow> bool" where
  "is_open (OpenCall d g) = True"
| "is_open _ = False"

type_synonym attributes = "(string \<times> string) list \<times> int"

record Client =
  cl_name :: string
  cl_database :: nat
  cl_slowThreshold :: duration
  cl_tracer :: "attributes option"
  cl_options :: DBOptions
  cl_statsCollector :: string

record 'w gorm_state =
  gs_world :: 'w
  gs_calls :: "db_call list"
  gs_stop :: "Handler option"
  gs_closes :: "(nat, nat) gomap"
  gs_clients :: "Client list"
  gs_instances :: "(string, nat) gomap"

definition do_open :: "'w gorm_lib \<Rightarrow> dsn \<Rightarrow> gorm_Config \<Rightarrow> 'w gorm_state \<Rightarrow> 'w gorm_state \<times> (open_error + nat)" where
  "do_open lib d c s =
     (case gl_Open lib d c (gs_world s) of (w, r) \<Rightarrow>
        (s\<lparr>gs_world := w, gs_calls := gs_calls s @ [OpenCall d c]\<rparr>, r))"

definition do_exec :: "'w gorm_lib \<Rightarrow> nat \<Rightarrow> string \<Rightarrow> 'w gorm_state \<Rightarrow> 'w gorm_state \<times> gerror option" where
  "do_exec lib db sql s =
     (case gl_Exec lib db sql (gs_world s) of (w, e) \<Rightarrow>
        (s\<lparr>gs_world := w, gs_calls := gs_calls s @ [ExecCall db sql]\<rparr>, e))"

definition do_close :: "'w gorm_lib \<Rightarrow> nat \<Rightarrow> 'w gorm_state \<Rightarrow> 'w gorm_state \<times> gerror option" where
  "do_close lib db s =
     (case gl_Close lib db (gs_world s) of (w, e) \<Rightarrow>
        (s\<lparr>gs_world := w, gs_calls := gs_calls s @ [CloseCall db]\<rparr>, e))"

text \<open>The calls \<open>new\<close> were made from \<open>s\<close> to \<open>s'\<close>, and nothing but the world has changed otherwise.\<close>

definition extends :: "'w gorm_state \<Rightarrow> 'w gorm_state \<Rightarrow> db_call list \<Rightarrow> bool" where
  "extends s s' new \<longleftrightarrow> s' = s\<lparr>gs_world := gs_world s', gs_calls := gs_calls s @ new\<rparr>"

lemma extends_refl [simp]: "extends s s []"
  by (simp add: extends_def)

lemma extends_trans: "extends s s1 xs \<Longrightarrow> extends s1 s2 ys \<Longrightarrow> extends s s2 (xs @ ys)"
  by (simp add: extends_def) (metis gorm_state.surjective gorm_state.update_convs(1,2) append.assoc gorm_state.ext_inject)

lemma extends_frame:
  assumes "extends s s' new"
  shows "gs_stop s' = gs_stop s" "gs_closes s' = gs_closes s" "gs_clients s' = gs_clients s"
    "gs_instances s' = gs_instances s" "gs_calls s' = gs_calls s @ new"
  using assms unfolding extends_def by (metis gorm_state.select_convs gorm_state.surjective gorm_state.update_convs)+

lemma extends_open: "extends s (fst (do_open lib d c s)) [OpenCall d c]"
  by (simp add: do_open_def extends_def split: prod.splits)

lemma extends_exec: "do_exec lib db sql s = (s', e) \<Longrightarrow> extends s s' [ExecCall db sql]"
  by (auto simp: do_exec_def extends_def split: prod.splits)

lemma extends_close: "extends s (fst (do_close lib db s)) [CloseCall db]"
  by (simp add: do_close_def extends_def split: prod.splits)

section \<open>Opening a connection\<close>

lemma go_bind_cong [fundef_cong]:
  "m = m' \<Longrightarrow> (\<And>x. m' = Ret x \<Longrightarrow> f x = f' x) \<Longrightarrow> go_bind m f = go_bind m' f'"
  by (cases m') simp_all

text \<open>The defaults that \<open>openMysqlConn\<close> writes into the options of its caller.\<close>

definition mysql_defaults :: "MySQLOptions \<Rightarrow> MySQLOptions" where
  "mysql_defaults opts =
     opts\<lparr>my_Charset := (if my_Charset opts = [] then ''utf8mb4'' else my_Charset opts),
          my_Collation := (if my_Collation opts = [] then ''utf8mb4_general_ci'' else my_Collation opts),
          my_MaxOpenConnections := (if my_MaxOpenConnections opts = 0 then 100 else my_MaxOpenConnections opts)\<rparr>"

definition mysql_config :: "MySQLOptions \<Rightarrow> string \<Rightarrow> mysql_Config" where
  "mysql_config opts passwd =
     \<lparr>mc_User = my_Username opts, mc_Passwd = passwd, mc_Net = ''tcp'', mc_Addr = my_Host opts, mc_DBName = my_Schema opts,
      mc_Params = [(''charset'', my_Charset opts)], mc_Collation = my_Collation opts, mc_AllowNativePasswords = True,
      mc_CheckConnLiveness = True, mc_ParseTime = True,
      mc_TLSConfig = (case my_TLSConfig opts of None \<Rightarrow> [] | Some t \<Rightarrow> mt_name t),
      mc_compress = my_EnableCompression opts\<rparr>"

definition gorm_config :: "string \<Rightarrow> duration \<Rightarrow> gorm_Config" where
  "gorm_config pfx slow = \<lparr>gc_TablePrefix = pfx, gc_SingularTable = (pfx \<noteq> []), gc_slowThreshold = slow,
     gc_DisableForeignKeyConstraintWhenMigrating = True\<rparr>"

definition create_schema_sql :: "MySQLOptions \<Rightarrow> string" where
  "create_schema_sql opts = ''CREATE SCHEMA `'' @ my_Schema opts @ ''` DEFAULT CHARACTER SET '' @ my_Charset opts @
     '' COLLATE '' @ my_Collation opts"

definition open_err :: "open_error \<Rightarrow> db_error" where
  "open_err e = (case e of ServerException n m \<Rightarrow> ServerErr n m | OtherError m \<Rightarrow> DriverErr m)"

fun unknown_database :: "open_error \<Rightarrow> bool" where
  "unknown_database (ServerException n m) = (n = 1049)"
| "unknown_database (OtherError m) = False"

text \<open>
  The temporary connection is closed by a deferred call, after the connection has been opened again, if its
  handle could be obtained. The options that come back carry the defaults.
\<close>

function openMysqlConn ::
    "crypto_lib \<Rightarrow> string \<Rightarrow> 'w gorm_lib \<Rightarrow> duration \<Rightarrow> MySQLOptions \<Rightarrow> bool \<Rightarrow> 'w gorm_state \<Rightarrow>
     ('w gorm_state \<times> MySQLOptions \<times> (db_error + nat)) go" where
  "openMysqlConn lib env glib slow opts0 autoCreateSchema s =
     go_bind (SString_UnsafeString lib env (my_Password opts0)) (\<lambda>(passwd, err).
       case err of
         Some e \<Rightarrow> Ret (s, opts0, Inl (PasswordErr e))
       | None \<Rightarrow>
           let opts = mysql_defaults opts0 in
           (case do_open glib (MySQLDSN (mysql_config opts passwd)) (gorm_config (my_TablePrefix opts) slow) s of
              (s1, Inr db) \<Rightarrow> Ret (s1, opts, Inr db)
            | (s1, Inl e) \<Rightarrow>
                if autoCreateSchema \<and> unknown_database e then
                  go_bind (openMysqlConn lib env glib slow (opts\<lparr>my_Schema := ''mysql''\<rparr>) False s1) (\<lambda>(s2, _, r).
                    case r of
                      Inl e2 \<Rightarrow> Ret (s2, opts, Inl e2)
                    | Inr db \<Rightarrow>
                        (case do_exec glib db (create_schema_sql opts) s2 of
                           (s3, Some e3) \<Rightarrow> Ret (s3, opts, Inl (ExecErr e3))
                         | (s3, None) \<Rightarrow>
                             go_bind (openMysqlConn lib env glib slow opts False s3) (\<lambda>(s4, opts4, r4).
                               Ret ((if gl_DB glib db (gs_world s3) = None then fst (do_close glib db s4) else s4),
                                    opts4, r4))))
                else Ret (s1, opts, Inl (open_err e))))"
  by pat_completeness auto

termination
  by (relation "measure (\<lambda>(lib, env, glib, slow, opts, autoCreateSchema, s). if autoCreateSchema then 1 else 0)") auto

declare openMysqlConn.simps [simp del]

function openClickhouseConn ::
    "crypto_lib \<Rightarrow> string \<Rightarrow> (duration \<Rightarrow> string) \<Rightarrow> 'w gorm_lib \<Rightarrow> duration \<Rightarrow> ClickhouseOptions \<Rightarrow> bool \<Rightarrow> 'w gorm_state \<Rightarrow>
     ('w gorm_state \<times> (db_error + nat)) go" where
  "openClickhouseConn lib env ds glib slow opts autoCreateSchema s =
     go_bind (GetDSN lib env ds opts) (\<lambda>dsn.
       case dsn of
         Inl e \<Rightarrow> Ret (s, Inl e)
       | Inr dsn \<Rightarrow>
           (case do_open glib (ClickhouseDSN dsn ''LZ4'') (gorm_config (ch_TablePrefix opts) slow) s of
              (s1, Inr db) \<Rightarrow> Ret (s1, Inr db)
            | (s1, Inl e) \<Rightarrow>
                if autoCreateSchema \<and> unknown_database e then
                  go_bind (openClickhouseConn lib env ds glib slow (opts\<lparr>ch_Schema := ''clickhouse''\<rparr>) False s1) (\<lambda>(s2, r).
                    case r of
                      Inl e2 \<Rightarrow> Ret (s2, Inl e2)
                    | Inr db \<Rightarrow>
                        (case do_exec glib db (''CREATE DATABASE `'' @ ch_Schema opts @ ''`'') s2 of
                           (s3, Some e3) \<Rightarrow> Ret (s3, Inl (ExecErr e3))
                         | (s3, None) \<Rightarrow>
                             go_bind (openClickhouseConn lib env ds glib slow opts False s3) (\<lambda>(s4, r4).
                               Ret ((if gl_DB glib db (gs_world s3) = None then fst (do_close glib db s4) else s4), r4))))
                else Ret (s1, Inl (open_err e))))"
  by pat_completeness auto

termination
  by (relation "measure (\<lambda>(lib, env, ds, glib, slow, opts, autoCreateSchema, s). if autoCreateSchema then 1 else 0)") auto

declare openClickhouseConn.simps [simp del]

section \<open>The collector\<close>

text \<open>\<open>NewV4\<close> is the text of a random identifier; \<open>uuid.Must\<close> panics on its error.\<close>

definition Register :: "string result \<Rightarrow> nat \<Rightarrow> 'w gorm_state \<Rightarrow> ('w gorm_state \<times> string) go" where
  "Register NewV4 db s =
     (case NewV4 of
        Inl err \<Rightarrow> Panic err
      | Inr i \<Rightarrow> Ret (s\<lparr>gs_instances := AList.update i db (gs_instances s)\<rparr>, i))"

definition Unregister :: "string \<Rightarrow> 'w gorm_state \<Rightarrow> 'w gorm_state" where
  "Unregister i s = s\<lparr>gs_instances := AList.delete i (gs_instances s)\<rparr>"

text \<open>The nine gauges, in the order they are set and sent.\<close>

definition gauges :: "string list" where
  "gauges = map (\<lambda>n. ''gorm_dbstats_'' @ n)
     [''max_open_connections'', ''open_connections'', ''in_use'', ''idle'', ''wait_count'', ''wait_duration'',
      ''max_idle_closed'', ''max_lifetime_closed'', ''max_idletime_closed'']"

type_synonym labels = "string \<times> string \<times> string \<times> string"

definition metric_labels :: "Client \<Rightarrow> labels" where
  "metric_labels c =
     (let connType = GetType (cl_options c); dbName = GetDBName (cl_options c) in
      case GetPeer (cl_options c) of (peer, port) \<Rightarrow>
        let host = (if connType = ''sqlite'' then peer else peer @ '':'' @ Itoa port) in
        (connType, cl_name c, host, dbName))"

text \<open>
  \<open>Collect\<close> visits the instances in the order \<open>iter\<close>. A metric that is sent is the gauge itself, whose value is
  the last one set: \<open>vecs\<close> holds the values, the list what is sent.
\<close>

fun Collect_loop ::
    "'w gorm_lib \<Rightarrow> 'w gorm_state \<Rightarrow> (string \<times> nat) list \<Rightarrow> (string \<times> labels \<Rightarrow> int) \<Rightarrow> (string \<times> labels) list \<Rightarrow>
     (string \<times> labels \<Rightarrow> int) \<times> (string \<times> labels) list" where
  "Collect_loop lib s [] vecs sent = (vecs, sent)"
| "Collect_loop lib s ((i, a) # rest) vecs sent =
     (let c = gs_clients s ! a in
      if gl_DB lib (cl_database c) (gs_world s) \<noteq> None then Collect_loop lib s rest vecs sent
      else
        let stats = gl_Stats lib (cl_database c) (gs_world s); ls = metric_labels c in
        Collect_loop lib s rest (foldl (\<lambda>v g. v((g, ls) := stats g)) vecs gauges) (sent @ map (\<lambda>g. (g, ls)) gauges))"

definition Collect ::
    "((string \<times> nat) list \<Rightarrow> (string \<times> nat) list) \<Rightarrow> 'w gorm_lib \<Rightarrow> 'w gorm_state \<Rightarrow> (string \<times> labels \<Rightarrow> int) \<Rightarrow>
     (string \<times> labels \<Rightarrow> int) \<times> (string \<times> labels) list" where
  "Collect iter lib s vecs = Collect_loop lib s (iter (gs_instances s)) vecs []"

section \<open>The clients\<close>

text \<open>
  The common end of the three constructors: the hook with the closing of the connection, then the client,
  which is registered before it gets the identifier.
\<close>

definition add_hook :: "nat \<Rightarrow> nat \<Rightarrow> 'w gorm_state \<Rightarrow> 'w gorm_state go" where
  "add_hook hook db s =
     go_bind (PreStop (SetupSignalHandler (gs_stop s)) LevelDB hook) (\<lambda>h.
       Ret (s\<lparr>gs_stop := Some h, gs_closes := AList.update hook db (gs_closes s)\<rparr>))"

definition add_client :: "string result \<Rightarrow> Client \<Rightarrow> 'w gorm_state \<Rightarrow> ('w gorm_state \<times> nat) go" where
  "add_client NewV4 clt s =
     (let a = length (gs_clients s); s1 = s\<lparr>gs_clients := gs_clients s @ [clt]\<rparr> in
      go_bind (Register NewV4 a s1) (\<lambda>(s2, i).
        Ret (s2\<lparr>gs_clients := (gs_clients s2)[a := clt\<lparr>cl_statsCollector := i\<rparr>]\<rparr>, a)))"

text \<open>The function that a hook runs.\<close>

definition run_hook :: "'w gorm_lib \<Rightarrow> nat \<Rightarrow> 'w gorm_state \<Rightarrow> 'w gorm_state" where
  "run_hook glib hook s =
     (case map_of (gs_closes s) hook of
        None \<Rightarrow> s
      | Some db \<Rightarrow> if gl_DB glib db (gs_world s) = None then fst (do_close glib db s) else s)"

definition set_pool :: "nat \<Rightarrow> int32 \<Rightarrow> duration \<Rightarrow> int32 \<Rightarrow> 'w gorm_state \<Rightarrow> 'w gorm_state" where
  "set_pool db idle life opens s = s\<lparr>gs_calls := gs_calls s @ [PoolCall db (sint idle) life (sint opens)]\<rparr>"

definition NewMySQLClient ::
    "crypto_lib \<Rightarrow> string \<Rightarrow> 'w gorm_lib \<Rightarrow> nat \<Rightarrow> string result \<Rightarrow> string \<Rightarrow> MySQLOptions \<Rightarrow> 'w gorm_state \<Rightarrow>
     ('w gorm_state \<times> (db_error + nat)) go" where
  "NewMySQLClient lib env glib hook NewV4 name options0 s =
     (let slow = (case my_SlowThreshold options0 of None \<Rightarrow> 0 | Some d \<Rightarrow> d) in
      go_bind (openMysqlConn lib env glib slow options0 True s) (\<lambda>(s1, options, r).
        case r of
          Inl e \<Rightarrow> Ret (s1, Inl e)
        | Inr db \<Rightarrow>
            (case gl_DB glib db (gs_world s1) of
               Some e \<Rightarrow> Ret (s1, Inl (HandleErr e))
             | None \<Rightarrow>
                 go_bind (add_hook hook db (set_pool db (my_MaxIdleConnections options)
                     (MySQLOptions_GetStdMaxConnectionLifeTime (Some options)) (my_MaxOpenConnections options) s1)) (\<lambda>s2.
                 go_bind (add_client NewV4 \<lparr>cl_name = name, cl_database = db, cl_slowThreshold = slow, cl_tracer = None,
                     cl_options = OptMySQL options, cl_statsCollector = []\<rparr> s2) (\<lambda>(s3, a).
                   Ret (s3, Inr a))))))"

definition NewClickhouseClient ::
    "crypto_lib \<Rightarrow> string \<Rightarrow> (duration \<Rightarrow> string) \<Rightarrow> 'w gorm_lib \<Rightarrow> nat \<Rightarrow> string result \<Rightarrow> string \<Rightarrow> ClickhouseOptions \<Rightarrow>
     'w gorm_state \<Rightarrow> ('w gorm_state \<times> (db_error + nat)) go" where
  "NewClickhouseClient lib env ds glib hook NewV4 name options s =
     (let slow = (case ch_SlowThreshold options of None \<Rightarrow> 0 | Some d \<Rightarrow> d) in
      go_bind (openClickhouseConn lib env ds glib slow options True s) (\<lambda>(s1, r).
        case r of
          Inl e \<Rightarrow> Ret (s1, Inl e)
        | Inr db \<Rightarrow>
            (case gl_DB glib db (gs_world s1) of
               Some e \<Rightarrow> Ret (s1, Inl (HandleErr e))
             | None \<Rightarrow>
                 go_bind (add_hook hook db (set_pool db (ch_MaxIdleConnections options)
                     (ClickhouseOptions_GetStdMaxConnectionLifeTime (Some options)) (ch_MaxOpenConnections options) s1)) (\<lambda>s2.
                 go_bind (add_client NewV4 \<lparr>cl_name = name, cl_database = db, cl_slowThreshold = slow, cl_tracer = None,
                     cl_options = OptClickhouse options, cl_statsCollector = []\<rparr> s2) (\<lambda>(s3, a).
                   Ret (s3, Inr a))))))"

text \<open>The options are a pointer, read before anything else. \<open>DurationFromProto\<close> is an argument.\<close>

definition NewGormSQLiteClient ::
    "(int64 \<times> int32 \<Rightarrow> duration \<times> gerror option) \<Rightarrow> (open_error \<Rightarrow> gerror) \<Rightarrow> 'w gorm_lib \<Rightarrow> nat \<Rightarrow> string result \<Rightarrow>
     string \<Rightarrow> SQLiteOptions option \<Rightarrow> 'w gorm_state \<Rightarrow> ('w gorm_state \<times> (db_error + nat)) go" where
  "NewGormSQLiteClient DurationFromProto error_text glib hook NewV4 name options0 s =
     (case options0 of
        None \<Rightarrow> Panic nil_deref
      | Some options \<Rightarrow>
          (case (case sq_SlowThreshold options of None \<Rightarrow> (0, None) | Some d \<Rightarrow> DurationFromProto d) of
             (slow, Some err) \<Rightarrow> Ret (s, Inl (DurationErr err))
           | (slow, None) \<Rightarrow>
               (case do_open glib (SQLiteDSN (sq_Path options)) (gorm_config ''t_'' slow) s of
                  (s1, Inl e) \<Rightarrow> Ret (s1, Inl (SqliteErr (sq_Path options) (error_text e)))
                | (s1, Inr db) \<Rightarrow>
                    go_bind (add_hook hook db s1) (\<lambda>s2.
                    go_bind (add_client NewV4 \<lparr>cl_name = name, cl_database = db, cl_slowThreshold = slow, cl_tracer = None,
                        cl_options = OptSQLite options, cl_statsCollector = []\<rparr> s2) (\<lambda>(s3, a).
                      Ret (s3, Inr a))))))"

text \<open>The wrappers that keep their options: a client is nil or a number.\<close>

record 'o wrapped_client =
  wc_Client :: "nat option"
  wc_options :: "'o option"

definition NewSQLiteClient ::
    "(int64 \<times> int32 \<Rightarrow> duration \<times> gerror option) \<Rightarrow> (open_error \<Rightarrow> gerror) \<Rightarrow> 'w gorm_lib \<Rightarrow> nat \<Rightarrow> string result \<Rightarrow>
     string \<Rightarrow> SQLiteOptions option \<Rightarrow> 'w gorm_state \<Rightarrow> ('w gorm_state \<times> (db_error + SQLiteOptions wrapped_client)) go" where
  "NewSQLiteClient DurationFromProto error_text glib hook NewV4 name options s =
     go_bind (NewGormSQLiteClient DurationFromProto error_text glib hook NewV4 name options s) (\<lambda>(s1, r).
       Ret (s1, case r of Inl e \<Rightarrow> Inl e | Inr a \<Rightarrow> Inr \<lparr>wc_Client = Some a, wc_options = options\<rparr>))"

definition wrapped_Options :: "'o wrapped_client \<Rightarrow> 'o go" where
  "wrapped_Options c = (case wc_options c of None \<Rightarrow> Panic nil_deref | Some opts \<Rightarrow> Ret opts)"

definition wrapped_SetOptions :: "'o option \<Rightarrow> 'o wrapped_client \<Rightarrow> 'o wrapped_client" where
  "wrapped_SetOptions opts c = c\<lparr>wc_options := opts\<rparr>"

definition wrapped_MarshalJSON :: "('o option \<Rightarrow> string result) \<Rightarrow> 'o wrapped_client \<Rightarrow> string result" where
  "wrapped_MarshalJSON json_Marshal c = json_Marshal (wc_options c)"

definition ClickhouseClient_Options :: "ClickhouseOptions wrapped_client \<Rightarrow> ClickhouseOptions go" where
  "ClickhouseClient_Options c = (case wc_options c of None \<Rightarrow> Panic nil_deref | Some opts \<Rightarrow> Ret opts)"

definition ClickhouseClient_SetOptions ::
    "ClickhouseOptions option \<Rightarrow> ClickhouseOptions wrapped_client \<Rightarrow> ClickhouseOptions wrapped_client" where
  "ClickhouseClient_SetOptions opts c = c\<lparr>wc_options := opts\<rparr>"

definition ClickhouseClient_MarshalJSON ::
    "(ClickhouseOptions option \<Rightarrow> string result) \<Rightarrow> ClickhouseOptions wrapped_client \<Rightarrow> string result" where
  "ClickhouseClient_MarshalJSON json_Marshal c = json_Marshal (wc_options c)"

definition SQLiteClient_MarshalJSON ::
    "(SQLiteOptions option \<Rightarrow> string result) \<Rightarrow> SQLiteOptions wrapped_client \<Rightarrow> string result" where
  "SQLiteClient_MarshalJSON json_Marshal c = json_Marshal (wc_options c)"

text \<open>
  \<open>UnmarshalJSON\<close> of the three wrappers: decode over the options, or over the defaults, then connect with
  the empty name. A client that cannot be made becomes nil.
\<close>

definition unmarshal_client ::
    "(string \<Rightarrow> 'o \<Rightarrow> 'o \<times> gerror option) \<Rightarrow> 'o \<Rightarrow> ('o \<Rightarrow> 'w gorm_state \<Rightarrow> ('w gorm_state \<times> (db_error + nat)) go) \<Rightarrow>
     string \<Rightarrow> 'o wrapped_client \<Rightarrow> 'w gorm_state \<Rightarrow> ('w gorm_state \<times> 'o wrapped_client \<times> db_error option) go" where
  "unmarshal_client json_object defaults connect data c s =
     (case json_object data (case wc_options c of None \<Rightarrow> defaults | Some opts \<Rightarrow> opts) of
        (opts, Some err) \<Rightarrow> Ret (s, c\<lparr>wc_options := Some opts\<rparr>, Some (JsonErr err))
      | (opts, None) \<Rightarrow>
          go_bind (connect opts s) (\<lambda>(s1, r).
            case r of
              Inl e \<Rightarrow> Ret (s1, \<lparr>wc_Client = None, wc_options = Some opts\<rparr>, Some e)
            | Inr a \<Rightarrow> Ret (s1, \<lparr>wc_Client = Some a, wc_options = Some opts\<rparr>, None)))"

definition MySQLClient_UnmarshalJSON ::
    "crypto_lib \<Rightarrow> string \<Rightarrow> 'w gorm_lib \<Rightarrow> nat \<Rightarrow> string result \<Rightarrow> (string \<Rightarrow> MySQLOptions \<Rightarrow> MySQLOptions \<times> gerror option) \<Rightarrow>
     string \<Rightarrow> MySQLOptions wrapped_client \<Rightarrow> 'w gorm_state \<Rightarrow>
     ('w gorm_state \<times> MySQLOptions wrapped_client \<times> db_error option) go" where
  "MySQLClient_UnmarshalJSON lib env glib hook NewV4 json_object =
     unmarshal_client json_object NewMySQLOptions (NewMySQLClient lib env glib hook NewV4 [])"

definition ClickhouseClient_UnmarshalJSON ::
    "crypto_lib \<Rightarrow> string \<Rightarrow> (duration \<Rightarrow> string) \<Rightarrow> 'w gorm_lib \<Rightarrow> nat \<Rightarrow> string result \<Rightarrow>
     (string \<Rightarrow> ClickhouseOptions \<Rightarrow> ClickhouseOptions \<times> gerror option) \<Rightarrow>
     string \<Rightarrow> ClickhouseOptions wrapped_client \<Rightarrow> 'w gorm_state \<Rightarrow>
     ('w gorm_state \<times> ClickhouseOptions wrapped_client \<times> db_error option) go" where
  "ClickhouseClient_UnmarshalJSON lib env ds glib hook NewV4 json_object =
     unmarshal_client json_object NewClickhouseOptions (NewClickhouseClient lib env ds glib hook NewV4 [])"

definition SQLiteClient_UnmarshalJSON ::
    "(int64 \<times> int32 \<Rightarrow> duration \<times> gerror option) \<Rightarrow> (open_error \<Rightarrow> gerror) \<Rightarrow> 'w gorm_lib \<Rightarrow> nat \<Rightarrow> string result \<Rightarrow>
     (string \<Rightarrow> SQLiteOptions \<Rightarrow> SQLiteOptions \<times> gerror option) \<Rightarrow>
     string \<Rightarrow> SQLiteOptions wrapped_client \<Rightarrow> 'w gorm_state \<Rightarrow>
     ('w gorm_state \<times> SQLiteOptions wrapped_client \<times> db_error option) go" where
  "SQLiteClient_UnmarshalJSON DurationFromProto error_text glib hook NewV4 json_object =
     unmarshal_client json_object NewSQLiteOptions
       (\<lambda>opts. NewGormSQLiteClient DurationFromProto error_text glib hook NewV4 [] (Some opts))"

text \<open>\<open>Close\<close> of a SQLite client hides that of the client in it; a nil client is dereferenced.\<close>

definition SQLiteClient_Close :: "'w gorm_lib \<Rightarrow> 'o wrapped_client \<Rightarrow> 'w gorm_state \<Rightarrow> ('w gorm_state \<times> gerror option) go" where
  "SQLiteClient_Close glib c s =
     (case wc_Client c of
        None \<Rightarrow> Panic nil_deref
      | Some a \<Rightarrow>
          let db = cl_database (gs_clients s ! a) in
          (case gl_DB glib db (gs_world s) of None \<Rightarrow> Ret (do_close glib db s) | Some err \<Rightarrow> Ret (s, Some err)))"

section \<open>Operations of a client\<close>

definition Client_Name :: "Client \<Rightarrow> string" where
  "Client_Name c = cl_name c"

definition SetName :: "nat \<Rightarrow> string \<Rightarrow> 'w gorm_state \<Rightarrow> 'w gorm_state" where
  "SetName a name s = s\<lparr>gs_clients := (gs_clients s)[a := (gs_clients s ! a)\<lparr>cl_name := name\<rparr>]\<rparr>"

definition Client_Close :: "'w gorm_lib \<Rightarrow> nat option \<Rightarrow> 'w gorm_state \<Rightarrow> 'w gorm_state \<times> gerror option" where
  "Client_Close glib c s =
     (case c of
        None \<Rightarrow> (s, None)
      | Some a \<Rightarrow>
          let clt = gs_clients s ! a;
              s1 = (if length (cl_statsCollector clt) \<noteq> 0 then Unregister (cl_statsCollector clt) s else s) in
          (case gl_DB glib (cl_database clt) (gs_world s1) of
             None \<Rightarrow> do_close glib (cl_database clt) s1
           | Some err \<Rightarrow> (s1, None)))"

text \<open>What a session runs on: a connection, its logger, and whether the context is attached to it.\<close>

record session =
  se_database :: nat
  se_slowThreshold :: duration
  se_tracer :: attributes
  se_with_context :: bool

text \<open>The value that a context holds under the key \<open>gormConn{}\<close>: a connection, which may be nil, or another value.\<close>

datatype ctx_value = CtxDB "nat option" | CtxOther

definition WithConnContext :: "'k \<Rightarrow> ('k \<Rightarrow> ctx_value option) \<Rightarrow> nat option \<Rightarrow> ('k \<Rightarrow> ctx_value option)" where
  "WithConnContext gormConn ctx conn = ctx(gormConn := Some (CtxDB conn))"

definition session_attributes :: "DBOptions \<Rightarrow> attributes" where
  "session_attributes opts =
     (case GetPeer opts of (host, port) \<Rightarrow>
        ([(''db.connection_string'', GetConnectionString opts), (''db.name'', GetDBName opts),
          (''db.system'', GetType opts), (''db.user'', GetUsername opts), (''net.peer.name'', host)], port))"

definition Session ::
    "'k \<Rightarrow> ('k \<Rightarrow> ctx_value option) \<Rightarrow> nat \<Rightarrow> 'w gorm_state \<Rightarrow> ('w gorm_state \<times> session) go" where
  "Session gormConn ctx a s =
     (let c = gs_clients s ! a;
          tracer = (case cl_tracer c of None \<Rightarrow> session_attributes (cl_options c) | Some t \<Rightarrow> t);
          s1 = s\<lparr>gs_clients := (gs_clients s)[a := c\<lparr>cl_tracer := Some tracer\<rparr>]\<rparr>;
          own = Ret (s1, \<lparr>se_database = cl_database c, se_slowThreshold = cl_slowThreshold c, se_tracer = tracer,
                          se_with_context = True\<rparr>) in
      case ctx gormConn of
        Some (CtxDB (Some db)) \<Rightarrow>
          Ret (s1, \<lparr>se_database = db, se_slowThreshold = cl_slowThreshold c, se_tracer = tracer, se_with_context = False\<rparr>)
      | Some (CtxDB None) \<Rightarrow> Panic nil_deref
      | Some CtxOther \<Rightarrow> own
      | None \<Rightarrow> own)"

section \<open>The logger of statements\<close>

text \<open>The levels of \<open>gorm/logger\<close>; any other number leaves the logger unfiltered.\<close>

datatype gorm_level = Silent | GError | GWarn | GInfo | GLevel int

datatype log_filter = FilterNone | FilterAllow level_option

datatype span_status = CodeError string | CodeOk

datatype log_level = LDebug | LInfo | LWarn | LError

text \<open>A logger is the filters put on the logger of the context, the last one first.\<close>

record logContext =
  lc_filters :: "log_filter list"
  lc_slowThreshold :: duration
  lc_tracer :: "attributes option"

definition NewLogAdapter :: "log_filter list \<Rightarrow> duration \<Rightarrow> attributes option \<Rightarrow> logContext" where
  "NewLogAdapter l slow tracer = \<lparr>lc_filters = l, lc_slowThreshold = slow, lc_tracer = tracer\<rparr>"

definition LogMode :: "logContext \<Rightarrow> gorm_level \<Rightarrow> logContext" where
  "LogMode l lvl =
     (let fltr = (case lvl of
          Silent \<Rightarrow> FilterNone # lc_filters l
        | GInfo \<Rightarrow> FilterAllow AllowInfo # lc_filters l
        | GWarn \<Rightarrow> FilterAllow AllowWarn # lc_filters l
        | GError \<Rightarrow> FilterAllow AllowError # lc_filters l
        | GLevel _ \<Rightarrow> lc_filters l) in
      NewLogAdapter fltr (lc_slowThreshold l) (lc_tracer l))"

text \<open>Whether a line gets through every filter.\<close>

fun level_rank :: "log_level \<Rightarrow> nat" where
  "level_rank LDebug = 0" | "level_rank LInfo = 1" | "level_rank LWarn = 2" | "level_rank LError = 3"

fun option_rank :: "level_option \<Rightarrow> nat" where
  "option_rank AllowDebug = 0" | "option_rank AllowInfo = 1" | "option_rank AllowWarn = 2" | "option_rank AllowError = 3"

fun passes :: "log_filter list \<Rightarrow> log_level \<Rightarrow> bool" where
  "passes [] lvl = True"
| "passes (FilterNone # fs) lvl = False"
| "passes (FilterAllow f # fs) lvl = (option_rank f \<le> level_rank lvl \<and> passes fs lvl)"

text \<open>\<open>Info\<close>, \<open>Warn\<close> and \<open>Error\<close>: the level, the caller and the formatted message.\<close>

definition logContext_Info :: "(string \<Rightarrow> 'a list \<Rightarrow> string) \<Rightarrow> string \<Rightarrow> string \<Rightarrow> 'a list \<Rightarrow> log_level \<times> string \<times> string" where
  "logContext_Info Sprintf FileWithLineNum msg data = (LInfo, FileWithLineNum, Sprintf msg data)"

definition logContext_Warn :: "(string \<Rightarrow> 'a list \<Rightarrow> string) \<Rightarrow> string \<Rightarrow> string \<Rightarrow> 'a list \<Rightarrow> log_level \<times> string \<times> string" where
  "logContext_Warn Sprintf FileWithLineNum msg data = (LWarn, FileWithLineNum, Sprintf msg data)"

definition logContext_Error :: "(string \<Rightarrow> 'a list \<Rightarrow> string) \<Rightarrow> string \<Rightarrow> string \<Rightarrow> 'a list \<Rightarrow> log_level \<times> string \<times> string" where
  "logContext_Error Sprintf FileWithLineNum msg data = (LError, FileWithLineNum, Sprintf msg data)"

datatype trace_error = ErrRecordNotFound | TraceError string

text \<open>The switch of \<open>Trace\<close>: the status of the span, then the level, the message and the further keys of the line.\<close>

definition Trace :: "logContext \<Rightarrow> duration \<Rightarrow> trace_error option \<Rightarrow> span_status \<times> log_level \<times> string \<times> string list" where
  "Trace l elapsed err =
     (case err of
        Some (TraceError m) \<Rightarrow>
          (CodeError m, LError, ''SQL execution exception'', [''errorMsg'', ''sql'', ''execTime'', ''rowReturnCount''])
      | _ \<Rightarrow>
          if sint elapsed > sint (lc_slowThreshold l) \<and> lc_slowThreshold l \<noteq> 0
          then (CodeOk, LWarn, ''exec SQL query'', [''sql'', ''execTime'', ''rowReturnCount''])
          else (CodeOk, LDebug, ''exec SQL query'', [''sql'', ''execTime'', ''rowReturnCount'']))"

section \<open>Opening with the creation of the schema\<close>

text \<open>
  What the two servers share: opening is one call of \<open>gorm.Open\<close>, and when it fails because the database is
  unknown, a connection to the server's own database creates it.
\<close>

locale auto_create =
  fixes glib :: "'w gorm_lib" and dsn_of :: "'o \<Rightarrow> (db_error + dsn) go" and cfg_of :: "'o \<Rightarrow> gorm_Config"
    and admin :: "'o \<Rightarrow> 'o" and create_sql :: "'o \<Rightarrow> string"
    and conn :: "'o \<Rightarrow> bool \<Rightarrow> 'w gorm_state \<Rightarrow> ('w gorm_state \<times> (db_error + nat)) go"
  assumes dsn_error: "dsn_of opts = Ret (Inl e) \<Longrightarrow> conn opts auto s = Ret (s, Inl e)"
    and opens: "dsn_of opts = Ret (Inr d) \<Longrightarrow> do_open glib d (cfg_of opts) s = (s1, Inr db) \<Longrightarrow>
      conn opts auto s = Ret (s1, Inr db)"
    and fails: "dsn_of opts = Ret (Inr d) \<Longrightarrow> do_open glib d (cfg_of opts) s = (s1, Inl oe) \<Longrightarrow>
      \<not> (auto \<and> unknown_database oe) \<Longrightarrow> conn opts auto s = Ret (s1, Inl (open_err oe))"
    and creates: "dsn_of opts = Ret (Inr d) \<Longrightarrow> do_open glib d (cfg_of opts) s = (s1, Inl oe) \<Longrightarrow>
      unknown_database oe \<Longrightarrow>
      conn opts True s = go_bind (conn (admin opts) False s1) (\<lambda>(s2, r).
        case r of
          Inl e2 \<Rightarrow> Ret (s2, Inl e2)
        | Inr db \<Rightarrow>
            (case do_exec glib db (create_sql opts) s2 of
               (s3, Some e3) \<Rightarrow> Ret (s3, Inl (ExecErr e3))
             | (s3, None) \<Rightarrow>
                 go_bind (conn opts False s3) (\<lambda>(s4, r4).
                   Ret ((if gl_DB glib db (gs_world s3) = None then fst (do_close glib db s4) else s4), r4))))"
    and dsn_admin: "dsn_of opts = Ret (Inr d) \<Longrightarrow> \<exists>d'. dsn_of (admin opts) = Ret (Inr d')"
begin

lemma open_err_exec: "Inl (open_err oe) \<noteq> Inl (ExecErr e)"
  by (cases oe) (simp_all add: open_err_def)

lemma conn_once:
  assumes "dsn_of opts = Ret (Inr d)"
  obtains r where "conn opts False s = Ret (fst (do_open glib d (cfg_of opts) s), r)" "\<And>e. r \<noteq> Inl (ExecErr e)"
proof (cases "do_open glib d (cfg_of opts) s")
  case (Pair s1 res)
  show thesis
  proof (cases res)
    case (Inl oe)
    have "conn opts False s = Ret (s1, Inl (open_err oe))" by (rule fails) (use assms Pair Inl in auto)
    then show thesis using that [of "Inl (open_err oe)"] Pair Inl by (simp add: open_err_def split: open_error.splits)
  next
    case (Inr db)
    have "conn opts False s = Ret (s1, Inr db)" by (rule opens) (use assms Pair Inr in auto)
    then show thesis using that [of "Inr db"] Pair Inr by simp
  qed
qed

text \<open>The calls of the database that one opening may make.\<close>

definition plan :: "'o \<Rightarrow> dsn \<Rightarrow> dsn \<Rightarrow> db_call list \<Rightarrow> bool" where
  "plan opts d d' new \<longleftrightarrow> new \<noteq> [] \<and>
     (\<exists>n db. prefix new ([OpenCall d (cfg_of opts), OpenCall d' (cfg_of (admin opts)), ExecCall db (create_sql opts),
        OpenCall d (cfg_of opts)] @ replicate n (CloseCall db)) \<and> n \<le> 1)"

abbreviation steps_to_create :: "'o \<Rightarrow> dsn \<Rightarrow> dsn \<Rightarrow> nat \<Rightarrow> db_call list" where
  "steps_to_create opts d d' db \<equiv> [OpenCall d (cfg_of opts), OpenCall d' (cfg_of (admin opts)), ExecCall db (create_sql opts)]"

lemma plan_1: "plan opts d d' [OpenCall d (cfg_of opts)]"
  by (fastforce simp: plan_def)

lemma plan_2: "plan opts d d' [OpenCall d (cfg_of opts), OpenCall d' (cfg_of (admin opts))]"
  by (fastforce simp: plan_def)

lemma plan_3: "plan opts d d' (steps_to_create opts d d' db)"
  by (fastforce simp: plan_def)

lemma plan_4: "n \<le> 1 \<Longrightarrow> plan opts d d' (steps_to_create opts d d' db @ [OpenCall d (cfg_of opts)] @ replicate n (CloseCall db))"
  by (fastforce simp: plan_def)

text \<open>After the database was created: the second opening and the closing of the first connection.\<close>

lemma calls_reopen:
  assumes "dsn_of opts = Ret (Inr d)"
  shows "\<exists>s' r n. go_bind (conn opts False s3) (\<lambda>(s4, r4).
      Ret ((if gl_DB glib db (gs_world s3) = None then fst (do_close glib db s4) else s4), r4)) = Ret (s', r) \<and>
    extends s3 s' ([OpenCall d (cfg_of opts)] @ replicate n (CloseCall db)) \<and> n \<le> 1 \<and> (\<forall>e. r \<noteq> Inl (ExecErr e))"
proof -
  obtain r4 where r4: "conn opts False s3 = Ret (fst (do_open glib d (cfg_of opts) s3), r4)" "\<And>e. r4 \<noteq> Inl (ExecErr e)"
    using conn_once [OF assms] by metis
  note o = extends_open [of s3 glib d "cfg_of opts"]
  show ?thesis
  proof (cases "gl_DB glib db (gs_world s3)")
    case None
    then show ?thesis using r4 extends_trans [OF o extends_close [of _ glib db]]
      by (intro exI [of _ "fst (do_close glib db (fst (do_open glib d (cfg_of opts) s3)))"] exI [of _ r4] exI [of _ 1]) simp
  next
    case (Some e)
    then show ?thesis using r4 o
      by (intro exI [of _ "fst (do_open glib d (cfg_of opts) s3)"] exI [of _ r4] exI [of _ 0]) simp
  qed
qed

lemma calls_creating:
  assumes "dsn_of opts = Ret (Inr d)" "dsn_of (admin opts) = Ret (Inr d')"
    and "do_open glib d (cfg_of opts) s = (s1, Inl oe)" "unknown_database oe"
  shows "\<exists>s' r new. conn opts True s = Ret (s', r) \<and> extends s s' new \<and> plan opts d d' new \<and>
    (\<forall>e. r = Inl (ExecErr e) \<longrightarrow> (\<exists>db. new = steps_to_create opts d d' db))"
proof -
  obtain s2 r2 where r2: "conn (admin opts) False s1 = Ret (s2, r2)" "s2 = fst (do_open glib d' (cfg_of (admin opts)) s1)"
    "\<And>e. r2 \<noteq> Inl (ExecErr e)"
    using conn_once [OF assms(2)] by metis
  have c2: "extends s s2 [OpenCall d (cfg_of opts), OpenCall d' (cfg_of (admin opts))]"
    using extends_trans [of s s1 _ s2] extends_open [of s glib d "cfg_of opts"]
      extends_open [of s1 glib d' "cfg_of (admin opts)"] assms(3) r2(2) by fastforce
  note eq = creates [OF assms(1,3,4)] r2(1)
  show ?thesis
  proof (cases r2)
    case (Inl e2)
    then show ?thesis using eq c2 plan_2 r2(3) by auto
  next
    case (Inr db)
    obtain s3 e3 where o3: "do_exec glib db (create_sql opts) s2 = (s3, e3)" by fastforce
    have c3: "extends s s3 (steps_to_create opts d d' db)" using extends_trans [OF c2 extends_exec [OF o3]] by simp
    show ?thesis
    proof (cases e3)
      case (Some e)
      then show ?thesis using eq Inr o3 c3 plan_3 by auto
    next
      case None
      obtain s' r n where f: "go_bind (conn opts False s3) (\<lambda>(s4, r4).
          Ret ((if gl_DB glib db (gs_world s3) = None then fst (do_close glib db s4) else s4), r4)) = Ret (s', r)"
        "extends s3 s' ([OpenCall d (cfg_of opts)] @ replicate n (CloseCall db))" "n \<le> 1" "\<forall>e. r \<noteq> Inl (ExecErr e)"
        using calls_reopen [OF assms(1)] by blast
      have "conn opts True s = Ret (s', r)" using eq Inr o3 None f(1) by simp
      then show ?thesis using f(4) extends_trans [OF c3 f(2)] plan_4 [OF f(3), of opts d d' db] by blast
    qed
  qed
qed

lemma conn_calls:
  assumes "dsn_of opts = Ret (Inr d)" "dsn_of (admin opts) = Ret (Inr d')"
  shows "\<exists>s' r new. conn opts auto s = Ret (s', r) \<and> extends s s' new \<and> plan opts d d' new \<and>
    (auto = False \<longrightarrow> new = [OpenCall d (cfg_of opts)]) \<and>
    (\<forall>e. r = Inl (ExecErr e) \<longrightarrow> (\<exists>db. new = steps_to_create opts d d' db))"
proof (cases "do_open glib d (cfg_of opts) s")
  case (Pair s1 res)
  have c1: "extends s s1 [OpenCall d (cfg_of opts)]" using extends_open [of s glib d "cfg_of opts"] Pair by simp
  show ?thesis
  proof (cases res)
    case (Inr db)
    then have "conn opts auto s = Ret (s1, Inr db)" using opens [OF assms(1)] Pair by blast
    then show ?thesis using c1 plan_1 [of opts d d']
      by (intro exI [of _ s1] exI [of _ "Inr db"] exI [of _ "[OpenCall d (cfg_of opts)]"]) simp
  next
    case (Inl oe)
    show ?thesis
    proof (cases "auto \<and> unknown_database oe")
      case True
      then show ?thesis using calls_creating [OF assms, of s s1 oe] Pair Inl by simp
    next
      case False
      then have "conn opts auto s = Ret (s1, Inl (open_err oe))" using fails [OF assms(1)] Pair Inl by blast
      then show ?thesis using c1 plan_1 [of opts d d'] open_err_exec [of oe]
        by (intro exI [of _ s1] exI [of _ "Inl (open_err oe)"] exI [of _ "[OpenCall d (cfg_of opts)]"]) simp
    qed
  qed
qed

text \<open>At most three openings and one statement, and only the connection that executed it is closed.\<close>

lemma plan_bounds:
  assumes "plan opts d d' new"
  shows "length (filter is_open new) \<le> 3"
    "length (filter (\<lambda>c. \<exists>db q. c = ExecCall db q) new) \<le> 1"
    "ExecCall db q \<in> set new \<Longrightarrow> q = create_sql opts"
    "CloseCall db \<in> set new \<Longrightarrow> ExecCall db (create_sql opts) \<in> set new"
proof -
  obtain n x where "prefix new (steps_to_create opts d d' x @ [OpenCall d (cfg_of opts)] @ replicate n (CloseCall x))" "n \<le> 1"
    using assms by (auto simp: plan_def)
  moreover from this(2) have "n = 0 \<or> n = 1" by linarith
  ultimately consider "new = []" | "new = [OpenCall d (cfg_of opts)]"
    | "new = [OpenCall d (cfg_of opts), OpenCall d' (cfg_of (admin opts))]" | "new = steps_to_create opts d d' x"
    | "new = steps_to_create opts d d' x @ [OpenCall d (cfg_of opts)]"
    | "new = steps_to_create opts d d' x @ [OpenCall d (cfg_of opts), CloseCall x]"
    by (auto simp: prefix_Cons)
  note new = this
  show "length (filter is_open new) \<le> 3" by (cases rule: new) simp_all
  show "length (filter (\<lambda>c. \<exists>db q. c = ExecCall db q) new) \<le> 1" by (cases rule: new) simp_all
  show "ExecCall db q \<in> set new \<Longrightarrow> q = create_sql opts" by (cases rule: new) simp_all
  show "CloseCall db \<in> set new \<Longrightarrow> ExecCall db (create_sql opts) \<in> set new" by (cases rule: new) simp_all
qed

end

section \<open>The two servers\<close>

definition mysql_dsn :: "crypto_lib \<Rightarrow> string \<Rightarrow> MySQLOptions \<Rightarrow> (db_error + dsn) go" where
  "mysql_dsn lib env opts =
     go_bind (SString_UnsafeString lib env (my_Password opts)) (\<lambda>(passwd, err).
       Ret (case err of Some e \<Rightarrow> Inl (PasswordErr e) | None \<Rightarrow> Inr (MySQLDSN (mysql_config (mysql_defaults opts) passwd))))"

text \<open>Opening with the options left out of the result.\<close>

definition mysql_conn ::
    "crypto_lib \<Rightarrow> string \<Rightarrow> 'w gorm_lib \<Rightarrow> duration \<Rightarrow> MySQLOptions \<Rightarrow> bool \<Rightarrow> 'w gorm_state \<Rightarrow>
     ('w gorm_state \<times> (db_error + nat)) go" where
  "mysql_conn lib env glib slow opts auto s =
     go_bind (openMysqlConn lib env glib slow opts auto s) (\<lambda>(s', opts', r). Ret (s', r))"

lemma mysql_defaults_idem [simp]: "mysql_defaults (mysql_defaults opts) = mysql_defaults opts"
  by (simp add: mysql_defaults_def)

lemma mysql_defaults_simps [simp]:
  "my_Password (mysql_defaults opts) = my_Password opts" "my_TablePrefix (mysql_defaults opts) = my_TablePrefix opts"
  "my_Schema (mysql_defaults opts) = my_Schema opts"
  by (simp_all add: mysql_defaults_def)

lemma mysql_conn_False_defaults: "mysql_conn lib env glib slow (mysql_defaults opts) False s = mysql_conn lib env glib slow opts False s"
  by (cases "SString_UnsafeString lib env (my_Password opts)")
     (auto simp: mysql_conn_def openMysqlConn.simps [of _ _ _ _ _ False] Let_def split: option.splits prod.splits sum.splits)

lemma mysql_conn_creates:
  assumes "SString_UnsafeString lib env (my_Password opts) = Ret (passwd, None)"
    and "do_open glib (MySQLDSN (mysql_config (mysql_defaults opts) passwd)) (gorm_config (my_TablePrefix opts) slow) s = (s1, Inl oe)"
    and "unknown_database oe"
  shows "mysql_conn lib env glib slow opts True s =
    go_bind (mysql_conn lib env glib slow ((mysql_defaults opts)\<lparr>my_Schema := ''mysql''\<rparr>) False s1) (\<lambda>(s2, r).
      case r of
        Inl e2 \<Rightarrow> Ret (s2, Inl e2)
      | Inr db \<Rightarrow>
          (case do_exec glib db (create_schema_sql (mysql_defaults opts)) s2 of
             (s3, Some e3) \<Rightarrow> Ret (s3, Inl (ExecErr e3))
           | (s3, None) \<Rightarrow>
               go_bind (mysql_conn lib env glib slow opts False s3) (\<lambda>(s4, r4).
                 Ret ((if gl_DB glib db (gs_world s3) = None then fst (do_close glib db s4) else s4), r4))))"
proof -
  let ?opts = "mysql_defaults opts"
  let ?admin = "?opts\<lparr>my_Schema := ''mysql''\<rparr>"
  have eq: "openMysqlConn lib env glib slow opts True s =
    go_bind (openMysqlConn lib env glib slow ?admin False s1) (\<lambda>(s2, _, r).
      case r of
        Inl e2 \<Rightarrow> Ret (s2, ?opts, Inl e2)
      | Inr db \<Rightarrow>
          (case do_exec glib db (create_schema_sql ?opts) s2 of
             (s3, Some e3) \<Rightarrow> Ret (s3, ?opts, Inl (ExecErr e3))
           | (s3, None) \<Rightarrow>
               go_bind (openMysqlConn lib env glib slow ?opts False s3) (\<lambda>(s4, opts4, r4).
                 Ret ((if gl_DB glib db (gs_world s3) = None then fst (do_close glib db s4) else s4), opts4, r4))))"
    by (subst openMysqlConn.simps) (simp add: assms Let_def)
  show ?thesis
  proof (cases "openMysqlConn lib env glib slow ?admin False s1")
    case (Ret x)
    obtain s2 opts2 r where x: "x = (s2, opts2, r)" by (metis prod.exhaust)
    show ?thesis
    proof (cases r)
      case (Inl e2)
      then show ?thesis by (simp add: mysql_conn_def eq Ret x)
    next
      case (Inr db)
      obtain s3 e3 where o3: "do_exec glib db (create_schema_sql ?opts) s2 = (s3, e3)" by fastforce
      show ?thesis unfolding mysql_conn_False_defaults [of lib env glib slow opts, symmetric]
        by (cases e3; cases "openMysqlConn lib env glib slow ?opts False s3")
           (auto simp: mysql_conn_def eq Ret x Inr o3)
    qed
  qed (simp add: mysql_conn_def eq)
qed

interpretation mysql: auto_create glib "mysql_dsn lib env" "\<lambda>opts. gorm_config (my_TablePrefix opts) slow"
    "\<lambda>opts. (mysql_defaults opts)\<lparr>my_Schema := ''mysql''\<rparr>" "\<lambda>opts. create_schema_sql (mysql_defaults opts)"
    "mysql_conn lib env glib slow" for lib env glib slow
proof
  fix opts auto s s1 d db oe e
  show "mysql_dsn lib env opts = Ret (Inl e) \<Longrightarrow> mysql_conn lib env glib slow opts auto s = Ret (s, Inl e)"
    by (auto simp: mysql_dsn_def mysql_conn_def openMysqlConn.simps [of _ _ _ _ opts] split: option.splits)
  show "mysql_dsn lib env opts = Ret (Inr d) \<Longrightarrow> do_open glib d (gorm_config (my_TablePrefix opts) slow) s = (s1, Inr db) \<Longrightarrow>
      mysql_conn lib env glib slow opts auto s = Ret (s1, Inr db)"
    by (auto simp: mysql_dsn_def mysql_conn_def openMysqlConn.simps [of _ _ _ _ opts] Let_def split: option.splits)
  show "mysql_dsn lib env opts = Ret (Inr d) \<Longrightarrow> do_open glib d (gorm_config (my_TablePrefix opts) slow) s = (s1, Inl oe) \<Longrightarrow>
      \<not> (auto \<and> unknown_database oe) \<Longrightarrow> mysql_conn lib env glib slow opts auto s = Ret (s1, Inl (open_err oe))"
    by (auto simp: mysql_dsn_def mysql_conn_def openMysqlConn.simps [of _ _ _ _ opts] Let_def split: option.splits)
  show "mysql_dsn lib env opts = Ret (Inr d) \<Longrightarrow>
      \<exists>d'. mysql_dsn lib env ((mysql_defaults opts)\<lparr>my_Schema := ''mysql''\<rparr>) = Ret (Inr d')"
    by (auto simp: mysql_dsn_def split: option.splits)
next
  fix opts d s s1 oe
  assume "mysql_dsn lib env opts = Ret (Inr d)" "do_open glib d (gorm_config (my_TablePrefix opts) slow) s = (s1, Inl oe)"
    "unknown_database oe"
  then show "mysql_conn lib env glib slow opts True s =
    go_bind (mysql_conn lib env glib slow ((mysql_defaults opts)\<lparr>my_Schema := ''mysql''\<rparr>) False s1) (\<lambda>(s2, r).
      case r of
        Inl e2 \<Rightarrow> Ret (s2, Inl e2)
      | Inr db \<Rightarrow>
          (case do_exec glib db (create_schema_sql (mysql_defaults opts)) s2 of
             (s3, Some e3) \<Rightarrow> Ret (s3, Inl (ExecErr e3))
           | (s3, None) \<Rightarrow>
               go_bind (mysql_conn lib env glib slow opts False s3) (\<lambda>(s4, r4).
                 Ret ((if gl_DB glib db (gs_world s3) = None then fst (do_close glib db s4) else s4), r4))))"
    using mysql_conn_creates by (fastforce simp: mysql_dsn_def split: option.splits)
qed

definition clickhouse_dsn_of ::
    "crypto_lib \<Rightarrow> string \<Rightarrow> (duration \<Rightarrow> string) \<Rightarrow> ClickhouseOptions \<Rightarrow> (db_error + dsn) go" where
  "clickhouse_dsn_of lib env ds opts =
     go_bind (GetDSN lib env ds opts) (\<lambda>r. Ret (case r of Inl e \<Rightarrow> Inl e | Inr dsn \<Rightarrow> Inr (ClickhouseDSN dsn ''LZ4'')))"

lemma clickhouse_dsn_Inr [simp]:
  "clickhouse_dsn_of lib env ds opts = Ret (Inr d) \<longleftrightarrow>
   (\<exists>dsn. GetDSN lib env ds opts = Ret (Inr dsn) \<and> d = ClickhouseDSN dsn ''LZ4'')"
  by (cases "GetDSN lib env ds opts") (auto simp: clickhouse_dsn_of_def split: sum.splits)

interpretation clickhouse: auto_create glib "clickhouse_dsn_of lib env ds" "\<lambda>opts. gorm_config (ch_TablePrefix opts) slow"
    "\<lambda>opts. opts\<lparr>ch_Schema := ''clickhouse''\<rparr>" "\<lambda>opts. ''CREATE DATABASE `'' @ ch_Schema opts @ ''`''"
    "openClickhouseConn lib env ds glib slow" for lib env ds glib slow
proof
  fix opts auto s s1 d db oe e
  show "clickhouse_dsn_of lib env ds opts = Ret (Inl e) \<Longrightarrow> openClickhouseConn lib env ds glib slow opts auto s = Ret (s, Inl e)"
    by (subst openClickhouseConn.simps) (auto simp: clickhouse_dsn_of_def split: sum.splits)
  show "clickhouse_dsn_of lib env ds opts = Ret (Inr d) \<Longrightarrow> do_open glib d (gorm_config (ch_TablePrefix opts) slow) s = (s1, Inr db) \<Longrightarrow>
      openClickhouseConn lib env ds glib slow opts auto s = Ret (s1, Inr db)"
    by (subst openClickhouseConn.simps) auto
  show "clickhouse_dsn_of lib env ds opts = Ret (Inr d) \<Longrightarrow> do_open glib d (gorm_config (ch_TablePrefix opts) slow) s = (s1, Inl oe) \<Longrightarrow>
      \<not> (auto \<and> unknown_database oe) \<Longrightarrow> openClickhouseConn lib env ds glib slow opts auto s = Ret (s1, Inl (open_err oe))"
    by (subst openClickhouseConn.simps) auto
  show "clickhouse_dsn_of lib env ds opts = Ret (Inr d) \<Longrightarrow> \<exists>d'. clickhouse_dsn_of lib env ds (opts\<lparr>ch_Schema := ''clickhouse''\<rparr>) = Ret (Inr d')"
    by (auto simp: GetDSN_def set_timeout_def Values_Set_def split: option.splits sum.splits)
next
  fix opts d s s1 oe
  assume "clickhouse_dsn_of lib env ds opts = Ret (Inr d)"
    "do_open glib d (gorm_config (ch_TablePrefix opts) slow) s = (s1, Inl oe)" "unknown_database oe"
  then show "openClickhouseConn lib env ds glib slow opts True s =
    go_bind (openClickhouseConn lib env ds glib slow (opts\<lparr>ch_Schema := ''clickhouse''\<rparr>) False s1) (\<lambda>(s2, r).
      case r of
        Inl e2 \<Rightarrow> Ret (s2, Inl e2)
      | Inr db \<Rightarrow>
          (case do_exec glib db (''CREATE DATABASE `'' @ ch_Schema opts @ ''`'') s2 of
             (s3, Some e3) \<Rightarrow> Ret (s3, Inl (ExecErr e3))
           | (s3, None) \<Rightarrow>
               go_bind (openClickhouseConn lib env ds glib slow opts False s3) (\<lambda>(s4, r4).
                 Ret ((if gl_DB glib db (gs_world s3) = None then fst (do_close glib db s4) else s4), r4))))"
    by (subst openClickhouseConn.simps) auto
qed

section \<open>Properties of opening\<close>

lemma mysql_dsn_readable:
  assumes "SString_UnsafeString lib env (my_Password opts) = Ret (pw, None)"
  shows "mysql_dsn lib env opts = Ret (Inr (MySQLDSN (mysql_config (mysql_defaults opts) pw)))"
    "\<exists>d'. mysql_dsn lib env ((mysql_defaults opts)\<lparr>my_Schema := sc\<rparr>) = Ret (Inr d')"
  using assms by (simp_all add: mysql_dsn_def)

lemma openMysqlConn_conn:
  assumes "mysql_conn lib env glib slow opts auto s = Ret (s', r)"
  obtains opts' where "openMysqlConn lib env glib slow opts auto s = Ret (s', opts', r)"
  using assms by (cases "openMysqlConn lib env glib slow opts auto s") (auto simp: mysql_conn_def)

definition count_opens :: "db_call list \<Rightarrow> nat" where
  "count_opens cs = length (filter is_open cs)"

text \<open>C11: Opening a MySQL connection ends. With a password that can be read, openMysqlConn always returns,
  after at most three openings (one when no schema may be created); the only statement it executes creates
  the schema, and the only connection it closes is the one that executed it.\<close>

theorem mysql_open_terminates:
  assumes "SString_UnsafeString lib env (my_Password opts) = Ret (pw, None)"
  shows "\<exists>s' opts' r new. openMysqlConn lib env glib slow opts auto s = Ret (s', opts', r) \<and>
    gs_calls s' = gs_calls s @ new \<and> count_opens new \<le> (if auto then 3 else 1) \<and>
    (\<forall>db q. ExecCall db q \<in> set new \<longrightarrow> q = create_schema_sql (mysql_defaults opts)) \<and>
    (\<forall>db. CloseCall db \<in> set new \<longrightarrow> ExecCall db (create_schema_sql (mysql_defaults opts)) \<in> set new)"
proof -
  note d = mysql_dsn_readable [OF assms]
  obtain d' where d': "mysql_dsn lib env ((mysql_defaults opts)\<lparr>my_Schema := ''mysql''\<rparr>) = Ret (Inr d')" using d(2) by blast
  obtain s' r new where c: "mysql_conn lib env glib slow opts auto s = Ret (s', r)" "extends s s' new"
    "mysql.plan slow opts (MySQLDSN (mysql_config (mysql_defaults opts) pw)) d' new"
    "auto = False \<longrightarrow> count_opens new = 1"
    using mysql.conn_calls [OF d(1) d', of glib slow auto s] by (auto simp: count_opens_def)
  obtain opts' where o: "openMysqlConn lib env glib slow opts auto s = Ret (s', opts', r)"
    using openMysqlConn_conn [OF c(1)] by blast
  note b = mysql.plan_bounds [OF c(3)]
  have "count_opens new \<le> (if auto then 3 else 1)" using c(4) b(1) by (simp add: count_opens_def)
  moreover have "\<forall>db q. ExecCall db q \<in> set new \<longrightarrow> q = create_schema_sql (mysql_defaults opts)"
    using b(3) by blast
  moreover have "\<forall>db. CloseCall db \<in> set new \<longrightarrow> ExecCall db (create_schema_sql (mysql_defaults opts)) \<in> set new"
    using b(4) by blast
  ultimately show ?thesis using o extends_frame(5) [OF c(2)] by blast
qed

text \<open>Every attempt uses the same password, and the options that come back keep theirs.\<close>

lemma plan_opens:
  assumes "mysql.plan slow opts d d' new" "OpenCall x c \<in> set new"
  shows "x = d \<or> x = d'"
  using assms unfolding mysql.plan_def by (auto dest!: set_mono_prefix)

lemma mysql_config_passwd: "mc_Passwd (mysql_config opts pw) = pw"
  by (simp add: mysql_config_def)

lemma openMysqlConn_password_once:
  "openMysqlConn lib env glib slow opts False s = Ret (s', opts', r) \<Longrightarrow> my_Password opts' = my_Password opts"
  by (subst (asm) openMysqlConn.simps) (auto simp: Let_def split: option.splits prod.splits sum.splits)

lemma openMysqlConn_password_created:
  assumes "go_bind (openMysqlConn lib env glib slow (opts\<lparr>my_Schema := sc\<rparr>) False s1) (\<lambda>(s2, _, r).
      case r of
        Inl e2 \<Rightarrow> Ret (s2, opts, Inl e2)
      | Inr db \<Rightarrow>
          (case do_exec glib db sql s2 of
             (s3, Some e3) \<Rightarrow> Ret (s3, opts, Inl (ExecErr e3))
           | (s3, None) \<Rightarrow>
               go_bind (openMysqlConn lib env glib slow opts False s3) (\<lambda>(s4, opts4, r4).
                 Ret ((if gl_DB glib db (gs_world s3) = None then fst (do_close glib db s4) else s4), opts4, r4)))) =
      Ret (s', opts', r)"
  shows "my_Password opts' = my_Password opts"
proof (cases "openMysqlConn lib env glib slow (opts\<lparr>my_Schema := sc\<rparr>) False s1")
  case (Ret x)
  obtain s2 o2 r2 where x: "x = (s2, o2, r2)" by (metis surj_pair)
  show ?thesis
  proof (cases r2)
    case (Inl e)
    then show ?thesis using assms Ret x by simp
  next
    case (Inr db)
    obtain s3 e3 where e3: "do_exec glib db sql s2 = (s3, e3)" by fastforce
    show ?thesis
    proof (cases e3)
      case None
      then obtain s4 r4 where "openMysqlConn lib env glib slow opts False s3 = Ret (s4, opts', r4)"
        using assms Ret x Inr e3 by (cases "openMysqlConn lib env glib slow opts False s3") auto
      then show ?thesis by (rule openMysqlConn_password_once)
    next
      case (Some e)
      then show ?thesis using assms Ret x Inr e3 by simp
    qed
  qed
qed (use assms in simp)

lemma openMysqlConn_password:
  assumes "openMysqlConn lib env glib slow opts auto s = Ret (s', opts', r)"
  shows "my_Password opts' = my_Password opts"
proof (cases "SString_UnsafeString lib env (my_Password opts)")
  case (Ret x)
  obtain pw e where x: "x = (pw, e)" by (cases x)
  obtain s1 res where o: "do_open glib (MySQLDSN (mysql_config (mysql_defaults opts) pw)) (gorm_config (my_TablePrefix (mysql_defaults opts)) slow) s = (s1, res)"
    by (meson surj_pair)
  note eq = assms [unfolded openMysqlConn.simps [of _ _ _ _ opts]] Ret x o
  have defaults: "my_Password (mysql_defaults opts) = my_Password opts" by simp
  show ?thesis
  proof (cases "e = None \<and> (\<exists>oe. res = Inl oe \<and> auto \<and> unknown_database oe)")
    case True
    then show ?thesis
      using eq openMysqlConn_password_created [of lib env glib slow "''mysql''" "mysql_defaults opts" s1
          "create_schema_sql (mysql_defaults opts)" s' opts' r] defaults
      by (auto simp: Let_def)
  next
    case False
    then show ?thesis using eq by (auto simp: Let_def split: option.splits sum.splits if_splits)
  qed
qed (use assms in \<open>simp add: openMysqlConn.simps [of _ _ _ _ opts]\<close>)

lemma mysql_opens_with:
  assumes "SString_UnsafeString lib env (my_Password opts) = Ret (pw, None)"
  shows "\<exists>s' opts' r new. openMysqlConn lib env glib slow opts auto s = Ret (s', opts', r) \<and>
    gs_calls s' = gs_calls s @ new \<and> new \<noteq> [] \<and> my_Password opts' = my_Password opts \<and>
    (\<forall>d c. OpenCall d c \<in> set new \<longrightarrow> (\<exists>m. d = MySQLDSN m \<and> mc_Passwd m = pw))"
proof -
  note d = mysql_dsn_readable [OF assms]
  have "SString_UnsafeString lib env (my_Password ((mysql_defaults opts)\<lparr>my_Schema := ''mysql''\<rparr>)) = Ret (pw, None)"
    using assms by simp
  note d' = mysql_dsn_readable(1) [OF this]
  obtain s' r new where c: "mysql_conn lib env glib slow opts auto s = Ret (s', r)" "extends s s' new"
    "mysql.plan slow opts (MySQLDSN (mysql_config (mysql_defaults opts) pw))
       (MySQLDSN (mysql_config (mysql_defaults ((mysql_defaults opts)\<lparr>my_Schema := ''mysql''\<rparr>)) pw)) new"
    using mysql.conn_calls [OF d(1) d', of glib slow auto s] by auto
  obtain opts' where o: "openMysqlConn lib env glib slow opts auto s = Ret (s', opts', r)"
    using openMysqlConn_conn [OF c(1)] by blast
  have "\<exists>m. x = MySQLDSN m \<and> mc_Passwd m = pw" if "OpenCall x cf \<in> set new" for x cf
    using plan_opens [OF c(3) that] mysql_config_passwd by metis
  moreover have "new \<noteq> []" using c(3) by (simp add: mysql.plan_def)
  ultimately show ?thesis using o openMysqlConn_password [OF o] extends_frame(5) [OF c(2)]
    by (intro exI [of _ s'] exI [of _ opts'] exI [of _ r] exI [of _ new]) simp
qed

text \<open>A scripted server: its world is the results of the next openings and the result of every statement.\<close>

definition script_lib :: "((open_error + nat) list \<times> gerror option) gorm_lib" where
  "script_lib = \<lparr>gl_Open = (\<lambda>d c w. ((tl (fst w), snd w), hd (fst w))), gl_Exec = (\<lambda>db q w. (w, snd w)),
     gl_DB = (\<lambda>db w. None), gl_Close = (\<lambda>db w. (w, None)), gl_Stats = (\<lambda>db w g. int db)\<rparr>"

definition script_state :: "(open_error + nat) list \<Rightarrow> gerror option \<Rightarrow> ((open_error + nat) list \<times> gerror option) gorm_state" where
  "script_state rs e = \<lparr>gs_world = (rs, e), gs_calls = [], gs_stop = None, gs_closes = [], gs_clients = [], gs_instances = []\<rparr>"

theorem mysql_open_terminates_witness:
  "\<exists>s' opts' r. openMysqlConn rev_lib [] script_lib 0 NewMySQLOptions True
      (script_state [Inl (ServerException 1049 ''x''), Inr 1, Inr 2] None) = Ret (s', opts', r) \<and> r = Inr 2 \<and>
    count_opens (gs_calls s') = 3 \<and> CloseCall 1 \<in> set (gs_calls s')"
proof -
  have pw: "SString_UnsafeString rev_lib [] (my_Password NewMySQLOptions) = Ret ([], None)"
    by (simp add: NewMySQLOptions_def SString_UnsafeString_def)
  obtain s' opts' r where o: "openMysqlConn rev_lib [] script_lib 0 NewMySQLOptions True
      (script_state [Inl (ServerException 1049 ''x''), Inr 1, Inr 2] None) = Ret (s', opts', r)"
    using mysql_open_terminates [OF pw, of script_lib 0 True "script_state [Inl (ServerException 1049 ''x''), Inr 1, Inr 2] None"]
    by blast
  have sim: "my_Password (mysql_defaults NewMySQLOptions) = my_Password NewMySQLOptions" by simp
  show ?thesis using o pw
    by (simp add: openMysqlConn.simps Let_def do_open_def do_exec_def do_close_def script_lib_def script_state_def
        count_opens_def, auto simp: count_opens_def)
qed

text \<open>When the schema cannot be created, the error of the statement is returned and the connection that
  was opened for it is never closed: it is the last that the calls know of.\<close>

theorem mysql_create_error_leaks:
  assumes "SString_UnsafeString lib env (my_Password opts) = Ret (pw, None)"
    and "openMysqlConn lib env glib slow opts auto s = Ret (s', opts', Inl (ExecErr e))"
  shows "\<exists>d c d' c' db. gs_calls s' = gs_calls s @
      [OpenCall d c, OpenCall d' c', ExecCall db (create_schema_sql (mysql_defaults opts))]"
proof -
  note d = mysql_dsn_readable [OF assms(1)]
  obtain d' where d': "mysql_dsn lib env ((mysql_defaults opts)\<lparr>my_Schema := ''mysql''\<rparr>) = Ret (Inr d')" using d(2) by blast
  have "mysql_conn lib env glib slow opts auto s = Ret (s', Inl (ExecErr e))" using assms(2) by (simp add: mysql_conn_def)
  then obtain new db where "extends s s' new"
    "new = [OpenCall (MySQLDSN (mysql_config (mysql_defaults opts) pw)) (gorm_config (my_TablePrefix opts) slow),
       OpenCall d' (gorm_config (my_TablePrefix ((mysql_defaults opts)\<lparr>my_Schema := ''mysql''\<rparr>)) slow),
       ExecCall db (create_schema_sql (mysql_defaults opts))]"
    using mysql.conn_calls [OF d(1) d', of glib slow auto s] by auto
  then show ?thesis using extends_frame(5) [of s s' new] by blast
qed

theorem mysql_create_error_leaks_witness:
  "\<exists>s' opts' d c d' c' db. openMysqlConn rev_lib [] script_lib 0 NewMySQLOptions True
      (script_state [Inl (ServerException 1049 ''x''), Inr 1] (Some ''denied'')) = Ret (s', opts', Inl (ExecErr ''denied'')) \<and>
    gs_calls s' = [OpenCall d c, OpenCall d' c', ExecCall db (create_schema_sql (mysql_defaults NewMySQLOptions))]"
proof -
  have pw: "SString_UnsafeString rev_lib [] (my_Password NewMySQLOptions) = Ret ([], None)"
    by (simp add: NewMySQLOptions_def SString_UnsafeString_def)
  have "\<exists>s' opts'. openMysqlConn rev_lib [] script_lib 0 NewMySQLOptions True
      (script_state [Inl (ServerException 1049 ''x''), Inr 1] (Some ''denied'')) = Ret (s', opts', Inl (ExecErr ''denied''))"
    using pw by (simp add: openMysqlConn.simps Let_def do_open_def do_exec_def script_lib_def script_state_def)
  then obtain s' opts' where o: "openMysqlConn rev_lib [] script_lib 0 NewMySQLOptions True
      (script_state [Inl (ServerException 1049 ''x''), Inr 1] (Some ''denied'')) = Ret (s', opts', Inl (ExecErr ''denied''))"
    by blast
  show ?thesis using mysql_create_error_leaks [OF pw o] o by (fastforce simp: script_state_def)
qed

text \<open>ClickHouse opens in the same way.\<close>

lemma clickhouse_open_bounded:
  assumes "GetDSN lib env ds opts = Ret (Inr dsn)"
  shows "\<exists>s' r new. openClickhouseConn lib env ds glib slow opts auto s = Ret (s', r) \<and> extends s s' new \<and> count_opens new \<le> 3"
proof -
  have d: "clickhouse_dsn_of lib env ds opts = Ret (Inr (ClickhouseDSN dsn ''LZ4''))" using assms by simp
  obtain d' where d': "clickhouse_dsn_of lib env ds (opts\<lparr>ch_Schema := ''clickhouse''\<rparr>) = Ret (Inr d')"
    using clickhouse.dsn_admin [OF d] by blast
  show ?thesis
    using clickhouse.conn_calls [OF d d', of glib slow auto s] clickhouse.plan_bounds(1) unfolding count_opens_def by meson
qed

section \<open>The registry of clients\<close>

text \<open>Every registered identifier belongs to the client that carries it.\<close>

definition registry_inv :: "'w gorm_state \<Rightarrow> bool" where
  "registry_inv s \<longleftrightarrow> distinct (map fst (gs_instances s)) \<and>
     (\<forall>(i, a) \<in> set (gs_instances s). i \<noteq> [] \<and> a < length (gs_clients s) \<and> cl_statsCollector (gs_clients s ! a) = i)"

lemma set_update_sub: "(i, a) \<in> set (AList.update k v m) \<Longrightarrow> (i, a) = (k, v) \<or> (i, a) \<in> set m \<and> (distinct (map fst m) \<longrightarrow> i \<noteq> k)"
proof (induction m)
  case (Cons x m)
  then show ?case by (cases x) (auto split: if_splits intro: rev_image_eqI)
qed simp

lemma registry_frame:
  "gs_clients s' = gs_clients s \<Longrightarrow> gs_instances s' = gs_instances s \<Longrightarrow> registry_inv s' = registry_inv s"
  by (simp add: registry_inv_def)

lemma inv_add_client [go_inv]:
  assumes "registry_inv s" "add_client NewV4 clt s = Ret (s', a)" "\<And>i. NewV4 = Inr i \<Longrightarrow> i \<noteq> []"
  shows "registry_inv s'"
proof -
  obtain i where i: "NewV4 = Inr i" "i \<noteq> []" using assms(2,3) by (cases NewV4) (auto simp: add_client_def Register_def Let_def)
  have s': "gs_instances s' = AList.update i (length (gs_clients s)) (gs_instances s)"
    "gs_clients s' = gs_clients s @ [clt\<lparr>cl_statsCollector := i\<rparr>]"
    using assms(2) i by (auto simp: add_client_def Register_def Let_def)
  show ?thesis
    using assms(1) i set_update_sub [of _ _ i "length (gs_clients s)" "gs_instances s"]
    unfolding registry_inv_def s' by (fastforce simp: distinct_update nth_append)
qed

lemma inv_Unregister [go_inv]: "registry_inv s \<Longrightarrow> registry_inv (Unregister i s)"
  using distinct_delete [of "gs_instances s" i] by (auto simp: registry_inv_def Unregister_def AList.delete_eq)

lemma inv_client_update:
  assumes "registry_inv s" "cl_statsCollector c = cl_statsCollector (gs_clients s ! a)"
  shows "registry_inv (s\<lparr>gs_clients := (gs_clients s)[a := c]\<rparr>)"
proof -
  have "cl_statsCollector ((gs_clients s)[a := c] ! b) = cl_statsCollector (gs_clients s ! b)"
    if "b < length (gs_clients s)" for b
    using assms(2) that by (cases "a = b") simp_all
  then show ?thesis using assms(1) by (fastforce simp: registry_inv_def)
qed

lemma inv_SetName [go_inv]: "registry_inv s \<Longrightarrow> registry_inv (SetName a name s)"
  by (simp add: SetName_def inv_client_update)

lemma inv_Session [go_inv]: "registry_inv s \<Longrightarrow> Session k ctx a s = Ret (s', se) \<Longrightarrow> registry_inv s'"
  by (auto simp: Session_def Let_def intro!: inv_client_update split: option.splits ctx_value.splits)

lemma close_frame: "gs_instances (fst (do_close lib db s)) = gs_instances s" "gs_clients (fst (do_close lib db s)) = gs_clients s"
  using extends_frame(3,4) [OF extends_close [of s lib db]] by simp_all

lemma inv_Client_Close [go_inv]: "registry_inv s \<Longrightarrow> registry_inv (fst (Client_Close glib c s))"
  using inv_Unregister [of s]
  by (auto simp: Client_Close_def Let_def registry_frame [OF close_frame(2,1)] split: option.splits)

lemma add_hook_frame:
  assumes "add_hook hook db s = Ret s'"
  shows "gs_clients s' = gs_clients s" "gs_instances s' = gs_instances s" "gs_closes s' = AList.update hook db (gs_closes s)"
    "gs_world s' = gs_world s" "\<exists>h. gs_stop s' = Some h \<and> PreStop (SetupSignalHandler (gs_stop s)) LevelDB hook = Ret h"
  using assms by (auto simp: add_hook_def)

lemma mysql_open_frame:
  assumes "openMysqlConn lib env glib slow opts auto s = Ret (s', opts', r)"
  shows "gs_stop s' = gs_stop s \<and> gs_closes s' = gs_closes s \<and> gs_clients s' = gs_clients s \<and> gs_instances s' = gs_instances s"
proof (cases "SString_UnsafeString lib env (my_Password opts)")
  case (Ret x)
  obtain pw e where x: "x = (pw, e)" by (cases x)
  have conn: "mysql_conn lib env glib slow opts auto s = Ret (s', r)" using assms by (simp add: mysql_conn_def)
  show ?thesis
  proof (cases e)
    case None
    then have pw: "SString_UnsafeString lib env (my_Password opts) = Ret (pw, None)" using Ret x by simp
    obtain d' where d': "mysql_dsn lib env ((mysql_defaults opts)\<lparr>my_Schema := ''mysql''\<rparr>) = Ret (Inr d')"
      using mysql_dsn_readable(2) [OF pw] by blast
    obtain new where "extends s s' new"
      using mysql.conn_calls [OF mysql_dsn_readable(1) [OF pw] d', of glib slow auto s] conn by auto
    then show ?thesis using extends_frame by blast
  next
    case (Some ce)
    then have "s' = s" using assms Ret x by (simp add: openMysqlConn.simps [of _ _ _ _ opts])
    then show ?thesis by simp
  qed
next
  case (Panic m)
  then show ?thesis using assms by (simp add: openMysqlConn.simps [of _ _ _ _ opts])
qed

text \<open>What a successful construction leaves: the hook, the connection it closes, and the registered client.\<close>

lemma NewMySQLClient_result:
  assumes "NewMySQLClient lib env glib hook NewV4 name opts s = Ret (s', Inr a)"
  obtains i h where "NewV4 = Inr i" "gs_stop s' = Some h" "PreStop (SetupSignalHandler (gs_stop s)) LevelDB hook = Ret h"
    "map_of (gs_closes s') hook = Some (cl_database (gs_clients s' ! a))" "a = length (gs_clients s)"
    "length (gs_clients s') = Suc a" "map_of (gs_instances s') i = Some a" "cl_name (gs_clients s' ! a) = name"
proof -
  define slow where "slow = (case my_SlowThreshold opts of None \<Rightarrow> 0 | Some d \<Rightarrow> d)"
  obtain s1 o1 r where o: "openMysqlConn lib env glib slow opts True s = Ret (s1, o1, r)"
    using assms by (cases "openMysqlConn lib env glib slow opts True s") (auto simp: NewMySQLClient_def Let_def slow_def)
  obtain db where r: "r = Inr db" "gl_DB glib db (gs_world s1) = None"
    using assms o by (auto simp: NewMySQLClient_def Let_def slow_def [symmetric] split: sum.splits option.splits)
  define sp where "sp = set_pool db (my_MaxIdleConnections o1) (MySQLOptions_GetStdMaxConnectionLifeTime (Some o1)) (my_MaxOpenConnections o1) s1"
  define c where "c = \<lparr>cl_name = name, cl_database = db, cl_slowThreshold = slow, cl_tracer = None,
    cl_options = OptMySQL o1, cl_statsCollector = []\<rparr>"
  have rest: "go_bind (add_hook hook db sp) (\<lambda>s2. go_bind (add_client NewV4 c s2) (\<lambda>(s3, a). Ret (s3, Inr a :: db_error + nat))) = Ret (s', Inr a)"
    using assms o r by (simp add: NewMySQLClient_def Let_def slow_def [symmetric] sp_def c_def)
  then obtain s2 where s2: "add_hook hook db sp = Ret s2" "add_client NewV4 c s2 = Ret (s', a)" by auto
  obtain i where i: "NewV4 = Inr i" using s2(2) by (cases NewV4) (auto simp: add_client_def Register_def Let_def)
  note h = add_hook_frame [OF s2(1)]
  obtain hd where hd: "gs_stop s2 = Some hd" "PreStop (SetupSignalHandler (gs_stop sp)) LevelDB hook = Ret hd" using h(5) by blast
  have fr: "gs_stop sp = gs_stop s" "gs_clients sp = gs_clients s"
    using mysql_open_frame [OF o] by (simp_all add: sp_def set_pool_def)
  have s': "a = length (gs_clients s)" "gs_stop s' = gs_stop s2" "gs_closes s' = gs_closes s2"
    "gs_clients s' = gs_clients s @ [c\<lparr>cl_statsCollector := i\<rparr>]" "gs_instances s' = AList.update i a (gs_instances s2)"
    using s2(2) i h(1) fr by (auto simp: add_client_def Register_def Let_def)
  show thesis
    by (rule that [OF i]) (use s' hd fr h(3) in \<open>simp_all add: update_conv' c_def\<close>)
qed

text \<open>C19: The registry of metrics. A new client is registered under its own identifier, the registry stays
  consistent under construction, renaming, sessions and closing, and closing a client removes exactly its
  entry. But closing a SQLite client, whose Close hides the other, leaves the entry of the closed connection.\<close>

theorem gorm_registry:
  assumes "registry_inv s"
  shows "(NewMySQLClient lib env glib hook NewV4 name opts s = Ret (s', Inr a) \<and> NewV4 \<noteq> Inr [] \<longrightarrow>
      registry_inv s' \<and> a \<in> snd ` set (gs_instances s')) \<and>
    registry_inv (SetName b name s) \<and> (Session k ctx b s = Ret (s2, se) \<longrightarrow> registry_inv s2) \<and>
    registry_inv (fst (Client_Close glib (Some b) s)) \<and>
    (b \<in> snd ` set (gs_instances s) \<longrightarrow>
      set (gs_instances (fst (Client_Close glib (Some b) s))) = {(i, c) \<in> set (gs_instances s). c \<noteq> b}) \<and>
    (SQLiteClient_Close glib w s = Ret (s3, e) \<longrightarrow> gs_instances s3 = gs_instances s)"
proof (intro conjI impI)
  assume new: "NewMySQLClient lib env glib hook NewV4 name opts s = Ret (s', Inr a) \<and> NewV4 \<noteq> Inr []"
  then obtain i where i: "map_of (gs_instances s') i = Some a" using NewMySQLClient_result by metis
  then show "a \<in> snd ` set (gs_instances s')" by (metis map_of_SomeD rev_image_eqI snd_conv)
  obtain s1 o1 r where o: "openMysqlConn lib env glib (case my_SlowThreshold opts of None \<Rightarrow> 0 | Some d \<Rightarrow> d) opts True s = Ret (s1, o1, r)"
    using new by (cases "openMysqlConn lib env glib (case my_SlowThreshold opts of None \<Rightarrow> 0 | Some d \<Rightarrow> d) opts True s")
      (auto simp: NewMySQLClient_def Let_def)
  then obtain db sp s2 c where s2: "add_hook hook db sp = Ret s2" "add_client NewV4 c s2 = Ret (s', a)"
    "gs_clients sp = gs_clients s1" "gs_instances sp = gs_instances s1"
    using new by (fastforce simp: NewMySQLClient_def Let_def set_pool_def split: sum.splits option.splits)
  have "registry_inv s2"
    using assms registry_frame [of s2 s] add_hook_frame(1,2) [OF s2(1)] s2(3,4) mysql_open_frame [OF o] by simp
  then show "registry_inv s'" by (rule inv_add_client [OF _ s2(2)]) (use new in auto)
next
  assume b: "b \<in> snd ` set (gs_instances s)"
  let ?i = "cl_statsCollector (gs_clients s ! b)"
  have keys: "(i, c) \<in> set (gs_instances s) \<Longrightarrow> i \<noteq> [] \<and> cl_statsCollector (gs_clients s ! c) = i" for i c
    using assms by (auto simp: registry_inv_def)
  then have ib: "(?i, b) \<in> set (gs_instances s)" "?i \<noteq> []" using b by auto
  have only: "c = b" if "(?i, c) \<in> set (gs_instances s)" for c
    using that ib(1) assms by (meson eq_key_imp_eq_value registry_inv_def)
  have "gs_instances (fst (Client_Close glib (Some b) s)) = AList.delete ?i (gs_instances s)"
    using ib(2) by (auto simp: Client_Close_def Let_def Unregister_def close_frame split: option.splits)
  then show "set (gs_instances (fst (Client_Close glib (Some b) s))) = {(i, c) \<in> set (gs_instances s). c \<noteq> b}"
    using keys only by (auto simp: AList.delete_eq)
next
  assume "SQLiteClient_Close glib w s = Ret (s3, e)"
  then show "gs_instances s3 = gs_instances s"
    using close_frame(1) [of glib "cl_database (gs_clients s ! the (wc_Client w))" s]
    by (auto simp: SQLiteClient_Close_def Let_def split: option.splits)
qed (auto intro: go_inv assms)

theorem gorm_registry_witness:
  "\<exists>s' a. NewMySQLClient rev_lib [] script_lib 7 (Inr ''id'') ''db'' NewMySQLOptions (script_state [Inr 5] None) = Ret (s', Inr a) \<and>
     registry_inv s' \<and> a \<in> snd ` set (gs_instances s')"
proof -
  let ?s = "script_state [Inr 5] None"
  have inv: "registry_inv ?s" by (simp add: registry_inv_def script_state_def)
  have "\<exists>s' a. NewMySQLClient rev_lib [] script_lib 7 (Inr ''id'') ''db'' NewMySQLOptions ?s = Ret (s', Inr a)"
    by (simp add: NewMySQLClient_def openMysqlConn.simps Let_def NewMySQLOptions_def SString_UnsafeString_def do_open_def
        script_lib_def script_state_def add_hook_def set_pool_def PreStop_def LevelDB_def LevelMax_def SetupSignalHandler_def
        add_client_def Register_def mysql_defaults_def)
  then obtain s' a where n: "NewMySQLClient rev_lib [] script_lib 7 (Inr ''id'') ''db'' NewMySQLOptions ?s = Ret (s', Inr a)" by blast
  moreover have "registry_inv s' \<and> a \<in> snd ` set (gs_instances s')"
    using conjunct1 [OF gorm_registry [OF inv, of rev_lib "[]" script_lib 7 "Inr ''id''" "''db''" NewMySQLOptions s' a]] n by simp
  ultimately show ?thesis by (intro exI conjI) auto
qed

section \<open>Metrics and texts\<close>

lemma Collect_loop_sent:
  assumes "\<And>i a. (i, a) \<in> set xs \<Longrightarrow> gl_DB lib (cl_database (gs_clients s ! a)) (gs_world s) = None"
  shows "snd (Collect_loop lib s xs vecs sent) =
    sent @ concat (map (\<lambda>(i, a). map (\<lambda>g. (g, metric_labels (gs_clients s ! a))) gauges) xs)"
  using assms
proof (induction xs arbitrary: vecs sent)
  case (Cons x xs)
  obtain i a where x: "x = (i, a)" by (cases x)
  have "gl_DB lib (cl_database (gs_clients s ! a)) (gs_world s) = None" using Cons.prems [of i a] x by simp
  moreover have "snd (Collect_loop lib s xs v t) =
      t @ concat (map (\<lambda>(i, a). map (\<lambda>g. (g, metric_labels (gs_clients s ! a))) gauges) xs)" for v t
    by (rule Cons.IH) (use Cons.prems in auto)
  ultimately show ?case by (simp add: x Let_def)
qed simp

lemma distinct_blocks:
  "gs \<noteq> [] \<Longrightarrow> distinct gs \<Longrightarrow> distinct (concat (map (\<lambda>x. map (\<lambda>g. (g, f x)) gs) xs)) \<longleftrightarrow> distinct (map f xs)"
proof (induction xs)
  case (Cons x xs)
  have "distinct (map (\<lambda>g. (g, f x)) gs)" using Cons.prems(2) by (simp add: distinct_map inj_on_def)
  moreover have "set (map (\<lambda>g. (g, f x)) gs) \<inter> set (concat (map (\<lambda>x. map (\<lambda>g. (g, f x)) gs) xs)) = {} \<longleftrightarrow> f x \<notin> f ` set xs"
    using hd_in_set [OF Cons.prems(1)] by auto
  ultimately show ?case using Cons by auto
qed simp

text \<open>A collection sends every metric once exactly when the labels of the registered clients differ pairwise:
  clients that are decoded from JSON all carry the empty name, so two of them on the same database make every
  metric appear twice.\<close>

theorem gorm_metrics_distinct:
  assumes "range_order iter" "\<And>i a. (i, a) \<in> set (gs_instances s) \<Longrightarrow> gl_DB lib (cl_database (gs_clients s ! a)) (gs_world s) = None"
  shows "distinct (snd (Collect iter lib s vecs)) \<longleftrightarrow>
    distinct (map (\<lambda>(i, a). metric_labels (gs_clients s ! a)) (gs_instances s))"
proof -
  let ?f = "\<lambda>x. metric_labels (gs_clients s ! snd x)"
  have "snd (Collect iter lib s vecs) = concat (map (\<lambda>x. map (\<lambda>g. (g, ?f x)) gauges) (iter (gs_instances s)))"
    using Collect_loop_sent [of "iter (gs_instances s)" lib s vecs "[]"] assms by (simp add: Collect_def case_prod_unfold)
  then have "distinct (snd (Collect iter lib s vecs)) \<longleftrightarrow> distinct (map ?f (iter (gs_instances s)))"
    using distinct_blocks [of gauges ?f "iter (gs_instances s)"] by (simp add: gauges_def)
  also have "\<dots> \<longleftrightarrow> distinct (map ?f (gs_instances s))"
    using range_order_map [OF assms(1)] by (metis mset_eq_imp_distinct_iff)
  finally show ?thesis by (simp add: case_prod_unfold)
qed

definition two_unnamed :: "((open_error + nat) list \<times> gerror option) gorm_state" where
  "two_unnamed = (script_state [] None)\<lparr>
     gs_clients := replicate 2 \<lparr>cl_name = [], cl_database = 1, cl_slowThreshold = 0, cl_tracer = None,
       cl_options = OptMySQL NewMySQLOptions, cl_statsCollector = []\<rparr>, gs_instances := [(''a'', 0), (''b'', 1)]\<rparr>"

theorem gorm_metrics_distinct_witness:
  "\<not> distinct (snd (Collect rev script_lib two_unnamed (\<lambda>_. 0)))"
  using gorm_metrics_distinct [of rev two_unnamed script_lib "\<lambda>_. 0"]
  by (simp add: two_unnamed_def script_lib_def script_state_def numeral_2_eq_2)

text \<open>No secret leaves through the observers: the attributes of a session's tracer, the labels of the
  metrics and the text of the options are the same whatever the password is.\<close>

theorem gorm_no_secret:
  "session_attributes (with_password pw opts) = session_attributes opts \<and>
   metric_labels (c\<lparr>cl_options := with_password pw (cl_options c)\<rparr>) = metric_labels c \<and>
   DBOptions_String (with_password pw opts) = DBOptions_String opts"
  by (simp add: session_attributes_def metric_labels_def db.connection_password db.peer_password db.db_name_password
      db.username_password db.db_type_password db.text_password)

text \<open>The label of a host is the address as it is configured, with the default port added.\<close>

lemma metric_host:
  assumes "my_Host x = h @ '':'' @ Itoa n" "CHR '':'' \<notin> set h" "- (2 ^ 63) \<le> n" "n < 2 ^ 63" "cl_options c = OptMySQL x"
  shows "metric_labels c = (''mysql'', cl_name c, my_Host x, my_Schema x)"
  using my_peer.peer_of_address [OF assms(1-4)] assms(1,5)
  by (simp add: metric_labels_def MySQLOptions_GetType_def MySQLOptions_GetDBName_def)

text \<open>A session reuses the connection of its context, and otherwise runs on the client's own.\<close>

lemma session_connection:
  "Session k (WithConnContext k ctx (Some db)) a s = Ret (s', se) \<Longrightarrow> se_database se = db \<and> \<not> se_with_context se"
  "ctx k = None \<Longrightarrow> Session k ctx a s = Ret (s', se) \<Longrightarrow> se_database se = cl_database (gs_clients s ! a) \<and> se_with_context se"
  by (auto simp: Session_def WithConnContext_def Let_def)

text \<open>Statements that fail are errors, except that a record was not found; the others are warnings only when
  a threshold is set and exceeded.\<close>

lemma trace_level:
  "fst (snd (Trace l elapsed err)) = LError \<longleftrightarrow> (\<exists>m. err = Some (TraceError m))"
  "fst (snd (Trace l elapsed None)) = LWarn \<longleftrightarrow> lc_slowThreshold l \<noteq> 0 \<and> sint (lc_slowThreshold l) < sint elapsed"
  by (auto simp: Trace_def split: option.splits trace_error.splits)

lemma log_mode_silent: "\<not> passes (lc_filters (LogMode l Silent)) lvl"
  by (simp add: LogMode_def NewLogAdapter_def)

section \<open>Shutdown\<close>

text \<open>The common end of the three constructors, when it succeeds.\<close>

lemma client_added:
  assumes "go_bind (add_hook hook db s) (\<lambda>s2. go_bind (add_client NewV4 c s2) (\<lambda>(s3, a). Ret (s3, Inr a :: 'e + nat))) = Ret (s', Inr a)"
    and "gs_stop s = Some h" "cl_database c = db"
  shows "\<exists>h'. PreStop h LevelDB hook = Ret h' \<and> gs_stop s' = Some h' \<and>
    map_of (gs_closes s') hook = Some (cl_database (gs_clients s' ! a))"
proof -
  obtain s2 where s2: "add_hook hook db s = Ret s2" "add_client NewV4 c s2 = Ret (s', a)" using assms(1) by auto
  obtain h' where "gs_stop s2 = Some h'" "PreStop h LevelDB hook = Ret h'"
    using add_hook_frame(5) [OF s2(1)] assms(2) by (auto simp: SetupSignalHandler_def)
  moreover obtain i where "NewV4 = Inr i" using s2(2) by (cases NewV4) (auto simp: add_client_def Register_def Let_def)
  then have "gs_stop s' = gs_stop s2" "gs_closes s' = gs_closes s2" "cl_database (gs_clients s' ! a) = db"
    using s2(2) assms(3) by (auto simp: add_client_def Register_def Let_def)
  ultimately show ?thesis using add_hook_frame(3) [OF s2(1)] by (simp add: update_conv')
qed

lemma clickhouse_open_frame:
  assumes "openClickhouseConn lib env ds glib slow opts auto s = Ret (s', r)"
  shows "gs_stop s' = gs_stop s"
proof (cases "GetDSN lib env ds opts")
  case (Ret x)
  then show ?thesis
  proof (cases x)
    case (Inl e)
    then show ?thesis using assms Ret by (subst (asm) openClickhouseConn.simps) simp
  next
    case (Inr dsn)
    then obtain new where "extends s s' new"
      using clickhouse_open_bounded [of lib env ds opts dsn glib slow auto s] Ret assms by auto
    then show ?thesis using extends_frame by blast
  qed
next
  case (Panic m)
  then show ?thesis using assms by (subst (asm) openClickhouseConn.simps) simp
qed

lemma sqlite_made:
  assumes "NewGormSQLiteClient dp et glib hook NewV4 name opts s = Ret (s', Inr a)" "gs_stop s = Some h"
  shows "\<exists>h'. PreStop h LevelDB hook = Ret h' \<and> gs_stop s' = Some h' \<and>
    map_of (gs_closes s') hook = Some (cl_database (gs_clients s' ! a))"
proof -
  obtain o1 slow s1 db where o: "opts = Some o1" "do_open glib (SQLiteDSN (sq_Path o1)) (gorm_config ''t_'' slow) s = (s1, Inr db)"
    and rest: "go_bind (add_hook hook db s1) (\<lambda>s2. go_bind (add_client NewV4 \<lparr>cl_name = name, cl_database = db,
        cl_slowThreshold = slow, cl_tracer = None, cl_options = OptSQLite o1, cl_statsCollector = []\<rparr> s2)
      (\<lambda>(s3, a). Ret (s3, Inr a :: db_error + nat))) = Ret (s', Inr a)"
    using assms(1) by (fastforce simp: NewGormSQLiteClient_def split: option.splits prod.splits sum.splits)
  have "gs_stop s1 = Some h" using o(2) assms(2) by (auto simp: do_open_def split: prod.splits)
  then show ?thesis using client_added [OF rest] by simp
qed

lemma clickhouse_made:
  assumes "NewClickhouseClient lib env ds glib hook NewV4 name opts s = Ret (s', Inr a)" "gs_stop s = Some h"
  shows "\<exists>h'. PreStop h LevelDB hook = Ret h' \<and> gs_stop s' = Some h' \<and>
    map_of (gs_closes s') hook = Some (cl_database (gs_clients s' ! a))"
proof -
  define slow where "slow = (case ch_SlowThreshold opts of None \<Rightarrow> 0 | Some d \<Rightarrow> d)"
  obtain s1 r where o1: "openClickhouseConn lib env ds glib slow opts True s = Ret (s1, r)"
    using assms(1) by (cases "openClickhouseConn lib env ds glib slow opts True s") (auto simp: NewClickhouseClient_def Let_def slow_def)
  then obtain db where r: "r = Inr db" "gl_DB glib db (gs_world s1) = None"
    using assms(1) by (auto simp: NewClickhouseClient_def Let_def slow_def [symmetric] split: sum.splits option.splits)
  note o = o1 [unfolded r(1)] r(2)
  define sp where "sp = set_pool db (ch_MaxIdleConnections opts) (ClickhouseOptions_GetStdMaxConnectionLifeTime (Some opts))
    (ch_MaxOpenConnections opts) s1"
  have rest: "go_bind (add_hook hook db sp) (\<lambda>s2. go_bind (add_client NewV4 \<lparr>cl_name = name, cl_database = db,
        cl_slowThreshold = slow, cl_tracer = None, cl_options = OptClickhouse opts, cl_statsCollector = []\<rparr> s2)
      (\<lambda>(s3, a). Ret (s3, Inr a :: db_error + nat))) = Ret (s', Inr a)"
    using assms(1) o by (simp add: NewClickhouseClient_def Let_def slow_def [symmetric] sp_def)
  have "gs_stop sp = Some h" using clickhouse_open_frame [OF o(1)] assms(2) by (simp add: sp_def set_pool_def)
  then show ?thesis using client_added [OF rest] by simp
qed

text \<open>The three constructors are instances of the contract of package \<open>signals\<close>, at the database level.\<close>

interpretation mysql_closer: closes_on_shutdown "\<lambda>hook. NewMySQLClient lib env glib hook NewV4 name opts" gs_stop LevelDB
  for lib env glib NewV4 name opts
proof
  fix hook s s' c h
  assume m: "NewMySQLClient lib env glib hook NewV4 name opts s = Ret (s', Inr c)" "gs_stop s = Some h"
  show "\<exists>h'. PreStop h LevelDB hook = Ret h' \<and> gs_stop s' = Some h'"
    using NewMySQLClient_result [OF m(1)] m(2) by (metis SetupSignalHandler_def option.simps(5))
qed

interpretation clickhouse_closer: closes_on_shutdown "\<lambda>hook. NewClickhouseClient lib env ds glib hook NewV4 name opts" gs_stop LevelDB
  for lib env ds glib NewV4 name opts
  by unfold_locales (use clickhouse_made in blast)

interpretation sqlite_closer: closes_on_shutdown "\<lambda>hook. NewGormSQLiteClient dp et glib hook NewV4 name opts" gs_stop LevelDB
  for dp et glib NewV4 name opts
  by unfold_locales (use sqlite_made in blast)


text \<open>A MySQL client that is made while no shutdown is going on is closed by the shutdown: when a caller is
  about to exit, its hook has run in the database level, and the hook closes the connection of that client
  if its handle can be obtained.\<close>

theorem gorm_closed_on_shutdown:
  assumes "reachable False h" "running False h" "holder h = None" "gs_stop s = Some h"
    and "NewMySQLClient lib env glib hook NewV4 name opts s = Ret (s', Inr a)"
    and "(step False)\<^sup>*\<^sup>* (the (gs_stop s')) u" "pcs u t = Exiting"
  shows "(LevelDB, hook) \<in> set (hooklog u) \<and>
    (gl_DB glib (cl_database (gs_clients s' ! a)) w = None \<longrightarrow>
      gs_calls (run_hook glib hook (s'\<lparr>gs_world := w\<rparr>)) = gs_calls s' @ [CloseCall (cl_database (gs_clients s' ! a))])"
proof -
  obtain h' where h': "gs_stop s' = Some h'" "map_of (gs_closes s') hook = Some (cl_database (gs_clients s' ! a))"
    using NewMySQLClient_result [OF assms(5)] by metis
  have "(LevelDB, hook) \<in> set (hooklog u)"
    using mysql_closer.hook_runs [OF assms(5,4,1-3) h'(1) _ assms(7)] assms(6) h'(1) by simp
  then show ?thesis
    using h'(2) extends_frame(5) [OF extends_close [of "s'\<lparr>gs_world := w\<rparr>" glib "cl_database (gs_clients s' ! a)"]]
    by (simp add: run_hook_def)
qed

theorem gorm_closed_on_shutdown_witness:
  "\<exists>s' a u. NewMySQLClient rev_lib [] script_lib 7 (Inr ''id'') ''db'' NewMySQLOptions
      ((script_state [Inr 5] None)\<lparr>gs_stop := Some new_handler\<rparr>) = Ret (s', Inr a) \<and>
     (step False)\<^sup>*\<^sup>* (the (gs_stop s')) u \<and> pcs u 0 = Exiting \<and> (LevelDB, 7) \<in> set (hooklog u)"
proof -
  let ?s = "(script_state [Inr 5] None)\<lparr>gs_stop := Some new_handler\<rparr>"
  have "\<exists>s' a. NewMySQLClient rev_lib [] script_lib 7 (Inr ''id'') ''db'' NewMySQLOptions ?s = Ret (s', Inr a)"
    by (simp add: NewMySQLClient_def openMysqlConn.simps Let_def NewMySQLOptions_def SString_UnsafeString_def do_open_def
        script_lib_def script_state_def add_hook_def set_pool_def PreStop_def LevelDB_def LevelMax_def SetupSignalHandler_def
        add_client_def Register_def mysql_defaults_def)
  then obtain s' a where n: "NewMySQLClient rev_lib [] script_lib 7 (Inr ''id'') ''db'' NewMySQLOptions ?s = Ret (s', Inr a)" by blast
  obtain h' where h': "gs_stop s' = Some h'" "PreStop new_handler LevelDB 7 = Ret h'"
    using NewMySQLClient_result [OF n] by (simp add: SetupSignalHandler_def) metis
  have "running False h'" "pcs h' 0 = Idle" "holder h' = None" "\<not> closed h'" "wgs h' k = 0" for k
    using h'(2) by (auto simp: PreStop_def new_handler_def running_def split: if_splits)
  then obtain u where u: "(step False)\<^sup>*\<^sup>* (the (gs_stop s')) u" "pcs u 0 = Exiting"
    using can_stop [of False h' 0] h'(1) by auto
  have st: "gs_stop ?s = Some new_handler" by simp
  have "running False new_handler" "holder new_handler = None" by (simp_all add: running_def new_handler_def)
  then show ?thesis
    using gorm_closed_on_shutdown [OF reachable.init _ _ st n u] n u by blast
qed

end
