(* ===== verification/Jwt.thy ===== *)
theory Jwt
  imports GoPrelude Slices
begin

text \<open>
  Package \<open>jwt\<close> (\<open>jwt/jwt.go\<close>): configurations with their keys, issuing and verifying of tokens, and the
  standard claims. The parsers of keys, the key generators and \<open>golang-jwt\<close> are the record \<open>jwt_lib\<close>; RSA
  and elliptic curve private keys are values of types \<open>'r\<close> and \<open>'e\<close>, claims a value of a type \<open>'c\<close>.
\<close>

section \<open>Keys and methods\<close>

text \<open>The signing methods by their family and size; \<open>OtherMethod\<close> stands for those the package does not name.\<close>

datatype SigningMethod = HS nat | RS nat | ES nat | OtherMethod string

datatype ('r, 'e) private_key = NilKey | SecretKey string | RSAKey 'r | ECKey 'e

datatype ('r, 'e) public_key = NilPublic | RSAPublic 'r | ECPublic 'e

text \<open>The key that verifies a signature: a secret, a public key, or a private key handed over by mistake.\<close>

datatype ('r, 'e) verify_key = VPrivate "('r, 'e) private_key" | VPublic "('r, 'e) public_key"

record ('r, 'e) JWTConfig =
  jc_PrivateKey :: "('r, 'e) private_key"
  jc_PublicKey :: "('r, 'e) public_key"
  jc_Algorithm :: SigningMethod
  jc_Issuer :: string

record 'c token =
  tk_Method :: SigningMethod
  tk_Claims :: 'c

text \<open>The result of parsing a PKCS8 key: an error, a key of one of the two kinds, or of another type.\<close>

datatype pkcs8_key = PKCS8Error | PKCS8EC | PKCS8RSA | PKCS8Other string

text \<open>A public key is represented by the private key it belongs to.\<close>

record ('r, 'e, 'c) jwt_lib =
  jl_ParseRSA :: "string \<Rightarrow> 'r result"
  jl_ParseEC :: "string \<Rightarrow> 'e result"
  jl_BitSize :: "'e \<Rightarrow> nat"
  jl_PemDecode :: "string \<Rightarrow> byte list option"
  jl_PKCS1 :: "byte list \<Rightarrow> bool"
  jl_SEC1 :: "byte list \<Rightarrow> bool"
  jl_PKCS8 :: "byte list \<Rightarrow> pkcs8_key"
  jl_SignedString :: "SigningMethod \<Rightarrow> 'c \<Rightarrow> ('r, 'e) private_key \<Rightarrow> string result"
  jl_Parse :: "string \<Rightarrow> (SigningMethod \<Rightarrow> ('r, 'e) verify_key result) \<Rightarrow> 'c token result"
  jl_ParseUnverified :: "string \<Rightarrow> ('c token \<times> nat) result"

section \<open>Operations\<close>

definition GetPublicKey :: "('r, 'e) JWTConfig \<Rightarrow> ('r, 'e) public_key" where
  "GetPublicKey j = jc_PublicKey j"

text \<open>The name of a method, for the message of the key function.\<close>

definition method_String :: "SigningMethod \<Rightarrow> string" where
  "method_String m = (case m of HS n \<Rightarrow> ''HS'' @ Itoa_nat n | RS n \<Rightarrow> ''RS'' @ Itoa_nat n | ES n \<Rightarrow> ''ES'' @ Itoa_nat n | OtherMethod s \<Rightarrow> s)"

definition keyfunc :: "('r, 'e) JWTConfig \<Rightarrow> SigningMethod \<Rightarrow> ('r, 'e) verify_key result" where
  "keyfunc j m =
     (case m of
        RS _ \<Rightarrow> if jc_PublicKey j = NilPublic then Inl ''public key is nil'' else Inr (VPublic (jc_PublicKey j))
      | ES _ \<Rightarrow> if jc_PublicKey j = NilPublic then Inl ''public key is nil'' else Inr (VPublic (jc_PublicKey j))
      | HS _ \<Rightarrow> Inr (VPrivate (jc_PrivateKey j))
      | OtherMethod _ \<Rightarrow> Inl (''invalid algorithm: '' @ method_String (jc_Algorithm j)))"

definition JWTConfig_ParseWithClaims :: "('r, 'e, 'c) jwt_lib \<Rightarrow> ('r, 'e) JWTConfig \<Rightarrow> string \<Rightarrow> 'c token result" where
  "JWTConfig_ParseWithClaims lib j tokenString = jl_Parse lib tokenString (keyfunc j)"

text \<open>\<open>SetIssuer\<close> is the method of the claims.\<close>

definition JWTConfig_SignedString ::
    "('r, 'e, 'c) jwt_lib \<Rightarrow> (string \<Rightarrow> 'c \<Rightarrow> 'c) \<Rightarrow> ('r, 'e) JWTConfig \<Rightarrow> 'c \<Rightarrow> 'c \<times> string result" where
  "JWTConfig_SignedString lib SetIssuer j claims =
     (let claims' = SetIssuer (jc_Issuer j) claims in
      (claims', jl_SignedString lib (jc_Algorithm j) claims' (jc_PrivateKey j)))"

definition tokenAlgorithmMap :: "(string, SigningMethod) gomap" where
  "tokenAlgorithmMap =
     [(''HS256'', HS 256), (''HS384'', HS 384), (''HS512'', HS 512), (''RS256'', RS 256), (''RS384'', RS 384),
      (''RS512'', RS 512), (''ES256'', ES 256), (''ES384'', ES 384), (''ES512'', ES 512)]"

definition NewJWTConfig :: "('r, 'e, 'c) jwt_lib \<Rightarrow> string \<Rightarrow> string \<Rightarrow> string \<Rightarrow> ('r, 'e) JWTConfig result" where
  "NewJWTConfig lib issuer meth privateKey =
     (case map_of tokenAlgorithmMap meth of
        None \<Rightarrow> Inl (''invalid algorithm: '' @ meth)
      | Some alg \<Rightarrow>
          let c0 = \<lparr>jc_PrivateKey = NilKey, jc_PublicKey = NilPublic, jc_Algorithm = alg, jc_Issuer = issuer\<rparr> in
          if meth \<in> {''HS256'', ''HS384'', ''HS512''} then Inr (c0\<lparr>jc_PrivateKey := SecretKey privateKey\<rparr>)
          else if meth \<in> {''RS256'', ''RS384'', ''RS512''} then
            (case jl_ParseRSA lib privateKey of
               Inl err \<Rightarrow> Inl (''failed to load rsa private key: '' @ err)
             | Inr k \<Rightarrow> Inr (c0\<lparr>jc_PublicKey := RSAPublic k, jc_PrivateKey := RSAKey k\<rparr>))
          else if meth \<in> {''ES256'', ''ES384'', ''ES512''} then
            (case jl_ParseEC lib privateKey of
               Inl err \<Rightarrow> Inl (''failed to load ecdsa private key: '' @ err)
             | Inr k \<Rightarrow>
                 let c1 = c0\<lparr>jc_PublicKey := ECPublic k, jc_PrivateKey := ECKey k\<rparr> in
                 if jl_BitSize lib k = 256 then Inr (c1\<lparr>jc_Algorithm := ES 256\<rparr>)
                 else if jl_BitSize lib k = 384 then Inr (c1\<lparr>jc_Algorithm := ES 384\<rparr>)
                 else if jl_BitSize lib k = 512 then Inr (c1\<lparr>jc_Algorithm := ES 512\<rparr>)
                 else Inl (''invalid ecdsa curve size: '' @ Itoa_nat (jl_BitSize lib k)))
          else Inr c0)"

text \<open>
  The interface value that \<open>NewJWTIssuer\<close> returns holds the pointer also when that is nil, so it is never the
  nil interface: \<open>Some None\<close> is an interface with a nil pointer.
\<close>

definition NewJWTIssuer ::
    "('r, 'e, 'c) jwt_lib \<Rightarrow> string \<Rightarrow> string \<Rightarrow> string \<Rightarrow> ('r, 'e) JWTConfig option option \<times> gerror option" where
  "NewJWTIssuer lib issuerId meth privateKey =
     (case NewJWTConfig lib issuerId meth privateKey of
        Inl err \<Rightarrow> (Some None, Some err)
      | Inr j \<Rightarrow> (Some (Some j), None))"

record jwt_plain =
  jp_Secret :: string
  jp_PrivateKey :: string
  jp_Algorithm :: string

text \<open>The algorithm that fits the key; \<open>block.Bytes\<close> is read whether a block was found or not.\<close>

definition infer_algorithm :: "('r, 'e, 'c) jwt_lib \<Rightarrow> jwt_plain \<Rightarrow> string result go" where
  "infer_algorithm lib c =
     (if jp_Algorithm c \<noteq> [] then Ret (Inr (jp_Algorithm c))
      else if jp_PrivateKey c \<noteq> [] then
        (case jl_PemDecode lib (jp_PrivateKey c) of
           None \<Rightarrow> Panic nil_deref
         | Some bs \<Rightarrow>
             if jl_PKCS1 lib bs then Ret (Inr ''RS256'')
             else if jl_SEC1 lib bs then Ret (Inr ''ES256'')
             else (case jl_PKCS8 lib bs of
                     PKCS8Error \<Rightarrow> Ret (Inr [])
                   | PKCS8EC \<Rightarrow> Ret (Inr ''ES256'')
                   | PKCS8RSA \<Rightarrow> Ret (Inr ''RS256'')
                   | PKCS8Other t \<Rightarrow> Ret (Inl (''unsupported private key type: '' @ t))))
      else if jp_Secret c \<noteq> [] then Ret (Inr ''HS256'')
      else Ret (Inr []))"

definition JWTConfig_UnmarshalJSON ::
    "(string \<Rightarrow> jwt_plain result) \<Rightarrow> ('r, 'e, 'c) jwt_lib \<Rightarrow> ('r, 'e) JWTConfig \<Rightarrow> string \<Rightarrow>
     (('r, 'e) JWTConfig \<times> gerror option) go" where
  "JWTConfig_UnmarshalJSON json_Unmarshal lib j bytes =
     (case json_Unmarshal bytes of
        Inl err \<Rightarrow> Ret (j, Some err)
      | Inr c \<Rightarrow>
          go_bind (infer_algorithm lib c) (\<lambda>r. case r of
            Inl err \<Rightarrow> Ret (j, Some err)
          | Inr alg \<Rightarrow>
              (case NewJWTConfig lib [] alg (DefaultString [jp_PrivateKey c, jp_Secret c]) of
                 Inl err \<Rightarrow> Ret (j, Some err)
               | Inr issuer \<Rightarrow> Ret (issuer, None))))"

text \<open>
  The generated secret is 2048 random bytes, the generated keys are PEM texts: \<open>rand\<close>, \<open>rsa_pem\<close> and \<open>ec_pem\<close>
  are the results of generating and, for the keys, encoding them; a curve key is always one of P-256.
\<close>

definition NewRandomKey :: "string result \<Rightarrow> string result \<Rightarrow> (nat \<Rightarrow> string result) \<Rightarrow> string \<Rightarrow> string result" where
  "NewRandomKey rand rsa_pem ec_pem meth =
     (if meth \<in> {''HS256'', ''HS384'', ''HS512''} then rand
      else if meth \<in> {''RS256'', ''RS384'', ''RS512''} then rsa_pem
      else if meth \<in> {''ES256'', ''ES384'', ''ES512''} then ec_pem 256
      else Inl (''invalid algorithm: '' @ meth))"

definition NewRandomRSAJWTConfig :: "'r result \<Rightarrow> ('r, 'e) JWTConfig result" where
  "NewRandomRSAJWTConfig GenerateKey =
     (case GenerateKey of
        Inl err \<Rightarrow> Inl err
      | Inr k \<Rightarrow> Inr \<lparr>jc_PrivateKey = RSAKey k, jc_PublicKey = RSAPublic k, jc_Algorithm = RS 256, jc_Issuer = []\<rparr>)"

definition NewJWTConfigBySecret :: "string \<Rightarrow> ('r, 'e) JWTConfig result" where
  "NewJWTConfigBySecret secret =
     Inr \<lparr>jc_PrivateKey = SecretKey secret, jc_PublicKey = NilPublic, jc_Algorithm = HS 256, jc_Issuer = []\<rparr>"

text \<open>The issuer that \<open>issuerFunc\<close> finds may be nil.\<close>

definition ParseWithClaims ::
    "('r, 'e, 'c) jwt_lib \<Rightarrow> string \<Rightarrow> ('c token \<Rightarrow> ('r, 'e) JWTConfig option result) \<Rightarrow> 'c token result go" where
  "ParseWithClaims lib tokenString issuerFunc =
     (case jl_ParseUnverified lib tokenString of
        Inl err \<Rightarrow> Ret (Inl err)
      | Inr (token, parts) \<Rightarrow>
          if parts < 3 then Ret (Inl ''invalid token'')
          else (case issuerFunc token of
                  Inl err \<Rightarrow> Ret (Inl err)
                | Inr None \<Rightarrow> Panic nil_deref
                | Inr (Some issuer) \<Rightarrow> Ret (JWTConfig_ParseWithClaims lib issuer tokenString)))"

section \<open>The standard claims\<close>

record StandardClaims =
  sc_Issuer :: string
  sc_Subject :: string
  sc_Audience :: "string list"
  sc_ExpiresAt :: "int option"
  sc_NotBefore :: "int option"
  sc_IssuedAt :: "int option"
  sc_ID :: string

definition GetExpirationTime :: "StandardClaims \<Rightarrow> int option \<times> gerror option" where
  "GetExpirationTime c = (sc_ExpiresAt c, None)"

definition GetIssuedAt :: "StandardClaims \<Rightarrow> int option \<times> gerror option" where
  "GetIssuedAt c = (sc_IssuedAt c, None)"

definition GetNotBefore :: "StandardClaims \<Rightarrow> int option \<times> gerror option" where
  "GetNotBefore c = (sc_NotBefore c, None)"

definition GetIssuer :: "StandardClaims \<Rightarrow> string \<times> gerror option" where
  "GetIssuer c = (sc_Issuer c, None)"

definition GetSubject :: "StandardClaims \<Rightarrow> string \<times> gerror option" where
  "GetSubject c = (sc_Subject c, None)"

definition GetAudience :: "StandardClaims \<Rightarrow> string list \<times> gerror option" where
  "GetAudience c = (sc_Audience c, None)"

definition StandardClaims_Valid :: "(StandardClaims \<Rightarrow> gerror option) \<Rightarrow> StandardClaims \<Rightarrow> gerror option" where
  "StandardClaims_Valid Validate c = Validate c"

definition StandardClaims_SetIssuer :: "string \<Rightarrow> StandardClaims \<Rightarrow> StandardClaims" where
  "StandardClaims_SetIssuer issuer c = c\<lparr>sc_Issuer := issuer\<rparr>"

section \<open>The typing of configurations\<close>

text \<open>A private key signs with a method when its kind is that of the method; a key verifies likewise.\<close>

fun signs_with :: "('r, 'e) private_key \<Rightarrow> SigningMethod \<Rightarrow> bool" where
  "signs_with (SecretKey s) (HS n) = True"
| "signs_with (RSAKey k) (RS n) = True"
| "signs_with (ECKey k) (ES n) = True"
| "signs_with _ _ = False"

fun verifies_with :: "('r, 'e) verify_key \<Rightarrow> SigningMethod \<Rightarrow> bool" where
  "verifies_with (VPrivate (SecretKey s)) (HS n) = True"
| "verifies_with (VPublic (RSAPublic k)) (RS n) = True"
| "verifies_with (VPublic (ECPublic k)) (ES n) = True"
| "verifies_with _ _ = False"

text \<open>The verifying key that belongs to a private key.\<close>

fun verify_key_of :: "('r, 'e) private_key \<Rightarrow> ('r, 'e) verify_key" where
  "verify_key_of NilKey = VPrivate NilKey"
| "verify_key_of (SecretKey s) = VPrivate (SecretKey s)"
| "verify_key_of (RSAKey k) = VPublic (RSAPublic k)"
| "verify_key_of (ECKey k) = VPublic (ECPublic k)"

text \<open>A configuration is well typed when its algorithm, its private key and its public key belong together.\<close>

fun well_typed :: "('r, 'e, 'c) jwt_lib \<Rightarrow> ('r, 'e) private_key \<Rightarrow> ('r, 'e) public_key \<Rightarrow> SigningMethod \<Rightarrow> bool" where
  "well_typed lib (SecretKey s) pub (HS n) = (pub = NilPublic)"
| "well_typed lib (RSAKey k) pub (RS n) = (pub = RSAPublic k)"
| "well_typed lib (ECKey k) pub (ES n) = (pub = ECPublic k \<and> jl_BitSize lib k = n)"
| "well_typed lib _ _ _ = False"

definition config_ok :: "('r, 'e, 'c) jwt_lib \<Rightarrow> ('r, 'e) JWTConfig \<Rightarrow> bool" where
  "config_ok lib j \<longleftrightarrow> well_typed lib (jc_PrivateKey j) (jc_PublicKey j) (jc_Algorithm j)"

lemma well_typed_cases [consumes 1, case_names secret rsa ec]:
  assumes "well_typed lib k pub m"
  obtains s n where "k = SecretKey s" "m = HS n" "pub = NilPublic"
  | r n where "k = RSAKey r" "m = RS n" "pub = RSAPublic r"
  | e n where "k = ECKey e" "m = ES n" "pub = ECPublic e" "jl_BitSize lib e = n"
  using assms by (cases "(lib, k, pub, m)" rule: well_typed.cases) auto

lemma config_ok_signs: "config_ok lib j \<Longrightarrow> signs_with (jc_PrivateKey j) (jc_Algorithm j)"
  unfolding config_ok_def by (cases rule: well_typed_cases) auto

lemma config_ok_keyfunc: "config_ok lib j \<Longrightarrow> keyfunc j (jc_Algorithm j) = Inr (verify_key_of (jc_PrivateKey j))"
  unfolding config_ok_def by (cases rule: well_typed_cases) (auto simp: keyfunc_def)

lemma NewJWTConfig_methods:
  assumes "NewJWTConfig lib issuer meth key = Inr j"
  shows "config_ok lib j \<and> jc_Issuer j = issuer \<and>
    (case jc_Algorithm j of
       HS n \<Rightarrow> map_of tokenAlgorithmMap meth = Some (HS n) \<and> jc_PrivateKey j = SecretKey key
     | RS n \<Rightarrow> map_of tokenAlgorithmMap meth = Some (RS n)
     | ES n \<Rightarrow> (\<exists>m. map_of tokenAlgorithmMap meth = Some (ES m))
     | OtherMethod s \<Rightarrow> False)"
proof -
  obtain alg where "map_of tokenAlgorithmMap meth = Some alg"
    using assms by (cases "map_of tokenAlgorithmMap meth") (auto simp: NewJWTConfig_def)
  then consider "meth = ''HS256''" | "meth = ''HS384''" | "meth = ''HS512''" | "meth = ''RS256''" | "meth = ''RS384''"
    | "meth = ''RS512''" | "meth = ''ES256''" | "meth = ''ES384''" | "meth = ''ES512''"
    by (auto simp: tokenAlgorithmMap_def split: if_splits)
  then show ?thesis
    by cases (use assms in \<open>auto simp: NewJWTConfig_def tokenAlgorithmMap_def config_ok_def Let_def split: sum.splits if_splits\<close>)
qed

lemma UnmarshalJSON_config:
  assumes "JWTConfig_UnmarshalJSON json lib j0 bytes = Ret (j, None)"
  obtains c :: jwt_plain and alg where "NewJWTConfig lib [] alg (DefaultString [jp_PrivateKey c, jp_Secret c]) = Inr j"
proof -
  obtain c where c: "json bytes = Inr c" using assms by (cases "json bytes") (auto simp: JWTConfig_UnmarshalJSON_def)
  obtain r where r: "infer_algorithm lib c = Ret r"
    using assms c by (cases "infer_algorithm lib c") (auto simp: JWTConfig_UnmarshalJSON_def)
  obtain alg where alg: "r = Inr alg" using assms c r by (cases r) (auto simp: JWTConfig_UnmarshalJSON_def)
  show thesis using that [of alg c] assms c r alg
    by (cases "NewJWTConfig lib [] alg (DefaultString [jp_PrivateKey c, jp_Secret c])")
       (auto simp: JWTConfig_UnmarshalJSON_def simp del: DefaultString.simps)
qed

section \<open>What is relied on\<close>

text \<open>
  The documented behaviour of \<open>golang-jwt\<close>: signing succeeds with a key of the method's kind; a signed token is
  parsed when the key function gives the matching key and the claims are valid; and a token is only accepted
  when the key function gave a key for its method that is of the method's kind.
\<close>

definition jwt_laws :: "('r, 'e, 'c) jwt_lib \<Rightarrow> ('c \<Rightarrow> bool) \<Rightarrow> bool" where
  "jwt_laws lib valid \<longleftrightarrow>
     (\<forall>k m c. signs_with k m \<longrightarrow> (\<exists>t. jl_SignedString lib m c k = Inr t)) \<and>
     (\<forall>k m c t kf. jl_SignedString lib m c k = Inr t \<longrightarrow> kf m = Inr (verify_key_of k) \<longrightarrow> valid c \<longrightarrow>
        jl_Parse lib t kf = Inr \<lparr>tk_Method = m, tk_Claims = c\<rparr>) \<and>
     (\<forall>t kf tok. jl_Parse lib t kf = Inr tok \<longrightarrow>
        (\<exists>vk. kf (tk_Method tok) = Inr vk \<and> verifies_with vk (tk_Method tok)))"

text \<open>The sizes of the curves that the standard library has keys for.\<close>

definition go_curves :: "('r, 'e, 'c) jwt_lib \<Rightarrow> bool" where
  "go_curves lib \<longleftrightarrow> (\<forall>k. jl_BitSize lib k \<in> {224, 256, 384, 521})"

text \<open>An instance: a token is the method's letter, its size in unary, a dot and the claims, and keys are sizes.\<close>

definition toy_encode :: "SigningMethod \<Rightarrow> string \<Rightarrow> string" where
  "toy_encode m c =
     (case m of
        HS n \<Rightarrow> CHR ''H'' # replicate n (CHR ''1'') @ CHR ''.'' # c
      | RS n \<Rightarrow> CHR ''R'' # replicate n (CHR ''1'') @ CHR ''.'' # c
      | ES n \<Rightarrow> CHR ''E'' # replicate n (CHR ''1'') @ CHR ''.'' # c
      | OtherMethod s \<Rightarrow> ''X'')"

fun toy_decode :: "string \<Rightarrow> (SigningMethod \<times> string) option" where
  "toy_decode [] = None"
| "toy_decode (f # r) =
     (case Cut r (CHR ''.'') of (ones, c, found) \<Rightarrow>
        if f = CHR ''H'' then Some (HS (length ones), c)
        else if f = CHR ''R'' then Some (RS (length ones), c)
        else if f = CHR ''E'' then Some (ES (length ones), c)
        else None)"

definition toy_lib :: "(nat, nat, string) jwt_lib" where
  "toy_lib = \<lparr>jl_ParseRSA = (\<lambda>s. Inr (length s)), jl_ParseEC = (\<lambda>s. Inr (if s = ''P521'' then 521 else 256)),
     jl_BitSize = (\<lambda>k. if k \<in> {224, 384, 521} then k else 256),
     jl_PemDecode = (\<lambda>s. if s = ''no pem'' then None else Some []),
     jl_PKCS1 = (\<lambda>_. True), jl_SEC1 = (\<lambda>_. False), jl_PKCS8 = (\<lambda>_. PKCS8Error),
     jl_SignedString = (\<lambda>m c k. if signs_with k m then Inr (toy_encode m c) else Inl ''key''),
     jl_Parse = (\<lambda>t kf. case toy_decode t of
         None \<Rightarrow> Inl ''token''
       | Some (m, c) \<Rightarrow>
           (case kf m of Inl e \<Rightarrow> Inl e
            | Inr vk \<Rightarrow> if verifies_with vk m then Inr \<lparr>tk_Method = m, tk_Claims = c\<rparr> else Inl ''key'')),
     jl_ParseUnverified = (\<lambda>t. case toy_decode t of None \<Rightarrow> Inl ''token'' | Some (m, c) \<Rightarrow> Inr (\<lparr>tk_Method = m, tk_Claims = c\<rparr>, 3))\<rparr>"

lemma toy_decode_encode: "signs_with k m \<Longrightarrow> toy_decode (toy_encode m c) = Some (m, c)"
  by (cases "(k, m)" rule: signs_with.cases) (simp_all add: toy_encode_def)

lemma verify_key_of_verifies: "signs_with k m \<Longrightarrow> verifies_with (verify_key_of k) m"
  by (cases "(k, m)" rule: signs_with.cases) simp_all

lemma toy_laws: "jwt_laws toy_lib (\<lambda>_. True)" "go_curves toy_lib"
  by (auto simp: jwt_laws_def toy_lib_def toy_decode_encode verify_key_of_verifies go_curves_def
      split: if_splits option.splits sum.splits)

section \<open>Properties\<close>

text \<open>C18: Every configuration that the package makes is well typed: the private key is of the kind that the
  algorithm signs with, the public key is its own (and absent for a secret), and an elliptic curve key has the
  size of the algorithm.\<close>

theorem jwt_config_typed:
  "(NewJWTConfig lib issuer meth key = Inr j \<longrightarrow> config_ok lib j \<and> jc_Issuer j = issuer) \<and>
   (NewRandomRSAJWTConfig gen = Inr j \<longrightarrow> config_ok lib j) \<and>
   (NewJWTConfigBySecret secret = Inr j \<longrightarrow> config_ok lib j) \<and>
   (JWTConfig_UnmarshalJSON json lib j0 bytes = Ret (j, None) \<longrightarrow> config_ok lib j)"
proof (intro conjI impI)
  assume "JWTConfig_UnmarshalJSON json lib j0 bytes = Ret (j, None)"
  then obtain c :: jwt_plain and alg where "NewJWTConfig lib [] alg (DefaultString [jp_PrivateKey c, jp_Secret c]) = Inr j"
    by (rule UnmarshalJSON_config)
  then show "config_ok lib j" using NewJWTConfig_methods by blast
next
  assume "NewJWTConfig lib issuer meth key = Inr j"
  from NewJWTConfig_methods [OF this] show "config_ok lib j" "jc_Issuer j = issuer" by blast+
qed (auto simp: NewRandomRSAJWTConfig_def NewJWTConfigBySecret_def config_ok_def split: sum.splits)

theorem jwt_config_typed_witness:
  "\<exists>j. NewJWTConfig toy_lib ''iss'' ''ES384'' ''pem'' = Inr j \<and> config_ok toy_lib j \<and> jc_Issuer j = ''iss''"
proof -
  obtain j where j: "NewJWTConfig toy_lib ''iss'' ''ES384'' ''pem'' = Inr j"
    by (simp add: NewJWTConfig_def toy_lib_def tokenAlgorithmMap_def Let_def)
  then show ?thesis
    using conjunct1 [OF jwt_config_typed [of toy_lib "''iss''" "''ES384''" "''pem''" j]] by blast
qed



text \<open>Methods with keys of the same kind.\<close>

fun same_family :: "SigningMethod \<Rightarrow> SigningMethod \<Rightarrow> bool" where
  "same_family (HS m) (HS n) = True"
| "same_family (RS m) (RS n) = True"
| "same_family (ES m) (ES n) = True"
| "same_family _ _ = False"



text \<open>ES512 cannot be used: no key of a curve of the standard library gives that algorithm, and a P-521 key
  is refused. A key made for ES384 or ES512 by NewRandomKey is a P-256 key, for which the algorithm becomes
  ES256. And a private key that is not PEM makes UnmarshalJSON panic when no algorithm is given.\<close>

theorem jwt_key_errors:
  assumes "go_curves lib"
  shows "(NewJWTConfig lib issuer meth key = Inr j \<longrightarrow> jc_Algorithm j \<noteq> ES 512) \<and>
    (jl_ParseEC lib key = Inr k \<and> jl_BitSize lib k = 521 \<longrightarrow>
       NewJWTConfig lib issuer ''ES512'' key = Inl (''invalid ecdsa curve size: '' @ Itoa_nat 521)) \<and>
    (NewRandomKey rand rsa_pem ec_pem ''ES512'' = ec_pem 256) \<and>
    (jl_ParseEC lib key = Inr k \<and> jl_BitSize lib k = 256 \<longrightarrow>
       (\<exists>j. NewJWTConfig lib issuer ''ES512'' key = Inr j \<and> jc_Algorithm j = ES 256)) \<and>
    (json bytes = Inr \<lparr>jp_Secret = secret, jp_PrivateKey = c # cs, jp_Algorithm = []\<rparr> \<and> jl_PemDecode lib (c # cs) = None \<longrightarrow>
       JWTConfig_UnmarshalJSON json lib j0 bytes = Panic nil_deref)"
proof (intro conjI impI)
  assume new: "NewJWTConfig lib issuer meth key = Inr j"
  show "jc_Algorithm j \<noteq> ES 512"
  proof
    assume alg: "jc_Algorithm j = ES 512"
    have "config_ok lib j" using NewJWTConfig_methods [OF new] by blast
    then obtain e where e: "jl_BitSize lib e = 512" using alg unfolding config_ok_def by (cases rule: well_typed_cases) auto
    have "jl_BitSize lib e \<in> {224, 256, 384, 521}" using assms by (simp add: go_curves_def)
    then show False using e by simp
  qed
qed (simp_all add: NewJWTConfig_def tokenAlgorithmMap_def Let_def NewRandomKey_def JWTConfig_UnmarshalJSON_def infer_algorithm_def)

theorem jwt_key_errors_witness:
  "NewJWTConfig toy_lib [] ''ES512'' ''P521'' = Inl (''invalid ecdsa curve size: '' @ Itoa_nat 521) \<and>
   JWTConfig_UnmarshalJSON (\<lambda>_. Inr \<lparr>jp_Secret = [], jp_PrivateKey = ''no pem'', jp_Algorithm = []\<rparr>) toy_lib
     \<lparr>jc_PrivateKey = NilKey, jc_PublicKey = NilPublic, jc_Algorithm = HS 256, jc_Issuer = []\<rparr> ''{}'' = Panic nil_deref"
proof -
  note e = jwt_key_errors [OF toy_laws(2)]
  have "jl_ParseEC toy_lib ''P521'' = Inr 521 \<and> jl_BitSize toy_lib 521 = 521" "jl_PemDecode toy_lib ''no pem'' = None"
    by (simp_all add: toy_lib_def)
  then show ?thesis
    using e [of "[]" "''ES512''" "''P521''" _ 521]
      e [where json = "\<lambda>_. Inr \<lparr>jp_Secret = [], jp_PrivateKey = ''no pem'', jp_Algorithm = []\<rparr>" and c = "CHR ''n''" and cs = "''o pem''"]
    by simp
qed

end
