(* ===== verification/Logging.thy ===== *)
theory Logging
  imports LogConfig Capacity Errors
begin

text \<open>
  Package \<open>log\<close> (\<open>log/log.go\<close>, \<open>ext.go\<close>, \<open>adapter.go\<close>, \<open>dynamic.go\<close>, \<open>flag/flag.go\<close>): the construction of
  loggers, the default and the context logger, the logger that prints raw values after a record, the tee, the
  writer adapter and the dynamic level. go-kit's wrappers are constructors of the type \<open>logger\<close>; files, the
  call stack and new identifiers are arguments.
\<close>

section \<open>Values of a record\<close>

text \<open>The dynamic types that the package tells apart among the keys and values of a record.\<close>

datatype kv =
    CallerKey
  | PrintKey
  | StrV string
  | StringerV string
  | NilV
  | OtherV string
  | ErrMissingValue
  | ValuerV string

type_synonym keyvals = "kv list"

definition TraceIdName :: string where "TraceIdName = ''traceId''"

definition callerName_String :: string where "callerName_String = ''caller''"

section \<open>ext.go\<close>

text \<open>What \<open>writeln\<close> writes: the value, and a newline of its own when it does not end in one.\<close>

definition newline :: char where "newline = CHR 0x0A"

definition writeln :: "string \<Rightarrow> string list" where
  "writeln v =
     (if length v > 0 then [v] @ (if v ! (length v - 1) \<noteq> newline then [[newline]] else []) else [])"

text \<open>The loop over the keys: the record, and the values to print.\<close>

function ext_loop :: "keyvals \<Rightarrow> nat \<Rightarrow> int \<Rightarrow> kv list \<Rightarrow> (keyvals \<times> kv list) go" where
  "ext_loop kvs i callerIndex values =
     (if i < length kvs then
        if i + 1 < length kvs then
          (let key = kvs ! i; val = kvs ! (i + 1) in
           case key of
             CallerKey \<Rightarrow>
               if callerIndex < 0 then ext_loop kvs (i + 2) (int i) values
               else
                 let kvs' = kvs[nat callerIndex + 1 := val] in
                 ext_loop (take i kvs' @ drop (i + 2) kvs') i callerIndex values
           | PrintKey \<Rightarrow> ext_loop (take i kvs @ drop (i + 2) kvs) i callerIndex (values @ [val])
           | _ \<Rightarrow> ext_loop kvs (i + 2) callerIndex values)
        else Panic out_of_range
      else Ret (kvs, values))"
  by pat_completeness auto

termination
  by (relation "measure (\<lambda>(kvs, i, callerIndex, values). length kvs - i)") auto

declare ext_loop.simps [simp del]

text \<open>The text of a value that is printed; \<open>nil\<close> prints nothing.\<close>

definition print_text :: "kv \<Rightarrow> string" where
  "print_text v =
     (case v of
        StrV s \<Rightarrow> s
      | StringerV s \<Rightarrow> s
      | OtherV s \<Rightarrow> s
      | CallerKey \<Rightarrow> callerName_String
      | PrintKey \<Rightarrow> ''log.withPrint{}''
      | ErrMissingValue \<Rightarrow> ''&errors.errorString{s:'' @ quote ''(MISSING)'' @ ''}''
      | ValuerV s \<Rightarrow> s
      | NilV \<Rightarrow> [])"

text \<open>
  \<open>Log\<close>: the record that goes to the inner logger, then what the deferred function writes, whatever the inner
  logger returns.
\<close>

definition extLogger_Log :: "keyvals \<Rightarrow> (keyvals \<times> string list) go" where
  "extLogger_Log keyvals0 =
     (let kvs = (if length keyvals0 mod 2 \<noteq> 0 then keyvals0 @ [ErrMissingValue] else keyvals0) in
      go_bind (ext_loop kvs 0 (- 1) []) (\<lambda>(kvs', values). Ret (kvs', concat (map (\<lambda>v. writeln (print_text v)) values))))"

section \<open>Loggers\<close>

datatype writer = Stdin | Stdout | Stderr | File string | RotateFile string int int64 int | Given nat

text \<open>A base logger is made by the constructor of a format; the others wrap a logger.\<close>

datatype 'c logger =
    BaseLogger 'c writer
  | LogfmtLogger writer
  | ExtLogger "'c logger" writer
  | WithLog "'c logger option" keyvals
  | LevelFilter level_option "'c logger"
  | NopLogger
  | Tee "'c logger list"
  | OtherLogger nat

text \<open>The options that the constructors take; a pointer that is nil is \<open>None\<close>.\<close>

record 'c newLoggerOptions =
  lo_traceId :: string
  lo_l :: "'c logger option"
  lo_w :: "writer option"
  lo_kvs :: keyvals
  lo_config :: "Config option"

type_synonym 'c NewLoggerOption = "'c newLoggerOptions \<Rightarrow> 'c newLoggerOptions"

definition WithTraceId :: "string \<Rightarrow> 'c NewLoggerOption" where
  "WithTraceId traceId = (\<lambda>opts. opts\<lparr>lo_traceId := traceId\<rparr>)"

definition WithLogger :: "'c logger option \<Rightarrow> 'c NewLoggerOption" where
  "WithLogger l = (\<lambda>opts. opts\<lparr>lo_l := l\<rparr>)"

definition WithWriter :: "writer option \<Rightarrow> 'c NewLoggerOption" where
  "WithWriter w = (\<lambda>opts. opts\<lparr>lo_w := w\<rparr>)"

definition WithConfig :: "Config option \<Rightarrow> 'c NewLoggerOption" where
  "WithConfig c = (\<lambda>opts. opts\<lparr>lo_config := c\<rparr>)"

definition WithKeyValues :: "keyvals \<Rightarrow> 'c NewLoggerOption" where
  "WithKeyValues kvs = (\<lambda>opts. opts\<lparr>lo_kvs := kvs\<rparr>)"

definition zero_options :: "'c newLoggerOptions" where
  "zero_options = \<lparr>lo_traceId = [], lo_l = None, lo_w = None, lo_kvs = [], lo_config = None\<rparr>"

definition apply_options :: "'c NewLoggerOption list \<Rightarrow> 'c newLoggerOptions \<Rightarrow> 'c newLoggerOptions" where
  "apply_options opts o0 = foldl (\<lambda>acc opt. opt acc) o0 opts"

section \<open>The writer of a configuration\<close>

text \<open>\<open>os.Stat\<close>: the file is missing, it cannot be looked at, or whether its mode has type bits.\<close>

datatype stat_result = NotExist | StatError gerror | ModeType bool

record log_fs =
  fs_Stat :: "string \<Rightarrow> stat_result"
  fs_OpenFile :: "string \<Rightarrow> gerror option"
  fs_Rotate :: "string \<Rightarrow> int \<Rightarrow> int64 \<Rightarrow> int \<Rightarrow> gerror option"

definition rotation_size :: "string \<Rightarrow> int64" where
  "rotation_size size_text =
     (if size_text \<noteq> [] \<and> size_text \<noteq> ''0'' then
        (case ParseCapacities size_text of (c, None) \<Rightarrow> c | (c, Some err) \<Rightarrow> 0)
      else 0)"

definition newWriterFromConfig :: "log_fs \<Rightarrow> Config \<Rightarrow> writer" where
  "newWriterFromConfig lib c =
     (if length (FilePath c) \<noteq> 0 then
        if FilePath c = ''/dev/stdin'' then Stdin
        else if FilePath c = ''/dev/stdout'' then Stdout
        else if FilePath c = ''/dev/stderr'' then Stderr
        else
          (case fs_Stat lib (FilePath c) of
             StatError err \<Rightarrow> Stdout
           | ModeType True \<Rightarrow> (case fs_OpenFile lib (FilePath c) of None \<Rightarrow> File (FilePath c) | Some err \<Rightarrow> Stdout)
           | _ \<Rightarrow>
               let fileRotationSize = rotation_size (FileRotationSize c) in
               (case fs_Rotate lib (FilePath c) (FileMaxAge c) fileRotationSize (FileRotationTime c) of
                  None \<Rightarrow> RotateFile (FilePath c) (FileMaxAge c) fileRotationSize (FileRotationTime c)
                | Some err \<Rightarrow> Stdout))
      else Stdout)"

text \<open>
  \<open>New\<close>: the missing format and level are written into the configuration, which may be the shared default;
  the result is the logger, the configuration with its defaults, and whether a warning was logged. A registered
  constructor has the type of a constructor, so the inner assertion cannot fail.
\<close>

definition config_defaults :: "Config \<Rightarrow> Config" where
  "config_defaults c =
     c\<lparr>cfg_Format := (case cfg_Format c of None \<Rightarrow> Some FormatLogfmt | Some f \<Rightarrow> Some f),
       cfg_Level := (case cfg_Level c of None \<Rightarrow> Some LevelInfo | Some l \<Rightarrow> Some l)\<rparr>"

definition New_logger ::
    "log_fs \<Rightarrow> 'c formats \<Rightarrow> Config \<Rightarrow> 'c NewLoggerOption list \<Rightarrow> 'c logger \<times> Config \<times> bool" where
  "New_logger lib formats DefaultLoggerConfig opts =
     (let opt = apply_options opts zero_options;
          config = config_defaults (case lo_config opt of None \<Rightarrow> DefaultLoggerConfig | Some c \<Rightarrow> c);
          w = (case lo_w opt of None \<Rightarrow> newWriterFromConfig lib config | Some w \<Rightarrow> w);
          fmt = the (cfg_Format config);
          (l, warned) = (case map_of formats fmt of
              Some createFunc \<Rightarrow> (BaseLogger createFunc w, False)
            | None \<Rightarrow> (LogfmtLogger w, True)) in
      (LevelFilter (getOption (the (cfg_Level config)))
         (WithLog (Some (ExtLogger l w)) [StrV ''ts'', ValuerV ''TimestampFormat'', CallerKey, ValuerV ''DefaultCaller'']),
       config, warned))"

section \<open>The default logger\<close>

record 'c log_state =
  rootLogger :: "'c logger option"
  rootLoggerOnce :: bool

definition SetDefaultLogger :: "'c logger option \<Rightarrow> 'c log_state \<Rightarrow> 'c log_state" where
  "SetDefaultLogger l s = s\<lparr>rootLogger := l\<rparr>"

definition GetDefaultLogger :: "'c logger \<Rightarrow> 'c log_state \<Rightarrow> 'c log_state \<times> 'c logger option" where
  "GetDefaultLogger fresh s =
     (let s' = (if rootLoggerOnce s then s
                else s\<lparr>rootLogger := (case rootLogger s of None \<Rightarrow> Some fresh | Some l \<Rightarrow> Some l), rootLoggerOnce := True\<rparr>) in
      (s', rootLogger s'))"

text \<open>go-kit's \<open>With\<close> returns its argument when no keys are given; a nil logger is wrapped all the same.\<close>

definition With :: "'c logger option \<Rightarrow> keyvals \<Rightarrow> 'c logger option" where
  "With l kvs = (if kvs = [] then l else Some (WithLog l kvs))"

section \<open>Trace and context loggers\<close>

text \<open>\<open>fresh_id\<close> is the identifier that \<open>NewTraceId\<close> returns, \<open>fresh\<close> the logger that \<open>New()\<close> makes.\<close>

definition NewTraceLogger ::
    "string \<Rightarrow> 'c logger \<Rightarrow> 'c NewLoggerOption list \<Rightarrow> 'c log_state \<Rightarrow> 'c log_state \<times> 'c logger option" where
  "NewTraceLogger fresh_id fresh options s =
     (let opt = apply_options options (zero_options\<lparr>lo_traceId := fresh_id, lo_l := rootLogger s\<rparr>) in
      case lo_l opt of
        None \<Rightarrow>
          (case GetDefaultLogger fresh s of (s', l) \<Rightarrow> (s', With l [StrV TraceIdName, StrV (lo_traceId opt)]))
      | Some l \<Rightarrow>
          (s, With (if length (lo_kvs opt) \<noteq> 0 then With (Some l) (lo_kvs opt) else Some l)
                [StrV TraceIdName, StrV (lo_traceId opt)]))"

datatype ctx_key = ContextTraceId | ContextLogger | OtherKey nat

datatype 'c ctx_val = CtxString string | CtxLogger "'c logger option" | CtxOther

type_synonym 'c log_context = "ctx_key \<Rightarrow> 'c ctx_val option"

text \<open>A value of another type, or none, counts as the empty text.\<close>

definition GetTraceId :: "string \<Rightarrow> 'c log_context \<Rightarrow> string" where
  "GetTraceId fresh_id ctx =
     (let s = (case ctx ContextTraceId of Some (CtxString s) \<Rightarrow> s | _ \<Rightarrow> []) in
      if length s = 0 then fresh_id else s)"

definition NewContextLogger ::
    "string \<Rightarrow> string \<Rightarrow> 'c logger \<Rightarrow> 'c log_context \<Rightarrow> 'c NewLoggerOption list \<Rightarrow> 'c log_state \<Rightarrow>
     'c log_state \<times> 'c log_context \<times> 'c logger option" where
  "NewContextLogger fresh_id other_id fresh parent opts s =
     (let o0 = apply_options opts zero_options;
          o1 = (if length (lo_traceId o0) = 0 then o0\<lparr>lo_traceId := fresh_id\<rparr> else o0);
          (s', l0) = (case lo_l o1 of
              None \<Rightarrow> NewTraceLogger other_id fresh [WithTraceId (lo_traceId o1)] s
            | Some l \<Rightarrow> (s, Some l));
          l1 = (if length (lo_kvs o1) \<noteq> 0 then With l0 (lo_kvs o1) else l0) in
      (s', parent(ContextTraceId := Some (CtxString (lo_traceId o1)), ContextLogger := Some (CtxLogger l1)), l1))"

text \<open>The type assertion to a logger fails for nil. An option wraps the logger.\<close>

type_synonym 'c LogOption = "'c logger option \<Rightarrow> 'c logger option"

definition GetContextLogger ::
    "string \<Rightarrow> 'c logger \<Rightarrow> 'c log_context \<Rightarrow> 'c LogOption list \<Rightarrow> 'c log_state \<Rightarrow> 'c log_state \<times> 'c logger option" where
  "GetContextLogger fresh_id fresh ctx options s =
     (case (case ctx ContextLogger of
              Some (CtxLogger (Some l)) \<Rightarrow> (s, Some l)
            | _ \<Rightarrow> NewTraceLogger fresh_id fresh [] s) of
        (s', l) \<Rightarrow> (s', foldl (\<lambda>l opt. opt l) l options))"

definition WithPrint :: "kv \<Rightarrow> 'c LogOption" where
  "WithPrint raw = (\<lambda>l. With l [PrintKey, raw])"

text \<open>The text of a call site; \<open>runtime.Caller\<close> gives the file and the line.\<close>

definition GetSourceCodeDir :: "string \<Rightarrow> string \<Rightarrow> string" where
  "GetSourceCodeDir currentFile codeRelativePath = TrimSuffix currentFile codeRelativePath"

definition callerFormatter :: "string \<Rightarrow> string \<Rightarrow> int \<Rightarrow> string" where
  "callerFormatter sourceDir f line = TrimPrefix f sourceDir @ '':'' @ Itoa line"

definition Caller :: "string \<Rightarrow> (int \<Rightarrow> string \<times> int) \<Rightarrow> int \<Rightarrow> string" where
  "Caller sourceDir runtime_Caller depth = (case runtime_Caller depth of (f, line) \<Rightarrow> callerFormatter sourceDir f line)"

definition WithCaller :: "string \<Rightarrow> 'c LogOption" where
  "WithCaller site = (\<lambda>l. With l [CallerKey, ValuerV site])"

text \<open>\<open>strings.SplitAfterN(s, sep, 2)\<close> for a separator of one byte.\<close>

definition SplitAfterN2 :: "string \<Rightarrow> char \<Rightarrow> string list" where
  "SplitAfterN2 s c = (case Cut s c of (b, a, found) \<Rightarrow> if found then [b @ [c], a] else [s])"

definition WithMethod :: "string \<Rightarrow> 'c LogOption" where
  "WithMethod FuncName =
     (let funcName = SplitAfterN2 FuncName (CHR ''.'') in
      (\<lambda>l. With l [StrV ''method'', StrV (funcName ! (length funcName - 1))]))"

definition KeyName_String :: "string \<Rightarrow> string" where
  "KeyName_String n = n"

definition WrapKeyName :: "string \<Rightarrow> kv" where
  "WrapKeyName nm = StringerV (KeyName_String nm)"

section \<open>The tee\<close>

definition nopLogger_Log :: "keyvals \<Rightarrow> err option" where
  "nopLogger_Log keyvals = None"

definition NewNopLogger :: "'c logger" where
  "NewNopLogger = NopLogger"

definition NewTeeLogger :: "'c logger list \<Rightarrow> 'c logger" where
  "NewTeeLogger lgs = Tee lgs"

text \<open>\<open>log\<close> is what one logger does to the world and the error it returns.\<close>

fun tee_loop :: "('l \<Rightarrow> keyvals \<Rightarrow> 'w \<Rightarrow> 'w \<times> err option) \<Rightarrow> keyvals \<Rightarrow> 'l list \<Rightarrow> 'w \<Rightarrow> Errors \<Rightarrow> 'w \<times> Errors" where
  "tee_loop log_of kvs [] w es = (w, es)"
| "tee_loop log_of kvs (l # ls) w es =
     (case log_of l kvs w of
        (w', None) \<Rightarrow> tee_loop log_of kvs ls w' es
      | (w', Some e) \<Rightarrow> tee_loop log_of kvs ls w' (Errors_Append es (Some e)))"

definition teeLogger_Log ::
    "('l \<Rightarrow> keyvals \<Rightarrow> 'w \<Rightarrow> 'w \<times> err option) \<Rightarrow> 'l list \<Rightarrow> keyvals \<Rightarrow> 'w \<Rightarrow> 'w \<times> Errors option" where
  "teeLogger_Log log_of t kvs w =
     (case tee_loop log_of kvs t w (NewErrors 500 [] []) of
        (w', es) \<Rightarrow> (w', if Errors_HasError es then Some es else None))"

section \<open>adapter.go\<close>

record 'l WriterAdapter =
  wa_l :: 'l
  wa_msgKey :: string
  wa_prefix :: string
  wa_joinPrefixToMsg :: bool

definition handleMessagePrefix :: "'l WriterAdapter \<Rightarrow> string \<Rightarrow> string" where
  "handleMessagePrefix a msg =
     (if wa_prefix a = [] then msg
      else
        let msg' = TrimPrefix msg (wa_prefix a) in
        if wa_joinPrefixToMsg a then wa_prefix a @ msg' else msg')"

text \<open>The record that is logged and the result; an error of the logger is ignored.\<close>

definition WriterAdapter_Write :: "'l WriterAdapter \<Rightarrow> string \<Rightarrow> (string \<times> string) \<times> nat \<times> gerror option" where
  "WriterAdapter_Write a p = ((wa_msgKey a, handleMessagePrefix a (TrimSuffix p [newline])), length p, None)"

definition MessageKey :: "string \<Rightarrow> 'l WriterAdapter \<Rightarrow> 'l WriterAdapter" where
  "MessageKey key a = a\<lparr>wa_msgKey := key\<rparr>"

definition Prefix :: "string \<Rightarrow> bool \<Rightarrow> 'l WriterAdapter \<Rightarrow> 'l WriterAdapter" where
  "Prefix p joinPrefixToMsg a = a\<lparr>wa_prefix := p, wa_joinPrefixToMsg := joinPrefixToMsg\<rparr>"

definition NewWriterAdapter :: "'l \<Rightarrow> ('l WriterAdapter \<Rightarrow> 'l WriterAdapter) list \<Rightarrow> 'l WriterAdapter" where
  "NewWriterAdapter l options =
     foldl (\<lambda>adapter option. option adapter) \<lparr>wa_l = l, wa_msgKey = ''msg'', wa_prefix = [], wa_joinPrefixToMsg = False\<rparr> options"

section \<open>dynamic.go\<close>

text \<open>\<open>leveled\<close> is the filter on the base logger; \<open>dl_notices\<close> the records that SetLevel itself logged.\<close>

record dynamic_logger =
  dl_json :: bool
  dl_leveled :: "level_option option"
  dl_currentLevel :: "AllowedLevel option"
  dl_notices :: "(AllowedLevel \<times> AllowedLevel) list"

definition SetLevel :: "AllowedLevel option \<Rightarrow> dynamic_logger \<Rightarrow> dynamic_logger go" where
  "SetLevel lvl l =
     (case lvl of
        None \<Rightarrow> Panic nil_deref
      | Some new \<Rightarrow>
          let l1 = (case dl_currentLevel l of
              Some cur \<Rightarrow> if cur \<noteq> new then l\<lparr>dl_notices := dl_notices l @ [(cur, new)]\<rparr> else l
            | None \<Rightarrow> l) in
          Ret (l1\<lparr>dl_currentLevel := Some new, dl_leveled := Some (getOption new)\<rparr>))"

definition newDynamic :: "Config \<Rightarrow> dynamic_logger go" where
  "newDynamic config =
     (let lo = \<lparr>dl_json = (cfg_Format config = Some ''json''), dl_leveled = None, dl_currentLevel = None, dl_notices = []\<rparr> in
      case cfg_Level config of None \<Rightarrow> Ret lo | Some lvl \<Rightarrow> SetLevel (Some lvl) lo)"

section \<open>flag/flag.go\<close>

definition LevelFlagName :: string where "LevelFlagName = ''log.level''"
definition FormatFlagName :: string where "FormatFlagName = ''log.format''"

text \<open>A flag that is declared: the variable it sets, its name and its default.\<close>

datatype flag_var = VarLevel | VarFormat | VarFilePath | VarRotationTime | VarMaxAge | VarRotationSize

datatype flag_decl = StringVar flag_var string string | DurationVar flag_var string int

definition hour :: int where "hour = 3600 * 1000000000"

definition AddFlags :: "Config option \<Rightarrow> Config \<Rightarrow> Config \<times> flag_decl list" where
  "AddFlags config DefaultLoggerConfig =
     (let c = (case config of None \<Rightarrow> DefaultLoggerConfig | Some c \<Rightarrow> c) in
      (c\<lparr>cfg_Level := Some [], cfg_Format := Some []\<rparr>,
       [StringVar VarLevel LevelFlagName LevelInfo, StringVar VarFormat FormatFlagName FormatLogfmt,
        StringVar VarFilePath ''log.file'' ''/dev/stderr'',
        DurationVar VarRotationTime ''log.file-rotation-time'' (hour * 24),
        DurationVar VarMaxAge ''log.file-max-age'' (hour * 24 * 7),
        StringVar VarRotationSize ''log.file-rotation-size'' ''100m'']))"

text \<open>What a flag set that stores the default does with the variables of the configuration.\<close>

fun store_flag :: "Config \<Rightarrow> flag_decl \<Rightarrow> Config" where
  "store_flag c (StringVar VarLevel n v) = c\<lparr>cfg_Level := Some v\<rparr>"
| "store_flag c (StringVar VarFormat n v) = c\<lparr>cfg_Format := Some v\<rparr>"
| "store_flag c (StringVar VarFilePath n v) = c\<lparr>FilePath := v\<rparr>"
| "store_flag c (StringVar VarRotationSize n v) = c\<lparr>FileRotationSize := v\<rparr>"
| "store_flag c (DurationVar VarRotationTime n d) = c\<lparr>FileRotationTime := d\<rparr>"
| "store_flag c (DurationVar VarMaxAge n d) = c\<lparr>FileMaxAge := d\<rparr>"
| "store_flag c _ = c"

section \<open>The loop of the extended logger\<close>

text \<open>A record as a list of pairs, a missing last value filled in.\<close>

fun pairs_of :: "keyvals \<Rightarrow> (kv \<times> kv) list" where
  "pairs_of [] = []"
| "pairs_of [k] = [(k, ErrMissingValue)]"
| "pairs_of (k # v # r) = (k, v) # pairs_of r"

definition flat :: "(kv \<times> kv) list \<Rightarrow> keyvals" where
  "flat ps = concat (map (\<lambda>(k, v). [k, v]) ps)"

lemma flat_simps [simp]: "flat [] = []" "flat ((k, v) # ps) = k # v # flat ps" "flat (ps @ qs) = flat ps @ flat qs"
  by (simp_all add: flat_def)

lemma length_flat [simp]: "length (flat ps) = 2 * length ps"
  by (induction ps) auto

lemma flat_pairs_of: "flat (pairs_of kvs) = (if length kvs mod 2 \<noteq> 0 then kvs @ [ErrMissingValue] else kvs)"
  by (induction kvs rule: pairs_of.induct) auto

lemma flat_update: "c < length ps \<Longrightarrow> (flat ps)[2 * c + 1 := v] = flat (ps[c := (fst (ps ! c), v)])"
proof (induction ps arbitrary: c)
  case (Cons p ps)
  then show ?case by (cases p; cases c) simp_all
qed simp

text \<open>The loop on pairs: \<open>dn\<close> is what stands before the index, \<open>ci\<close> the place of the first caller in it.\<close>

fun ext_pairs :: "(kv \<times> kv) list \<Rightarrow> nat option \<Rightarrow> kv list \<Rightarrow> (kv \<times> kv) list \<Rightarrow> (kv \<times> kv) list \<times> kv list" where
  "ext_pairs dn ci vals [] = (dn, vals)"
| "ext_pairs dn ci vals ((k, v) # todo) =
     (if k = PrintKey then ext_pairs dn ci (vals @ [v]) todo
      else if k = CallerKey then
        (case ci of
           None \<Rightarrow> ext_pairs (dn @ [(k, v)]) (Some (length dn)) vals todo
         | Some c \<Rightarrow> ext_pairs (dn[c := (fst (dn ! c), v)]) ci vals todo)
      else ext_pairs (dn @ [(k, v)]) ci vals todo)"

definition caller_index :: "nat option \<Rightarrow> int" where
  "caller_index ci = (case ci of None \<Rightarrow> - 1 | Some c \<Rightarrow> 2 * int c)"

lemma at_flat: "(flat dn @ k # v # r) ! (2 * length dn) = k" "(flat dn @ k # v # r) ! Suc (2 * length dn) = v"
  using nth_append_length [of "flat dn" k] nth_append_length [of "flat dn @ [k]" v] by simp_all

lemma step_print:
  "ext_loop (flat dn @ flat ((PrintKey, v) # todo)) (2 * length dn) i vals =
   ext_loop (flat dn @ flat todo) (2 * length dn) i (vals @ [v])"
  by (subst ext_loop.simps) (simp add: at_flat Let_def)

lemma step_first_caller:
  "ext_loop (flat dn @ flat ((CallerKey, v) # todo)) (2 * length dn) (caller_index None) vals =
   ext_loop (flat (dn @ [(CallerKey, v)]) @ flat todo) (2 * length (dn @ [(CallerKey, v)])) (caller_index (Some (length dn))) vals"
  by (subst ext_loop.simps) (simp add: at_flat Let_def caller_index_def)

lemma step_next_caller:
  assumes "c < length dn"
  shows "ext_loop (flat dn @ flat ((CallerKey, v) # todo)) (2 * length dn) (caller_index (Some c)) vals =
    ext_loop (flat (dn[c := (fst (dn ! c), v)]) @ flat todo) (2 * length dn) (caller_index (Some c)) vals"
proof -
  have upd: "(flat dn @ r)[Suc (2 * c) := v] = flat (dn[c := (fst (dn ! c), v)]) @ r" for r
    using flat_update [OF assms, of v] assms by (simp add: list_update_append)
  have len: "length (flat (dn[c := (fst (dn ! c), v)])) = 2 * length dn" by simp
  have idx: "nat (2 * int c) = 2 * c" by (simp add: nat_mult_distrib)
  show ?thesis by (subst ext_loop.simps) (simp add: at_flat Let_def caller_index_def idx upd)
qed

lemma step_plain:
  assumes "k \<noteq> PrintKey" "k \<noteq> CallerKey"
  shows "ext_loop (flat dn @ flat ((k, v) # todo)) (2 * length dn) i vals =
    ext_loop (flat (dn @ [(k, v)]) @ flat todo) (2 * length (dn @ [(k, v)])) i vals"
  using assms by (subst ext_loop.simps) (cases k; simp add: at_flat Let_def)

lemma ext_loop_pairs:
  "(\<And>c. ci = Some c \<Longrightarrow> c < length dn) \<Longrightarrow>
   ext_loop (flat dn @ flat todo) (2 * length dn) (caller_index ci) vals =
     (case ext_pairs dn ci vals todo of (dn', vals') \<Rightarrow> Ret (flat dn', vals'))"
proof (induction dn ci vals todo rule: ext_pairs.induct)
  case (1 dn ci vals)
  then show ?case by (simp add: ext_loop.simps)
next
  case (2 dn ci vals k v todo)
  consider (print) "k = PrintKey" | (first) "k = CallerKey" "ci = None" | (again) c where "k = CallerKey" "ci = Some c"
    | (plain) "k \<noteq> PrintKey" "k \<noteq> CallerKey" by (cases ci) auto
  then show ?case
  proof cases
    case print
    show ?thesis unfolding print step_print using 2(1) [OF print 2(5)] by simp
  next
    case first
    show ?thesis
      unfolding first step_first_caller using 2(2) [OF _ first] first by simp
  next
    case again
    then have c: "c < length dn" using 2(5) by blast
    show ?thesis unfolding again step_next_caller [OF c] using 2(3) [OF _ again] again c by simp
  next
    case plain
    have "\<And>c. ci = Some c \<Longrightarrow> c < length (dn @ [(k, v)])" using 2(5) by fastforce
    then show ?thesis unfolding step_plain [OF plain] using 2(4) [OF plain] plain by simp
  qed
qed

text \<open>What is kept of the callers, the printed values and the rest.\<close>

definition callers :: "(kv \<times> kv) list \<Rightarrow> kv list" where
  "callers ps = map snd (filter (\<lambda>p. fst p = CallerKey) ps)"

definition printed :: "(kv \<times> kv) list \<Rightarrow> kv list" where
  "printed ps = map snd (filter (\<lambda>p. fst p = PrintKey) ps)"

definition plain_pairs :: "(kv \<times> kv) list \<Rightarrow> (kv \<times> kv) list" where
  "plain_pairs ps = filter (\<lambda>p. fst p \<noteq> CallerKey \<and> fst p \<noteq> PrintKey) ps"

lemmas parts_defs = callers_def printed_def plain_pairs_def

lemma update_caller:
  assumes "c < length dn" "fst (dn ! c) = CallerKey" "callers dn = [x]"
  shows "callers (dn[c := (CallerKey, v)]) = [v]" "printed (dn[c := (CallerKey, v)]) = printed dn"
    "plain_pairs (dn[c := (CallerKey, v)]) = plain_pairs dn"
proof -
  have dn: "dn = take c dn @ (CallerKey, snd (dn ! c)) # drop (Suc c) dn"
    using id_take_nth_drop [OF assms(1)] assms(2) by (metis prod.collapse)
  have up: "dn[c := (CallerKey, v)] = take c dn @ (CallerKey, v) # drop (Suc c) dn"
    using assms(1) by (rule upd_conv_take_nth_drop)
  have "callers (take c dn) @ snd (dn ! c) # callers (drop (Suc c) dn) = [x]"
    using assms(3) by (subst (asm) dn) (simp add: callers_def)
  then have "callers (take c dn) = []" "callers (drop (Suc c) dn) = []" by (auto simp: append_eq_Cons_conv)
  then show "callers (dn[c := (CallerKey, v)]) = [v]" by (simp add: up callers_def)
  show "printed (dn[c := (CallerKey, v)]) = printed dn" unfolding up by (subst (3) dn) (simp add: printed_def)
  show "plain_pairs (dn[c := (CallerKey, v)]) = plain_pairs dn" unfolding up by (subst (3) dn) (simp add: plain_pairs_def)
qed

lemma ext_pairs_parts:
  assumes "ext_pairs dn ci vals todo = (dn', vals')" "printed dn = []"
    and "case ci of None \<Rightarrow> callers dn = [] | Some c \<Rightarrow> c < length dn \<and> fst (dn ! c) = CallerKey \<and> (\<exists>x. callers dn = [x])"
  shows "printed dn' = [] \<and> plain_pairs dn' = plain_pairs dn @ plain_pairs todo \<and> vals' = vals @ printed todo \<and>
    callers dn' = (let cs = callers dn @ callers todo in if cs = [] then [] else [last cs])"
  using assms
proof (induction dn ci vals todo rule: ext_pairs.induct)
  case (1 dn ci vals)
  then show ?case by (auto simp: parts_defs split: option.splits)
next
  case (2 dn ci vals k v todo)
  show ?case
  proof (cases "k = CallerKey")
    case True
    show ?thesis
    proof (cases ci)
      case None
      then show ?thesis using 2(2) 2(5-7) True by (simp add: parts_defs Let_def)
    next
      case (Some c)
      then obtain x where c: "c < length dn" "fst (dn ! c) = CallerKey" "callers dn = [x]" using 2(7) by auto
      note u = update_caller [OF c, of v]
      have "printed dn' = [] \<and> plain_pairs dn' = plain_pairs (dn[c := (CallerKey, v)]) @ plain_pairs todo \<and> vals' = vals @ printed todo \<and>
          callers dn' = (let cs = callers (dn[c := (CallerKey, v)]) @ callers todo in if cs = [] then [] else [last cs])"
        using 2(3) [OF _ True Some] 2(5,6) True Some c u by simp
      then show ?thesis unfolding u using True c(3) by (simp add: parts_defs Let_def)
    qed
  next
    case False
    show ?thesis
    proof (cases "k = PrintKey")
      case True
      then show ?thesis using 2(1) 2(5-7) by (simp add: parts_defs Let_def)
    next
      case no: False
      have "case ci of None \<Rightarrow> callers (dn @ [(k, v)]) = []
          | Some c \<Rightarrow> c < length (dn @ [(k, v)]) \<and> fst ((dn @ [(k, v)]) ! c) = CallerKey \<and> (\<exists>x. callers (dn @ [(k, v)]) = [x])"
        using 2(7) False by (auto simp: callers_def nth_append split: option.splits)
      then show ?thesis using 2(4) [OF no False] 2(5,6) False no by (simp add: parts_defs Let_def)
    qed
  qed
qed

section \<open>Properties\<close>

text \<open>C21: The extended logger ends on every record, of any length: the record it passes on has the ordinary pairs
  in their order and at most one caller, with the value of the last one, and no value to print; those are
  written after the record, in their order.\<close>

theorem ext_logger_record:
  "\<exists>ps. extLogger_Log kvs = Ret (flat ps, concat (map (\<lambda>v. writeln (print_text v)) (printed (pairs_of kvs)))) \<and>
     plain_pairs ps = plain_pairs (pairs_of kvs) \<and> printed ps = [] \<and>
     callers ps = (if callers (pairs_of kvs) = [] then [] else [last (callers (pairs_of kvs))])"
proof -
  obtain ps vals where p: "ext_pairs [] None [] (pairs_of kvs) = (ps, vals)" by fastforce
  have "ext_loop (flat (pairs_of kvs)) 0 (- 1) [] = Ret (flat ps, vals)"
    using ext_loop_pairs [of None "[]" "pairs_of kvs" "[]"] p by (simp add: caller_index_def)
  moreover have "printed ps = [] \<and> plain_pairs ps = plain_pairs (pairs_of kvs) \<and> vals = printed (pairs_of kvs) \<and>
      callers ps = (if callers (pairs_of kvs) = [] then [] else [last (callers (pairs_of kvs))])"
    using ext_pairs_parts [OF p] by (simp add: parts_defs Let_def)
  ultimately show ?thesis by (auto simp: extLogger_Log_def flat_pairs_of Let_def)
qed

text \<open>The lines of a value: it is followed by a newline exactly when it has none of its own.\<close>

lemma concat_writeln: "concat (writeln v) = (if v = [] then [] else if last v = newline then v else v @ [newline])"
  by (simp add: writeln_def last_conv_nth)

text \<open>A context logger is found again in its context with its trace identifier, both those of the options
  when they are given; a fresh identifier is used when none is given, and key values are added to the logger.
  Contexts derived by other keys keep both.\<close>

theorem context_logger_round_trip:
  assumes "NewContextLogger fresh_id other_id fresh parent opts s = (s', ctx, l)" "fresh_id \<noteq> []"
  shows "GetTraceId i ctx = (let t = lo_traceId (apply_options opts zero_options) in if t = [] then fresh_id else t) \<and>
    l \<noteq> None \<and> GetContextLogger i f ctx [] s2 = (s2, l) \<and>
    GetContextLogger i f (ctx(OtherKey n := x)) [] s2 = (s2, l) \<and> GetTraceId i (ctx(OtherKey n := x)) = GetTraceId i ctx \<and>
    (\<forall>base. lo_l (apply_options opts zero_options) = Some base \<longrightarrow>
       l = With (Some base) (lo_kvs (apply_options opts zero_options)))"
proof -
  define o0 where "o0 = apply_options opts zero_options"
  define o1 where "o1 = (if length (lo_traceId o0) = 0 then o0\<lparr>lo_traceId := fresh_id\<rparr> else o0)"
  obtain s1 l0 where l0: "(case lo_l o1 of None \<Rightarrow> NewTraceLogger other_id fresh [WithTraceId (lo_traceId o1)] s
      | Some l \<Rightarrow> (s, Some l)) = (s1, l0)" by fastforce
  have l: "l = (if length (lo_kvs o1) \<noteq> 0 then With l0 (lo_kvs o1) else l0)"
    "ctx = parent(ContextTraceId := Some (CtxString (lo_traceId o1)), ContextLogger := Some (CtxLogger l))"
    using assms(1) l0 unfolding NewContextLogger_def Let_def o0_def [symmetric] o1_def [symmetric] by auto
  have id: "lo_traceId o1 = (if lo_traceId o0 = [] then fresh_id else lo_traceId o0)" "lo_traceId o1 \<noteq> []"
    "lo_l o1 = lo_l o0" "lo_kvs o1 = lo_kvs o0"
    using assms(2) by (simp_all add: o1_def)
  have "l0 \<noteq> None"
  proof (cases "lo_l o1")
    case None
    then show ?thesis using l0 by (auto simp: NewTraceLogger_def With_def Let_def split: option.splits prod.splits if_splits)
  next
    case (Some base)
    then have "Some base = l0" using l0 by simp
    then show ?thesis by (metis option.distinct(1))
  qed
  then have "l \<noteq> None" using l(1) by (simp add: With_def)
  then show ?thesis using l id l0
    by (auto simp: GetTraceId_def GetContextLogger_def Let_def o0_def With_def)
qed

theorem context_logger_round_trip_witness:
  "\<exists>s' ctx l. NewContextLogger ''id'' ''id2'' (LogfmtLogger Stdout :: unit logger) (\<lambda>_. None)
      [WithLogger (Some (OtherLogger 7)), WithKeyValues [StrV ''k'', StrV ''v'']] \<lparr>rootLogger = None, rootLoggerOnce = False\<rparr> = (s', ctx, l) \<and>
     GetTraceId ''x'' ctx = ''id'' \<and> l = With (Some (OtherLogger 7)) [StrV ''k'', StrV ''v'']"
proof -
  obtain s' ctx l where n: "NewContextLogger ''id'' ''id2'' (LogfmtLogger Stdout :: unit logger) (\<lambda>_. None)
      [WithLogger (Some (OtherLogger 7)), WithKeyValues [StrV ''k'', StrV ''v'']] \<lparr>rootLogger = None, rootLoggerOnce = False\<rparr> = (s', ctx, l)"
    by (metis prod_cases3)
  show ?thesis
    using context_logger_round_trip [OF n, of "''x''" "LogfmtLogger Stdout" s'] n
    by (simp add: apply_options_def WithLogger_def WithKeyValues_def zero_options_def)
qed

lemma tee_loop_all:
  "tee_loop (\<lambda>l kvs w. (w @ [(l, kvs)], res l)) kvs ls w es = (w @ map (\<lambda>l. (l, kvs)) ls, es\<lparr>m_errs := m_errs es @ List.map_filter res ls\<rparr>)"
proof (induction ls arbitrary: w es)
  case (Cons l ls)
  then show ?case by (cases "res l") (simp_all add: Errors_Append_def map_filter_simps)
qed (simp add: map_filter_simps)

text \<open>A tee gives every record to every logger, in order, whatever the others return, and reports exactly
  the errors of those that failed, in that order; it returns nil when none did.\<close>

theorem tee_logger_complete:
  "teeLogger_Log (\<lambda>l kvs w. (w @ [(l, kvs)], res l)) ls kvs [] =
     (map (\<lambda>l. (l, kvs)) ls, if List.map_filter res ls = [] then None else Some \<lparr>m_errs = List.map_filter res ls, m_code = code_or_status 500 [],
            m_status = 500, m_prefix = []\<rparr>)"
proof -
  have "Errors_HasError \<lparr>m_errs = es, m_code = c, m_status = st, m_prefix = p\<rparr> \<longleftrightarrow> es \<noteq> []" for es c st p
  proof -
    have "Filter_loop xs (\<lambda>e. e \<noteq> None) acc = acc @ filter (\<lambda>e. e \<noteq> None) xs" for xs acc :: "err option list"
      by (induction xs arbitrary: acc) simp_all
    then show ?thesis by (simp add: Errors_HasError_def Filter_def filter_map o_def)
  qed
  then show ?thesis unfolding teeLogger_Log_def tee_loop_all by (simp add: NewErrors_def)
qed

text \<open>Key values given to NewTraceLogger are lost when there is no default logger yet, as in the first call of
  a process; afterwards they are part of the logger.\<close>

theorem trace_logger_drops_key_values:
  assumes "kvs \<noteq> []"
  shows "snd (NewTraceLogger i fresh [WithKeyValues kvs] \<lparr>rootLogger = None, rootLoggerOnce = False\<rparr>) =
      With (Some fresh) [StrV TraceIdName, StrV i] \<and>
    snd (NewTraceLogger i fresh [WithKeyValues kvs] \<lparr>rootLogger = Some l, rootLoggerOnce = b\<rparr>) =
      With (With (Some l) kvs) [StrV TraceIdName, StrV i]"
  using assms
  by (simp add: NewTraceLogger_def apply_options_def WithKeyValues_def zero_options_def GetDefaultLogger_def With_def Let_def)

theorem trace_logger_drops_key_values_witness:
  "snd (NewTraceLogger ''id'' NopLogger [WithKeyValues [StrV ''k'', StrV ''v'']]
      (\<lparr>rootLogger = None, rootLoggerOnce = False\<rparr> :: unit log_state)) = With (Some NopLogger) [StrV TraceIdName, StrV ''id'']"
  using trace_logger_drops_key_values [of "[StrV ''k'', StrV ''v'']" "''id''" NopLogger] by blast

text \<open>The default logger is made once, and then is the one that was set last.\<close>

lemma default_logger_once:
  "GetDefaultLogger f1 s = (s1, l) \<Longrightarrow> GetDefaultLogger f2 s1 = (s1, l)"
  "GetDefaultLogger f1 s = (s1, l1) \<Longrightarrow> snd (GetDefaultLogger f2 (SetDefaultLogger l s1)) = l"
  by (auto simp: GetDefaultLogger_def SetDefaultLogger_def Let_def split: if_splits)

text \<open>
  A writer is found for every configuration: a device, the file, or the standard output when anything about the
  file fails. A rotation size that cannot be parsed turns rotation by size off.
\<close>

lemma writer_fallback:
  "FilePath c = [] \<or> (\<exists>e. fs_Stat lib (FilePath c) = StatError e \<and> FilePath c \<notin> {''/dev/stdin'', ''/dev/stdout'', ''/dev/stderr''}) \<Longrightarrow>
   newWriterFromConfig lib c = Stdout"
  "ParseCapacities t = (v, Some e) \<Longrightarrow> rotation_size t = 0"
  by (auto simp: newWriterFromConfig_def rotation_size_def Let_def split: if_splits prod.splits)

text \<open>The defaults of the flags: level info in logfmt on the standard error, rotated every day and kept for a week.\<close>

lemma flag_defaults:
  assumes "AddFlags config d = (c0, flags)" "c = foldl store_flag c0 flags"
  shows "cfg_Level c = Some LevelInfo" "cfg_Format c = Some FormatLogfmt" "newWriterFromConfig lib c = Stderr"
    "FileRotationSize c = ''100m''" "FileMaxAge c = 7 * FileRotationTime c"
  using assms by (auto simp: AddFlags_def Let_def newWriterFromConfig_def hour_def)

text \<open>After a level is set, the filter is that of the level set last; setting no level panics.\<close>

lemma dynamic_level:
  "\<exists>l'. SetLevel (Some v) l = Ret l' \<and> dl_leveled l' = Some (getOption v) \<and> dl_currentLevel l' = Some v \<and>
     (dl_notices l' \<noteq> dl_notices l \<longleftrightarrow> dl_currentLevel l \<notin> {None, Some v})"
  "SetLevel None l = Panic nil_deref"
  by (auto simp: SetLevel_def Let_def split: option.splits)

text \<open>A prefix is at the front of a logged message exactly once when it is joined, and removed otherwise.\<close>

lemma adapter_prefix:
  assumes "wa_prefix a \<noteq> []"
  shows "handleMessagePrefix a (wa_prefix a @ m) = (if wa_joinPrefixToMsg a then wa_prefix a @ m else m)"
    "\<not> HasPrefix m (wa_prefix a) \<Longrightarrow> handleMessagePrefix a m = (if wa_joinPrefixToMsg a then wa_prefix a @ m else m)"
  using assms by (simp_all add: handleMessagePrefix_def Let_def TrimPrefix_def)

text \<open>
  The method is named by everything after the first dot, which for a package under a domain is most of its path.
\<close>

lemma with_method_name:
  "CHR ''.'' \<notin> set host \<Longrightarrow> WithMethod (host @ CHR ''.'' # rest) l = With l [StrV ''method'', StrV rest]"
  by (simp add: WithMethod_def SplitAfterN2_def Let_def)

end
