(* ===== verification/Conv.thy ===== *)
theory Conv
  imports GoPrelude Capacity
begin

text \<open>
  Package \<open>conv\<close> (\<open>conv/time.go\<close>, \<open>conv/url_query.go\<close>, \<open>conv/json.go\<close>): times in JSON, and the hooks that decode
  the values of a query. An instant is its number of nanoseconds since the epoch. The parsers of layouts, the
  JSON texts and the arithmetic of floating point numbers (a type \<open>'f\<close>) are arguments.
\<close>

section \<open>Instants\<close>

type_synonym instant = int

definition Unix :: "int \<Rightarrow> int \<Rightarrow> instant" where
  "Unix sec nsec = sec * 10 ^ 9 + nsec"

definition UnixMilli :: "int \<Rightarrow> instant" where
  "UnixMilli msec = msec * 10 ^ 6"

definition to_Unix :: "instant \<Rightarrow> int" where
  "to_Unix t = t div 10 ^ 9"

definition to_UnixMilli :: "instant \<Rightarrow> int" where
  "to_UnixMilli t = t div 10 ^ 6"

text \<open>
  What the package uses of \<open>float64\<close>: the number of an integer, the division by 1000, the comparison with 1e12,
  the conversion to an integer, the milliseconds of the fraction, and the texts.
\<close>

record 'f float_lib =
  ff_of_int :: "int \<Rightarrow> 'f"
  ff_div1e3 :: "'f \<Rightarrow> 'f"
  ff_gt1e12 :: "'f \<Rightarrow> bool"
  ff_int64 :: "'f \<Rightarrow> int"
  ff_frac_ms :: "'f \<Rightarrow> int"
  ff_Format :: "'f \<Rightarrow> string"
  ff_Parse :: "string \<Rightarrow> 'f option"

section \<open>time.go\<close>

definition TimeFormatUnixTimestamp :: string where "TimeFormatUnixTimestamp = ''unix-timestamp''"
definition TimeFormatUnixMilliTimestamp :: string where "TimeFormatUnixMilliTimestamp = ''unix-milli-timestamp''"
definition TimeFormatUnixTimestampString :: string where "TimeFormatUnixTimestampString = ''unix-timestamp-string''"
definition TimeFormatUnixMilliTimestampString :: string where
  "TimeFormatUnixMilliTimestampString = ''unix-milli-timestamp-string''"
definition TimeFormatFloatUnixTimestamp :: string where "TimeFormatFloatUnixTimestamp = ''float-unix-timestamp''"
definition TimeFormatFloatUnixMilliTimestamp :: string where
  "TimeFormatFloatUnixMilliTimestamp = ''float-unix-milli-timestamp''"
definition TimeFormatFloatUnixTimestampString :: string where
  "TimeFormatFloatUnixTimestampString = ''float-unix-timestamp-string''"
definition TimeFormatFloatUnixMilliTimestampString :: string where
  "TimeFormatFloatUnixMilliTimestampString = ''float-unix-milli-timestamp-string''"

lemmas format_names = TimeFormatUnixTimestamp_def TimeFormatUnixMilliTimestamp_def TimeFormatUnixTimestampString_def
  TimeFormatUnixMilliTimestampString_def TimeFormatFloatUnixTimestamp_def TimeFormatFloatUnixMilliTimestamp_def
  TimeFormatFloatUnixTimestampString_def TimeFormatFloatUnixMilliTimestampString_def

record Time =
  tm_Time :: instant
  tm_Format :: string

text \<open>The JSON texts of a time and of a string, and the layouts, as functions.\<close>

record time_lib =
  tl_json_time :: "instant \<Rightarrow> string result"
  tl_json_string :: "string \<Rightarrow> string result"
  tl_json_read :: "string \<Rightarrow> string result"
  tl_Format :: "string \<Rightarrow> instant \<Rightarrow> string"
  tl_Parse :: "string \<Rightarrow> string \<Rightarrow> instant \<times> gerror option"

text \<open>\<open>w.M(json.Marshal(s))\<close> panics when the text cannot be made.\<close>

definition must_string :: "time_lib \<Rightarrow> string \<Rightarrow> string result go" where
  "must_string lib s = (case tl_json_string lib s of Inl e \<Rightarrow> Panic e | Inr j \<Rightarrow> Ret (Inr j))"

definition Time_MarshalJSON :: "time_lib \<Rightarrow> 'f float_lib \<Rightarrow> Time \<Rightarrow> string result go" where
  "Time_MarshalJSON lib fl t =
     (if tm_Format t = [] then Ret (tl_json_time lib (tm_Time t))
      else if tm_Format t = TimeFormatUnixTimestamp then Ret (Inr (Itoa (to_Unix (tm_Time t))))
      else if tm_Format t = TimeFormatUnixTimestampString then must_string lib (Itoa (to_Unix (tm_Time t)))
      else if tm_Format t = TimeFormatUnixMilliTimestamp then Ret (Inr (Itoa (to_UnixMilli (tm_Time t))))
      else if tm_Format t = TimeFormatFloatUnixMilliTimestampString then
        must_string lib (ff_Format fl (ff_of_int fl (to_UnixMilli (tm_Time t))))
      else if tm_Format t = TimeFormatFloatUnixTimestamp then
        Ret (Inr (ff_Format fl (ff_div1e3 fl (ff_of_int fl (to_UnixMilli (tm_Time t))))))
      else if tm_Format t = TimeFormatFloatUnixTimestampString then
        must_string lib (ff_Format fl (ff_div1e3 fl (ff_of_int fl (to_UnixMilli (tm_Time t)))))
      else if tm_Format t = TimeFormatFloatUnixMilliTimestamp then
        Ret (Inr (ff_Format fl (ff_of_int fl (to_UnixMilli (tm_Time t)))))
      else if tm_Format t = TimeFormatUnixMilliTimestampString then
        must_string lib (ff_Format fl (ff_of_int fl (to_UnixMilli (tm_Time t))))
      else Ret (tl_json_string lib (tl_Format lib (tm_Format t) (tm_Time t))))"

text \<open>\<open>%\<close> truncates towards zero.\<close>

definition go_rem :: "int \<Rightarrow> int \<Rightarrow> int" where
  "go_rem a b = a - go_div a b * b"

definition float_instant :: "'f float_lib \<Rightarrow> 'f \<Rightarrow> instant" where
  "float_instant fl ts = Unix (ff_int64 fl ts) (go_rem (ff_frac_ms fl ts) 1000 * 10 ^ 6)"

definition fromTimestampStrng :: "'f float_lib \<Rightarrow> string \<Rightarrow> Time option" where
  "fromTimestampStrng fl raw =
     (case ParseInt raw of
        (ts, None) \<Rightarrow>
          if ts > 10 ^ 12 then Some \<lparr>tm_Time = UnixMilli ts, tm_Format = TimeFormatUnixMilliTimestamp\<rparr>
          else Some \<lparr>tm_Time = Unix ts 0, tm_Format = TimeFormatUnixTimestamp\<rparr>
      | (_, Some _) \<Rightarrow>
          (case ff_Parse fl raw of
             Some ts \<Rightarrow>
               if ff_gt1e12 fl ts
               then Some \<lparr>tm_Time = UnixMilli (ff_int64 fl ts), tm_Format = TimeFormatFloatUnixMilliTimestamp\<rparr>
               else Some \<lparr>tm_Time = float_instant fl ts, tm_Format = TimeFormatFloatUnixTimestamp\<rparr>
           | None \<Rightarrow> None))"

text \<open>The layouts, in the order they are tried.\<close>

definition timeFormats :: "string list" where
  "timeFormats =
     [''2006-01-02 15:04:05'', ''2006-01-02T15:04:05Z07:00'', ''2006-01-02T15:04:05.999999999Z07:00'', ''2006-01-02'',
      ''01/02 03:04:05PM '' @ [CHR 0x27] @ ''06 -0700'', ''Mon Jan _2 15:04:05 2006'', ''Mon Jan _2 15:04:05 MST 2006'',
      ''Mon Jan 02 15:04:05 -0700 2006'', ''02 Jan 06 15:04 MST'', ''02 Jan 06 15:04 -0700'',
      ''Monday, 02-Jan-06 15:04:05 MST'', ''Mon, 02 Jan 2006 15:04:05 MST'', ''Mon, 02 Jan 2006 15:04:05 -0700'',
      ''2006-01-02T15:04:05.999999999Z0700'']"

text \<open>The loop over the layouts: the last time and error, and the layout that succeeded.\<close>

fun try_formats :: "time_lib \<Rightarrow> string \<Rightarrow> string list \<Rightarrow> instant \<times> gerror option \<Rightarrow> instant \<times> gerror option \<times> string option" where
  "try_formats lib s [] (tm, err) = (tm, err, None)"
| "try_formats lib s (f # fs) acc =
     (case tl_Parse lib f s of
        (tm, None) \<Rightarrow> (tm, None, Some f)
      | (tm, Some err) \<Rightarrow> try_formats lib s fs (tm, Some err))"

definition Time_UnmarshalJSON :: "time_lib \<Rightarrow> 'f float_lib \<Rightarrow> Time \<Rightarrow> string \<Rightarrow> Time \<times> gerror option" where
  "Time_UnmarshalJSON lib fl t raw =
     (case fromTimestampStrng fl raw of
        Some t' \<Rightarrow> (t', None)
      | None \<Rightarrow>
          (case tl_json_read lib raw of
             Inl err \<Rightarrow> (t, Some err)
           | Inr timeStr \<Rightarrow>
               (case fromTimestampStrng fl timeStr of
                  Some t' \<Rightarrow> (t'\<lparr>tm_Format := tm_Format t' @ ''-string''\<rparr>, None)
                | None \<Rightarrow>
                    (case try_formats lib timeStr timeFormats (tm_Time t, None) of
                       (tm, err, Some f) \<Rightarrow> (\<lparr>tm_Time = tm, tm_Format = f\<rparr>, err)
                     | (tm, err, None) \<Rightarrow> (t\<lparr>tm_Time := tm\<rparr>, err)))))"

section \<open>json.go\<close>

definition JSON_conv :: "('s \<Rightarrow> string result) \<Rightarrow> (string \<Rightarrow> 'd \<Rightarrow> 'd \<times> gerror option) \<Rightarrow> 's \<Rightarrow> 'd \<Rightarrow> 'd \<times> gerror option" where
  "JSON_conv json_Marshal json_Unmarshal src dst =
     (case json_Marshal src of Inl err \<Rightarrow> (dst, Some err) | Inr bytes \<Rightarrow> json_Unmarshal bytes dst)"

section \<open>url_query.go\<close>

text \<open>The kinds that the hooks tell apart, with the sizes of numbers; \<open>KTime\<close> is the struct \<open>time.Time\<close>.\<close>

datatype kind = KString | KInt nat | KUint nat | KFloat nat | KBool | KTime | KStruct nat | KMap nat | KSlice | KOther nat

text \<open>The data a hook gets and returns; \<open>VNamed\<close> is a string of a named type, \<open>VObject\<close> what JSON decodes into.\<close>

datatype ('f, 'x) qvalue =
    VString string
  | VNamed nat string
  | VInt int
  | VFloat 'f
  | VBool bool
  | VTime instant
  | VSlice "('f, 'x) qvalue list"
  | VNil
  | VObject 'x

fun is_string_kind :: "('f, 'x) qvalue \<Rightarrow> bool" where
  "is_string_kind (VString s) = True"
| "is_string_kind (VNamed n s) = True"
| "is_string_kind _ = False"

text \<open>\<open>data.(string)\<close> holds of the predeclared type only.\<close>

fun assert_string :: "('f, 'x) qvalue \<Rightarrow> string go" where
  "assert_string (VString s) = Ret s"
| "assert_string _ = Panic ''interface conversion''"

definition StringToTimeHookFunc ::
    "time_lib \<Rightarrow> 'f float_lib \<Rightarrow> kind \<Rightarrow> ('f, 'x) qvalue \<Rightarrow> (('f, 'x) qvalue \<times> gerror option) go" where
  "StringToTimeHookFunc lib fl t data =
     (if \<not> is_string_kind data then Ret (data, None)
      else if t \<noteq> KTime then Ret (data, None)
      else go_bind (assert_string data) (\<lambda>s.
        case ParseInt s of
          (ts, None) \<Rightarrow> Ret (VTime (if ts > 10 ^ 12 then UnixMilli ts else Unix ts 0), None)
        | (_, Some _) \<Rightarrow>
            (case ff_Parse fl s of
               Some ts \<Rightarrow> Ret (VTime (if ff_gt1e12 fl ts then UnixMilli (ff_int64 fl ts) else float_instant fl ts), None)
             | None \<Rightarrow> (case try_formats lib s timeFormats (0, None) of (tm, err, _) \<Rightarrow> Ret (VTime tm, err)))))"

text \<open>\<open>ParseInt\<close> with its error as a text, \<open>ParseBool\<close>, and the decoder of a struct or map over its present value.\<close>

definition num_error_text :: "num_error \<Rightarrow> gerror" where
  "num_error_text e = (case e of ErrSyntax \<Rightarrow> ''invalid syntax'' | ErrRange \<Rightarrow> ''value out of range'')"

definition ParseBool :: "string \<Rightarrow> bool result" where
  "ParseBool s =
     (if s \<in> {''1'', ''t'', ''T'', ''true'', ''TRUE'', ''True''} then Inr True
      else if s \<in> {''0'', ''f'', ''F'', ''false'', ''FALSE'', ''False''} then Inr False
      else Inl ''invalid syntax'')"

fun StringToBaseTypeHookFunc ::
    "(string \<Rightarrow> 'f \<times> gerror option) \<Rightarrow> (nat \<Rightarrow> string \<Rightarrow> 'x result) \<Rightarrow> kind \<Rightarrow> ('f, 'x) qvalue \<Rightarrow> (('f, 'x) qvalue \<times> gerror option) go" where
  "StringToBaseTypeHookFunc ParseFloat json_Unmarshal tv data =
     (if \<not> is_string_kind data then Ret (data, None)
      else
        let parse_int = go_bind (assert_string data) (\<lambda>s.
              case ParseInt s of (n, e) \<Rightarrow> Ret (VInt n, map_option num_error_text e));
            parse_json = (\<lambda>n. go_bind (assert_string data) (\<lambda>s.
              case json_Unmarshal n s of Inl err \<Rightarrow> Ret (VNil, Some err) | Inr v \<Rightarrow> Ret (VObject v, None))) in
        (case tv of
           KInt _ \<Rightarrow> parse_int
         | KUint _ \<Rightarrow> parse_int
         | KFloat _ \<Rightarrow> go_bind (assert_string data) (\<lambda>s. case ParseFloat s of (x, e) \<Rightarrow> Ret (VFloat x, e))
         | KBool \<Rightarrow> go_bind (assert_string data) (\<lambda>s.
             case ParseBool s of Inl e \<Rightarrow> Ret (VBool False, Some e) | Inr b \<Rightarrow> Ret (VBool b, None))
         | KTime \<Rightarrow> parse_json 0
         | KStruct n \<Rightarrow> parse_json n
         | KMap n \<Rightarrow> parse_json n
         | _ \<Rightarrow> Ret (data, None)))"

text \<open>A hook, as \<open>mapstructure.DecodeHookExec\<close> runs it on a target kind and data.\<close>

type_synonym ('f, 'x) hook = "kind \<Rightarrow> ('f, 'x) qvalue \<Rightarrow> (('f, 'x) qvalue \<times> gerror option) go"

definition URLValuesHookFunc :: "('f, 'x) hook \<Rightarrow> ('f, 'x) hook" where
  "URLValuesHookFunc fc tv data0 =
     go_bind (fc tv data0) (\<lambda>(data, err).
       case err of
         Some e \<Rightarrow> Ret (VNil, Some e)
       | None \<Rightarrow>
           (case data of
              VSlice vs \<Rightarrow>
                if tv \<noteq> KSlice then (case vs of v # _ \<Rightarrow> fc tv v | [] \<Rightarrow> Ret (VNil, None))
                else Ret (data, None)
            | _ \<Rightarrow> Ret (data, None)))"

text \<open>\<open>unmarshaler\<close> is the method of the target type, if it has one.\<close>

definition BinaryUnmarshalerHookFunc :: "(kind \<Rightarrow> (string \<Rightarrow> 'x result) option) \<Rightarrow> ('f, 'x) hook" where
  "BinaryUnmarshalerHookFunc unmarshaler t data =
     (if \<not> is_string_kind data then Ret (data, None)
      else case unmarshaler t of
          None \<Rightarrow> Ret (data, None)
        | Some UnmarshalBinary \<Rightarrow>
            go_bind (assert_string data) (\<lambda>s.
              case UnmarshalBinary s of Inl err \<Rightarrow> Ret (VNil, Some err) | Inr result \<Rightarrow> Ret (VObject result, None)))"

text \<open>
  \<open>mapstructure.ComposeDecodeHookFunc\<close> calls its hooks in turn, each on the data of the one before, and stops at
  the first error.
\<close>

fun ComposeDecodeHookFunc :: "('f, 'x) hook list \<Rightarrow> ('f, 'x) hook" where
  "ComposeDecodeHookFunc [] tv data = Ret (data, None)"
| "ComposeDecodeHookFunc (h # hs) tv data =
     go_bind (h tv data) (\<lambda>(data', err).
       case err of Some e \<Rightarrow> Ret (VNil, Some e) | None \<Rightarrow> ComposeDecodeHookFunc hs tv data')"

text \<open>The default hooks; those of \<open>mapstructure\<close> itself and of \<open>capacity\<close> are arguments.\<close>

definition DefaultDecodeHookFuncs ::
    "time_lib \<Rightarrow> 'f float_lib \<Rightarrow> (kind \<Rightarrow> (string \<Rightarrow> 'x result) option) \<Rightarrow> ('f, 'x) hook list \<Rightarrow> ('f, 'x) hook list" where
  "DefaultDecodeHookFuncs lib fl unmarshaler others =
     [StringToTimeHookFunc lib fl, BinaryUnmarshalerHookFunc unmarshaler] @ others"

text \<open>The decoder's configuration, which the call changes through its pointer, and the result of the decoder.\<close>

record ('f, 'x, 'd) DecoderConfig =
  dc_DecodeHook :: "('f, 'x) hook"
  dc_Result :: "'d option"

definition DecodeURLValues ::
    "('f, 'x) hook list \<Rightarrow> ('f, 'x) hook \<Rightarrow> (('f, 'x, 'd) DecoderConfig \<Rightarrow> 'u \<Rightarrow> 'd \<times> gerror option) \<Rightarrow>
     'u \<Rightarrow> 'd \<Rightarrow> ('f, 'x, 'd) DecoderConfig option \<Rightarrow> ('f, 'x) hook list \<Rightarrow>
     ('f, 'x, 'd) DecoderConfig \<times> 'd \<times> gerror option" where
  "DecodeURLValues defaults base decode u dst config fs =
     (let c = (case config of None \<Rightarrow> \<lparr>dc_DecodeHook = ComposeDecodeHookFunc defaults, dc_Result = None\<rparr> | Some c \<Rightarrow> c);
          c1 = c\<lparr>dc_Result := Some dst, dc_DecodeHook := URLValuesHookFunc (ComposeDecodeHookFunc (fs @ [dc_DecodeHook c, base]))\<rparr> in
      case decode c1 u of (d, err) \<Rightarrow> (c1, d, err))"

definition DecodeQuery ::
    "(string \<Rightarrow> 'u result) \<Rightarrow> ('f, 'x) hook list \<Rightarrow> ('f, 'x) hook \<Rightarrow> (('f, 'x, 'd) DecoderConfig \<Rightarrow> 'u \<Rightarrow> 'd \<times> gerror option) \<Rightarrow>
     string \<Rightarrow> 'd \<Rightarrow> ('f, 'x, 'd) DecoderConfig option \<Rightarrow> ('f, 'x) hook list \<Rightarrow> 'd \<times> gerror option" where
  "DecodeQuery ParseQuery defaults base decode query dst config fs =
     (case ParseQuery query of
        Inl err \<Rightarrow> (dst, Some err)
      | Inr u \<Rightarrow> (case DecodeURLValues defaults base decode u dst config fs of (_, d, err) \<Rightarrow> (d, err)))"

section \<open>Properties of times\<close>

lemma ParseInt_quote: "ParseInt (quote s) = (0, Some ErrSyntax)"
  by (simp add: ParseInt_def quote_def is_digit_def Let_def)

lemma to_Unix_Unix [simp]: "to_Unix (Unix s 0) = s" "to_UnixMilli (UnixMilli m) = m"
  by (simp_all add: to_Unix_def Unix_def to_UnixMilli_def UnixMilli_def)

text \<open>
  The standard library on short texts: a JSON string of digits is the text in quotation marks, which is not a
  number, and an integer below \<open>2^53\<close> is printed by \<open>FormatFloat\<close> with its decimal digits.
\<close>

definition time_laws :: "time_lib \<Rightarrow> 'f float_lib \<Rightarrow> bool" where
  "time_laws lib fl \<longleftrightarrow>
     (\<forall>n. tl_json_string lib (Itoa n) = Inr (quote (Itoa n)) \<and> tl_json_read lib (quote (Itoa n)) = Inr (Itoa n)) \<and>
     (\<forall>s. ff_Parse fl (quote s) = None) \<and>
     (\<forall>n. \<bar>n\<bar> \<le> 2 ^ 53 \<longrightarrow> ff_Format fl (ff_of_int fl n) = Itoa n)"

lemma from_text:
  "- (2 ^ 63) \<le> n \<Longrightarrow> n < 2 ^ 63 \<Longrightarrow>
   fromTimestampStrng fl (Itoa n) = Some (if n > 10 ^ 12 then \<lparr>tm_Time = UnixMilli n, tm_Format = TimeFormatUnixMilliTimestamp\<rparr>
     else \<lparr>tm_Time = Unix n 0, tm_Format = TimeFormatUnixTimestamp\<rparr>)"
  using ParseInt_Itoa [of n] by (simp add: fromTimestampStrng_def)

text \<open>Reading a number, bare or in quotation marks.\<close>

lemma unmarshal_number:
  assumes "time_laws lib fl" "- (2 ^ 63) \<le> n" "n < 2 ^ 63"
  shows "Time_UnmarshalJSON lib fl t (Itoa n) = (the (fromTimestampStrng fl (Itoa n)), None)"
    "Time_UnmarshalJSON lib fl t (quote (Itoa n)) =
       ((the (fromTimestampStrng fl (Itoa n)))\<lparr>tm_Format := tm_Format (the (fromTimestampStrng fl (Itoa n))) @ ''-string''\<rparr>, None)"
proof -
  show "Time_UnmarshalJSON lib fl t (Itoa n) = (the (fromTimestampStrng fl (Itoa n)), None)"
    using from_text [OF assms(2,3), of fl] by (simp add: Time_UnmarshalJSON_def)
  have "fromTimestampStrng fl (quote (Itoa n)) = None"
    using assms(1) by (simp add: fromTimestampStrng_def ParseInt_quote time_laws_def)
  moreover have "tl_json_read lib (quote (Itoa n)) = Inr (Itoa n)" using assms(1) by (simp add: time_laws_def)
  ultimately show "Time_UnmarshalJSON lib fl t (quote (Itoa n)) =
       ((the (fromTimestampStrng fl (Itoa n)))\<lparr>tm_Format := tm_Format (the (fromTimestampStrng fl (Itoa n))) @ ''-string''\<rparr>, None)"
    using from_text [OF assms(2,3), of fl] by (simp add: Time_UnmarshalJSON_def)
qed

text \<open>What the four integer formats print.\<close>

lemma marshal_integers:
  assumes "time_laws lib fl"
  shows "Time_MarshalJSON lib fl \<lparr>tm_Time = i, tm_Format = TimeFormatUnixTimestamp\<rparr> = Ret (Inr (Itoa (to_Unix i)))"
    "Time_MarshalJSON lib fl \<lparr>tm_Time = i, tm_Format = TimeFormatUnixTimestampString\<rparr> = Ret (Inr (quote (Itoa (to_Unix i))))"
    "Time_MarshalJSON lib fl \<lparr>tm_Time = i, tm_Format = TimeFormatUnixMilliTimestamp\<rparr> = Ret (Inr (Itoa (to_UnixMilli i)))"
    "\<bar>to_UnixMilli i\<bar> \<le> 2 ^ 53 \<Longrightarrow>
     Time_MarshalJSON lib fl \<lparr>tm_Time = i, tm_Format = TimeFormatUnixMilliTimestampString\<rparr> = Ret (Inr (quote (Itoa (to_UnixMilli i))))"
  using assms by (simp_all add: Time_MarshalJSON_def format_names must_string_def time_laws_def)

text \<open>C20: Times survive JSON in the integer formats: a whole number of seconds up to 10^12, and a number of
  milliseconds above 10^12 and below 2^53, are read back as the same instant with the same format, as a number
  and as a string.\<close>

theorem time_json_round_trip:
  assumes "time_laws lib fl"
  shows "(- (2 ^ 63) \<le> s \<and> s \<le> 10 ^ 12 \<and> f \<in> {TimeFormatUnixTimestamp, TimeFormatUnixTimestampString} \<longrightarrow>
      (\<exists>j. Time_MarshalJSON lib fl \<lparr>tm_Time = Unix s 0, tm_Format = f\<rparr> = Ret (Inr j) \<and>
         Time_UnmarshalJSON lib fl t j = (\<lparr>tm_Time = Unix s 0, tm_Format = f\<rparr>, None))) \<and>
    (10 ^ 12 < m \<and> m \<le> 2 ^ 53 \<and> g \<in> {TimeFormatUnixMilliTimestamp, TimeFormatUnixMilliTimestampString} \<longrightarrow>
      (\<exists>j. Time_MarshalJSON lib fl \<lparr>tm_Time = UnixMilli m, tm_Format = g\<rparr> = Ret (Inr j) \<and>
         Time_UnmarshalJSON lib fl t j = (\<lparr>tm_Time = UnixMilli m, tm_Format = g\<rparr>, None)))"
proof (intro conjI impI)
  assume s: "- (2 ^ 63) \<le> s \<and> s \<le> 10 ^ 12 \<and> f \<in> {TimeFormatUnixTimestamp, TimeFormatUnixTimestampString}"
  then have b: "- (2 ^ 63) \<le> s" "s < 2 ^ 63" by auto
  have ft: "the (fromTimestampStrng fl (Itoa s)) = \<lparr>tm_Time = Unix s 0, tm_Format = TimeFormatUnixTimestamp\<rparr>"
    using from_text [OF b, of fl] s by simp
  note u = unmarshal_number [OF assms b, of t, unfolded ft]
  note m = marshal_integers(1,2) [OF assms, of "Unix s 0", unfolded to_Unix_Unix]
  from s consider "f = TimeFormatUnixTimestamp" | "f = TimeFormatUnixTimestampString" by blast
  then show "\<exists>j. Time_MarshalJSON lib fl \<lparr>tm_Time = Unix s 0, tm_Format = f\<rparr> = Ret (Inr j) \<and>
      Time_UnmarshalJSON lib fl t j = (\<lparr>tm_Time = Unix s 0, tm_Format = f\<rparr>, None)"
    using u m by cases (simp_all add: format_names)
next
  assume m: "10 ^ 12 < m \<and> m \<le> 2 ^ 53 \<and> g \<in> {TimeFormatUnixMilliTimestamp, TimeFormatUnixMilliTimestampString}"
  then have b: "- (2 ^ 63) \<le> m" "m < 2 ^ 63" "\<bar>to_UnixMilli (UnixMilli m)\<bar> \<le> 2 ^ 53" by auto
  have ft: "the (fromTimestampStrng fl (Itoa m)) = \<lparr>tm_Time = UnixMilli m, tm_Format = TimeFormatUnixMilliTimestamp\<rparr>"
    using from_text [OF b(1,2), of fl] m by simp
  note u = unmarshal_number [OF assms b(1,2), of t, unfolded ft]
  note mm = marshal_integers(3,4) [OF assms, of "UnixMilli m", unfolded to_Unix_Unix]
  from m consider "g = TimeFormatUnixMilliTimestamp" | "g = TimeFormatUnixMilliTimestampString" by blast
  then show "\<exists>j. Time_MarshalJSON lib fl \<lparr>tm_Time = UnixMilli m, tm_Format = g\<rparr> = Ret (Inr j) \<and>
      Time_UnmarshalJSON lib fl t j = (\<lparr>tm_Time = UnixMilli m, tm_Format = g\<rparr>, None)"
    using u mm b(3) by cases (simp_all add: format_names)
qed

text \<open>A library for concrete instances: layouts are not used.\<close>

definition sample_lib :: time_lib where
  "sample_lib = \<lparr>tl_json_time = (\<lambda>i. Inl []), tl_json_string = (\<lambda>s. Inr (quote s)),
     tl_json_read = (\<lambda>s. Inr (tl (butlast s))), tl_Format = (\<lambda>f i. []), tl_Parse = (\<lambda>f s. (0, Some ''layout''))\<rparr>"

definition sample_floats :: "int float_lib" where
  "sample_floats = \<lparr>ff_of_int = (\<lambda>n. n), ff_div1e3 = (\<lambda>n. n div 1000), ff_gt1e12 = (\<lambda>n. n > 10 ^ 12), ff_int64 = (\<lambda>n. n),
     ff_frac_ms = (\<lambda>n. 0), ff_Format = Itoa, ff_Parse = (\<lambda>s. None)\<rparr>"

lemma sample_laws: "time_laws sample_lib sample_floats"
  by (simp add: time_laws_def sample_lib_def sample_floats_def quote_def)

theorem time_json_round_trip_witness:
  "\<exists>j. Time_MarshalJSON sample_lib sample_floats \<lparr>tm_Time = Unix 1700000000 0, tm_Format = TimeFormatUnixTimestampString\<rparr> = Ret (Inr j) \<and>
     Time_UnmarshalJSON sample_lib sample_floats \<lparr>tm_Time = 0, tm_Format = []\<rparr> j =
       (\<lparr>tm_Time = Unix 1700000000 0, tm_Format = TimeFormatUnixTimestampString\<rparr>, None)"
  using time_json_round_trip [OF sample_laws, of 1700000000 TimeFormatUnixTimestampString "\<lparr>tm_Time = 0, tm_Format = []\<rparr>"] by simp

text \<open>A number of milliseconds up to 10^12, which is any time from 1970 to September 2001, is read back as that
  number of seconds, a different instant in a different format.\<close>

theorem time_milli_misread:
  assumes "time_laws lib fl" "0 < m" "m \<le> 10 ^ 12"
  shows "\<exists>j. Time_MarshalJSON lib fl \<lparr>tm_Time = UnixMilli m, tm_Format = TimeFormatUnixMilliTimestamp\<rparr> = Ret (Inr j) \<and>
    Time_UnmarshalJSON lib fl t j = (\<lparr>tm_Time = Unix m 0, tm_Format = TimeFormatUnixTimestamp\<rparr>, None) \<and> Unix m 0 \<noteq> UnixMilli m"
proof -
  have b: "- (2 ^ 63) \<le> m" "m < 2 ^ 63" using assms by auto
  have ft: "the (fromTimestampStrng fl (Itoa m)) = \<lparr>tm_Time = Unix m 0, tm_Format = TimeFormatUnixTimestamp\<rparr>"
    using from_text [OF b, of fl] assms(3) by simp
  have "Unix m 0 \<noteq> UnixMilli m" using assms(2) by (simp add: Unix_def UnixMilli_def)
  then show ?thesis
    using marshal_integers(3) [OF assms(1), of "UnixMilli m"] unmarshal_number(1) [OF assms(1) b, of t] ft by simp
qed

theorem time_milli_misread_witness:
  "\<exists>j. Time_MarshalJSON sample_lib sample_floats \<lparr>tm_Time = UnixMilli 946684800000, tm_Format = TimeFormatUnixMilliTimestamp\<rparr> = Ret (Inr j) \<and>
     Time_UnmarshalJSON sample_lib sample_floats \<lparr>tm_Time = 0, tm_Format = []\<rparr> j =
       (\<lparr>tm_Time = Unix 946684800000 0, tm_Format = TimeFormatUnixTimestamp\<rparr>, None)"
  using time_milli_misread [OF sample_laws, of 946684800000 "\<lparr>tm_Time = 0, tm_Format = []\<rparr>"] by auto

section \<open>Properties of the hooks\<close>

text \<open>The kind of value a target takes after the hook for base types.\<close>

fun has_kind :: "kind \<Rightarrow> ('f, 'x) qvalue \<Rightarrow> bool" where
  "has_kind (KInt n) v = (\<exists>i. v = VInt i)"
| "has_kind (KUint n) v = (\<exists>i. v = VInt i)"
| "has_kind (KFloat n) v = (\<exists>x. v = VFloat x)"
| "has_kind KBool v = (\<exists>b. v = VBool b)"
| "has_kind KTime v = (\<exists>x. v = VObject x)"
| "has_kind (KStruct n) v = (\<exists>x. v = VObject x)"
| "has_kind (KMap n) v = (\<exists>x. v = VObject x)"
| "has_kind _ v = (\<exists>s. v = VString s)"

text \<open>The hook for base types is well typed: it never panics on a string, and when it succeeds the value is of
  the kind that the target asks for; data that is not a string is left alone.\<close>

theorem base_type_hook_typed:
  "(\<exists>v e. StringToBaseTypeHookFunc pf ju tv (VString s) = Ret (v, e) \<and> (e = None \<longrightarrow> has_kind tv v)) \<and>
   (\<not> is_string_kind d \<longrightarrow> StringToBaseTypeHookFunc pf ju tv d = Ret (d, None))"
proof
  show "\<exists>v e. StringToBaseTypeHookFunc pf ju tv (VString s) = Ret (v, e) \<and> (e = None \<longrightarrow> has_kind tv v)"
    by (cases tv) (auto split: prod.splits sum.splits)
qed simp

theorem base_type_hook_typed_witness:
  "\<exists>v e. StringToBaseTypeHookFunc (\<lambda>s. (0 :: int, None)) (\<lambda>n s. Inr ()) KBool (VString ''true'') = Ret (v, e) \<and>
     StringToBaseTypeHookFunc (\<lambda>s. (0 :: int, None)) (\<lambda>n s. Inr ()) KBool VNil = Ret (VNil, None)"
  using base_type_hook_typed [of "\<lambda>s. (0 :: int, None)" "\<lambda>n s. Inr ()" KBool "''true''" VNil] by auto

text \<open>A number for an unsigned target is read as a signed one, so every value from 2^63 on, which the target
  could hold, is refused.\<close>

theorem uint_hook_refuses:
  assumes "2 ^ 63 \<le> n" "n < 2 ^ 64"
  shows "StringToBaseTypeHookFunc pf ju (KUint 64) (VString (Itoa_nat n)) = Ret (VInt (2 ^ 63 - 1), Some ''value out of range'')"
proof -
  have d: "ParseUint_loop 0 (Itoa_nat n) = Inr n"
    using ParseUint_loop_digits [of "Itoa_nat n" 0] Itoa_nat_digits assms(2) by simp
  have "hd (Itoa_nat n) \<noteq> CHR ''-''" "hd (Itoa_nat n) \<noteq> CHR ''+''"
    using hd_Itoa_nat [of n] by (auto simp: is_digit_def)
  then have "ParseInt (Itoa_nat n) = (2 ^ 63 - 1, Some ErrRange)" using d assms(1) by (simp add: ParseInt_def Let_def)
  then show ?thesis by (simp add: num_error_text_def)
qed

theorem uint_hook_refuses_witness:
  "\<exists>v :: (int, unit) qvalue. StringToBaseTypeHookFunc (\<lambda>s. (0, None)) (\<lambda>n s. Inr ()) (KUint 64) (VString (Itoa_nat (2 ^ 64 - 1))) =
     Ret (v, Some ''value out of range'')"
  using uint_hook_refuses [of "2 ^ 64 - 1" "\<lambda>s. (0 :: int, None)" "\<lambda>n s. Inr ()"] by simp

text \<open>A single value reaches a target that is not a slice; of several only the first does, and of none nothing.\<close>

lemma url_values_unwrap:
  assumes "fc tv (VSlice vs) = Ret (VSlice vs, None)" "tv \<noteq> KSlice"
  shows "URLValuesHookFunc fc tv (VSlice vs) = (case vs of [] \<Rightarrow> Ret (VNil, None) | v # _ \<Rightarrow> fc tv v)"
  using assms by (simp add: URLValuesHookFunc_def)

lemma compose_skip:
  "(\<And>h. h \<in> set hs \<Longrightarrow> h tv v = Ret (v, None)) \<Longrightarrow> ComposeDecodeHookFunc (hs @ ks) tv v = ComposeDecodeHookFunc ks tv v"
proof (induction hs)
  case (Cons h hs)
  have "h tv v = Ret (v, None)" by (rule Cons.prems) simp
  moreover have "ComposeDecodeHookFunc (hs @ ks) tv v = ComposeDecodeHookFunc ks tv v"
    by (rule Cons.IH) (rule Cons.prems, simp)
  ultimately show ?case by simp
qed simp

text \<open>The whole chain of a decoded query: with the default hooks, a parameter with one value reaches an integer
  field as its number and a time field as the instant of its number of seconds, when the other default hooks
  leave these targets alone.\<close>

theorem query_value_decodes:
  assumes "- (2 ^ 63) \<le> n" "n \<le> 10 ^ 12" "\<And>h tv v. h \<in> set others \<Longrightarrow> tv = KInt b \<or> tv = KTime \<Longrightarrow> h tv v = Ret (v, None)"
    and "unmarshaler (KInt b) = None"
    and "DecodeURLValues (DefaultDecodeHookFuncs lib fl unmarshaler others) (StringToBaseTypeHookFunc pf ju) decode u dst None [] = (c, r)"
  shows "dc_DecodeHook c (KInt b) (VSlice [VString (Itoa n)]) = Ret (VInt n, None) \<and>
    dc_DecodeHook c KTime (VSlice [VString (Itoa n)]) = Ret (VTime (Unix n 0), None)"
proof -
  have p: "ParseInt (Itoa n) = (n, None)" using assms(1,2) by (intro ParseInt_Itoa) auto
  have rest: "ComposeDecodeHookFunc others tv v = Ret (v, None)" if "tv = KInt b \<or> tv = KTime" for tv v
    using compose_skip [of others tv v "[]"] assms(3) that by simp
  show ?thesis
    using assms(4,5) p rest assms(2)
    by (auto simp: DecodeURLValues_def DefaultDecodeHookFuncs_def Let_def URLValuesHookFunc_def StringToTimeHookFunc_def
        BinaryUnmarshalerHookFunc_def split: prod.splits)
qed

theorem query_value_decodes_witness:
  "\<exists>(c :: (int, unit, unit) DecoderConfig) r.
     DecodeURLValues (DefaultDecodeHookFuncs sample_lib sample_floats (\<lambda>k. None) []) (StringToBaseTypeHookFunc (\<lambda>s. (0, None)) (\<lambda>n s. Inr ()))
       (\<lambda>c u. ((), None)) () () None [] = (c, r) \<and>
     dc_DecodeHook c (KInt 64) (VSlice [VString (Itoa 42)]) = Ret (VInt 42, None)"
proof -
  obtain c :: "(int, unit, unit) DecoderConfig" and r where c: "DecodeURLValues (DefaultDecodeHookFuncs sample_lib sample_floats (\<lambda>k. None) [])
      (StringToBaseTypeHookFunc (\<lambda>s. (0, None)) (\<lambda>n s. Inr ())) (\<lambda>c u. ((), None)) () () None [] = (c, r)"
    by (metis prod.exhaust)
  then show ?thesis using query_value_decodes [OF _ _ _ _ c, of 42 64] by fastforce
qed

end
