(* ===== verification/Tracing.thy ===== *)
theory Tracing
  imports Signals Tls Logging
begin

text \<open>
  Package \<open>tracing\<close> (\<open>clients/tracing/\<close>): the options with their decoding from JSON, the exporters, and the
  provider with its shutdown hook. \<open>encoding/json\<close> walks through the members of an object in the order of the
  text; reading a member is a function of the model, the texts themselves are read by the record \<open>json_lib\<close>.
  The OpenTelemetry libraries are the record \<open>trace_lib\<close> on a world \<open>'w\<close>; every call is recorded in the order
  it is made. An exporter, a provider, a file and a hook are numbers, a duration is an \<open>int64\<close>.
\<close>

section \<open>Decoding objects\<close>

text \<open>
  What a member does to its field: it is stored, it does not fit the type of the field (decoding goes on and the
  first such error is returned at the end), or its own \<open>UnmarshalJSON\<close> fails, which ends the decoding.
\<close>

datatype member_outcome = Stored | Mismatch gerror | Failed gerror

type_synonym 'a member_reader = "string \<Rightarrow> string \<Rightarrow> 'a \<Rightarrow> 'a \<times> member_outcome"

text \<open>
  The members of an object in the order of the text, with the names in lower case and the value as it is written,
  and the values of the elementary types, which \<open>null\<close> leaves as they are (\<open>None\<close>).
\<close>

record json_lib =
  js_members :: "string \<Rightarrow> (string \<times> string) list result"
  js_string :: "string \<Rightarrow> string option result"
  js_bool :: "string \<Rightarrow> bool option result"
  js_int :: "string \<Rightarrow> int64 option result"
  js_strings :: "string \<Rightarrow> (string, string) gomap option result"

definition read_field :: "'v option result \<Rightarrow> ('v \<Rightarrow> 'a \<Rightarrow> 'a) \<Rightarrow> 'a \<Rightarrow> 'a \<times> member_outcome" where
  "read_field r upd a = (case r of Inl e \<Rightarrow> (a, Mismatch e) | Inr None \<Rightarrow> (a, Stored) | Inr (Some v) \<Rightarrow> (upd v a, Stored))"

text \<open>The value of a field whose type has its own \<open>UnmarshalJSON\<close>.\<close>

definition own_field :: "'v \<times> gerror option \<Rightarrow> ('v \<Rightarrow> 'a \<Rightarrow> 'a) \<Rightarrow> 'a \<Rightarrow> 'a \<times> member_outcome" where
  "own_field r upd a = (case r of (v, None) \<Rightarrow> (upd v a, Stored) | (v, Some e) \<Rightarrow> (upd v a, Failed e))"

fun decode_members :: "'a member_reader \<Rightarrow> (string \<times> string) list \<Rightarrow> 'a \<times> gerror option \<Rightarrow> 'a \<times> member_outcome" where
  "decode_members rd [] (a, saved) = (a, (case saved of None \<Rightarrow> Stored | Some e \<Rightarrow> Mismatch e))"
| "decode_members rd ((k, v) # ms) (a, saved) =
     (case rd k v a of
        (a', Stored) \<Rightarrow> decode_members rd ms (a', saved)
      | (a', Mismatch e) \<Rightarrow> decode_members rd ms (a', (case saved of None \<Rightarrow> Some e | Some e0 \<Rightarrow> Some e0))
      | (a', Failed e) \<Rightarrow> (a', Failed e))"

definition decode_nested :: "json_lib \<Rightarrow> 'a member_reader \<Rightarrow> string \<Rightarrow> 'a \<Rightarrow> 'a \<times> member_outcome" where
  "decode_nested js rd txt a = (case js_members js txt of Inl e \<Rightarrow> (a, Mismatch e) | Inr ms \<Rightarrow> decode_members rd ms (a, None))"

definition outcome_error :: "member_outcome \<Rightarrow> gerror option" where
  "outcome_error oc = (case oc of Stored \<Rightarrow> None | Mismatch e \<Rightarrow> Some e | Failed e \<Rightarrow> Some e)"

definition json_Unmarshal :: "json_lib \<Rightarrow> 'a member_reader \<Rightarrow> string \<Rightarrow> 'a \<Rightarrow> 'a \<times> gerror option" where
  "json_Unmarshal js rd txt a = (case decode_nested js rd txt a of (a', oc) \<Rightarrow> (a', outcome_error oc))"

section \<open>Options\<close>

record RetryOptions =
  rt_Enabled :: bool
  rt_InitialInterval :: int64
  rt_MaxInterval :: int64
  rt_MaxElapsedTime :: int64

definition seconds :: "int64 \<Rightarrow> int64" where
  "seconds n = n * 1000000000"

definition DefaultRetryConfig :: RetryOptions where
  "DefaultRetryConfig = \<lparr>rt_Enabled = True, rt_InitialInterval = seconds 5, rt_MaxInterval = seconds 30,
     rt_MaxElapsedTime = seconds 60\<rparr>"

definition retry_member :: "json_lib \<Rightarrow> RetryOptions member_reader" where
  "retry_member js k v c =
     (if k = ''enabled'' then read_field (js_bool js v) (\<lambda>x c. c\<lparr>rt_Enabled := x\<rparr>) c
      else if k = ''initialinterval'' then read_field (js_int js v) (\<lambda>x c. c\<lparr>rt_InitialInterval := x\<rparr>) c
      else if k = ''maxinterval'' then read_field (js_int js v) (\<lambda>x c. c\<lparr>rt_MaxInterval := x\<rparr>) c
      else if k = ''maxelapsedtime'' then read_field (js_int js v) (\<lambda>x c. c\<lparr>rt_MaxElapsedTime := x\<rparr>) c
      else (c, Stored))"

abbreviation quoted :: "string \<Rightarrow> string" where
  "quoted s \<equiv> CHR 0x22 # s @ [CHR 0x22]"

definition RetryOptions_UnmarshalJSON :: "json_lib \<Rightarrow> string \<Rightarrow> RetryOptions \<times> gerror option" where
  "RetryOptions_UnmarshalJSON js txt =
     (let c = \<lparr>rt_Enabled = True, rt_InitialInterval = seconds 5, rt_MaxInterval = seconds 30,
              rt_MaxElapsedTime = seconds 60\<rparr> in
      if txt = ''false'' \<or> txt = quoted ''false'' then (c\<lparr>rt_Enabled := False\<rparr>, None)
      else json_Unmarshal js (retry_member js) txt c)"

text \<open>\<open>NoCompression\<close> is 0 and \<open>GzipCompression\<close> is 1.\<close>

definition Compression_UnmarshalJSON :: "int \<Rightarrow> string \<Rightarrow> int \<times> gerror option" where
  "Compression_UnmarshalJSON c txt =
     ((if txt \<in> {quoted ''true'', ''true'', ''1'', quoted ''1'', quoted ''gzip''} then 1
       else if txt \<in> {quoted ''false'', ''false'', ''0'', quoted ''0'', []} then 0
       else c),
      Some ''the value can only be one of true, false, or gzip'')"

record HTTPClientOptions =
  ht_Endpoint :: string
  ht_Timeout :: int64
  ht_Insecure :: bool
  ht_Retry :: RetryOptions
  ht_Compression :: int
  ht_Header :: "(string, string) gomap"
  ht_TLSConfig :: "TLSOptions option"
  ht_URLPath :: string

record GRPCClientOptions =
  gr_Endpoint :: string
  gr_Timeout :: int64
  gr_Insecure :: bool
  gr_Retry :: RetryOptions
  gr_Compression :: int
  gr_Header :: "(string, string) gomap"
  gr_TLSConfig :: TLSOptions
  gr_ReconnectionPeriod :: int64
  gr_ServiceConfig :: string

record TraceOptions =
  to_HTTP :: "HTTPClientOptions option"
  to_GRPC :: "GRPCClientOptions option"
  to_Zipkin :: "string option"
  to_File :: "string option"
  to_ServiceName :: string

definition zero_retry :: RetryOptions where
  "zero_retry = \<lparr>rt_Enabled = False, rt_InitialInterval = 0, rt_MaxInterval = 0, rt_MaxElapsedTime = 0\<rparr>"

definition zero_tls :: TLSOptions where
  "zero_tls = \<lparr>CAFile = [], CertFile = [], KeyFile = [], ServerName = [], InsecureSkipVerify = False, MinVersion = []\<rparr>"

definition zero_grpc :: GRPCClientOptions where
  "zero_grpc = \<lparr>gr_Endpoint = [], gr_Timeout = 0, gr_Insecure = False, gr_Retry = zero_retry, gr_Compression = 0,
     gr_Header = [], gr_TLSConfig = zero_tls, gr_ReconnectionPeriod = 0, gr_ServiceConfig = []\<rparr>"

definition TraceOptions_Reset :: TraceOptions where
  "TraceOptions_Reset = \<lparr>to_HTTP = None, to_GRPC = None, to_Zipkin = None, to_File = None, to_ServiceName = []\<rparr>"

definition tls_member :: "json_lib \<Rightarrow> TLSOptions member_reader" where
  "tls_member js k v c =
     (if k = ''ca_file'' then read_field (js_string js v) (\<lambda>x c. c\<lparr>CAFile := x\<rparr>) c
      else if k = ''cert_file'' then read_field (js_string js v) (\<lambda>x c. c\<lparr>CertFile := x\<rparr>) c
      else if k = ''key_file'' then read_field (js_string js v) (\<lambda>x c. c\<lparr>KeyFile := x\<rparr>) c
      else if k = ''server_name'' then read_field (js_string js v) (\<lambda>x c. c\<lparr>ServerName := x\<rparr>) c
      else if k = ''insecure_skip_verify'' then read_field (js_bool js v) (\<lambda>x c. c\<lparr>InsecureSkipVerify := x\<rparr>) c
      else if k = ''min_version'' then read_field (js_string js v) (\<lambda>x c. c\<lparr>MinVersion := x\<rparr>) c
      else (c, Stored))"

text \<open>A pointer is nil after \<open>null\<close>; otherwise its object is decoded in place, or into a new one.\<close>

definition pointer_field :: "('v \<Rightarrow> 'v \<times> member_outcome) \<Rightarrow> 'v \<Rightarrow> string \<Rightarrow> 'v option \<Rightarrow> 'v option \<times> member_outcome" where
  "pointer_field rd new v p =
     (if v = ''null'' then (None, Stored)
      else case rd (case p of None \<Rightarrow> new | Some x \<Rightarrow> x) of (x, oc) \<Rightarrow> (Some x, oc))"

definition http_member :: "json_lib \<Rightarrow> HTTPClientOptions member_reader" where
  "http_member js k v c =
     (if k = ''endpoint'' then read_field (js_string js v) (\<lambda>x c. c\<lparr>ht_Endpoint := x\<rparr>) c
      else if k = ''timeout'' then read_field (js_int js v) (\<lambda>x c. c\<lparr>ht_Timeout := x\<rparr>) c
      else if k = ''insecure'' then read_field (js_bool js v) (\<lambda>x c. c\<lparr>ht_Insecure := x\<rparr>) c
      else if k = ''retry'' then own_field (RetryOptions_UnmarshalJSON js v) (\<lambda>x c. c\<lparr>ht_Retry := x\<rparr>) c
      else if k = ''compression'' then
        own_field (Compression_UnmarshalJSON (ht_Compression c) v) (\<lambda>x c. c\<lparr>ht_Compression := x\<rparr>) c
      else if k = ''header'' then read_field (js_strings js v) (\<lambda>x c. c\<lparr>ht_Header := x\<rparr>) c
      else if k = ''tls_config'' then
        (case pointer_field (decode_nested js (tls_member js) v) zero_tls v (ht_TLSConfig c) of
           (p, oc) \<Rightarrow> (c\<lparr>ht_TLSConfig := p\<rparr>, oc))
      else if k = ''url_path'' then read_field (js_string js v) (\<lambda>x c. c\<lparr>ht_URLPath := x\<rparr>) c
      else (c, Stored))"

definition http_defaults :: HTTPClientOptions where
  "http_defaults = \<lparr>ht_Endpoint = [], ht_Timeout = seconds 10, ht_Insecure = True, ht_Retry = DefaultRetryConfig,
     ht_Compression = 0, ht_Header = [], ht_TLSConfig = None, ht_URLPath = ''/v1/traces''\<rparr>"

definition HTTPClientOptions_UnmarshalJSON :: "json_lib \<Rightarrow> string \<Rightarrow> HTTPClientOptions \<times> gerror option" where
  "HTTPClientOptions_UnmarshalJSON js txt = json_Unmarshal js (http_member js) txt http_defaults"

text \<open>The options of gRPC have no \<open>UnmarshalJSON\<close> of their own.\<close>

definition grpc_member :: "json_lib \<Rightarrow> GRPCClientOptions member_reader" where
  "grpc_member js k v c =
     (if k = ''endpoint'' then read_field (js_string js v) (\<lambda>x c. c\<lparr>gr_Endpoint := x\<rparr>) c
      else if k = ''timeout'' then read_field (js_int js v) (\<lambda>x c. c\<lparr>gr_Timeout := x\<rparr>) c
      else if k = ''insecure'' then read_field (js_bool js v) (\<lambda>x c. c\<lparr>gr_Insecure := x\<rparr>) c
      else if k = ''retry'' then own_field (RetryOptions_UnmarshalJSON js v) (\<lambda>x c. c\<lparr>gr_Retry := x\<rparr>) c
      else if k = ''compression'' then
        own_field (Compression_UnmarshalJSON (gr_Compression c) v) (\<lambda>x c. c\<lparr>gr_Compression := x\<rparr>) c
      else if k = ''header'' then read_field (js_strings js v) (\<lambda>x c. c\<lparr>gr_Header := x\<rparr>) c
      else if k = ''tls_config'' then
        (case decode_nested js (tls_member js) v (gr_TLSConfig c) of (t, oc) \<Rightarrow> (c\<lparr>gr_TLSConfig := t\<rparr>, oc))
      else if k = ''reconnection_period'' then read_field (js_int js v) (\<lambda>x c. c\<lparr>gr_ReconnectionPeriod := x\<rparr>) c
      else if k = ''service_config'' then read_field (js_string js v) (\<lambda>x c. c\<lparr>gr_ServiceConfig := x\<rparr>) c
      else (c, Stored))"

text \<open>Zipkin and File each have one member.\<close>

definition string_member :: "json_lib \<Rightarrow> string \<Rightarrow> string member_reader" where
  "string_member js field k v c = (if k = field then read_field (js_string js v) (\<lambda>x c. x) c else (c, Stored))"

definition own_nested :: "'v \<times> gerror option \<Rightarrow> 'v \<times> member_outcome" where
  "own_nested r = (case r of (v, None) \<Rightarrow> (v, Stored) | (v, Some e) \<Rightarrow> (v, Failed e))"

definition trace_member :: "json_lib \<Rightarrow> TraceOptions member_reader" where
  "trace_member js k v c =
     (if k = ''http'' then
        (case pointer_field (\<lambda>_. own_nested (HTTPClientOptions_UnmarshalJSON js v)) http_defaults v (to_HTTP c) of
           (p, oc) \<Rightarrow> (c\<lparr>to_HTTP := p\<rparr>, oc))
      else if k = ''grpc'' then
        (case pointer_field (decode_nested js (grpc_member js) v) zero_grpc v (to_GRPC c) of
           (p, oc) \<Rightarrow> (c\<lparr>to_GRPC := p\<rparr>, oc))
      else if k = ''zipkin'' then
        (case pointer_field (decode_nested js (string_member js ''endpoint'') v) [] v (to_Zipkin c) of
           (p, oc) \<Rightarrow> (c\<lparr>to_Zipkin := p\<rparr>, oc))
      else if k = ''file'' then
        (case pointer_field (decode_nested js (string_member js ''path'') v) [] v (to_File c) of
           (p, oc) \<Rightarrow> (c\<lparr>to_File := p\<rparr>, oc))
      else if k = ''service_name'' then read_field (js_string js v) (\<lambda>x c. c\<lparr>to_ServiceName := x\<rparr>) c
      else (c, Stored))"

definition TraceOptions_UnmarshalJSON :: "json_lib \<Rightarrow> TraceOptions \<Rightarrow> string \<Rightarrow> TraceOptions \<times> gerror option" where
  "TraceOptions_UnmarshalJSON js o0 txt = json_Unmarshal js (trace_member js) txt o0"

text \<open>
  The encoder writes the value and a line break, or nothing with an error. What has been written is returned
  together with the error.
\<close>

record json_encoder =
  je_HTTP :: "string \<Rightarrow> HTTPClientOptions \<Rightarrow> string result"
  je_GRPC :: "string \<Rightarrow> GRPCClientOptions \<Rightarrow> string result"
  je_Zipkin :: "string \<Rightarrow> string \<Rightarrow> string result"
  je_File :: "string \<Rightarrow> string \<Rightarrow> string result"

definition backend_text :: "string \<Rightarrow> string \<Rightarrow> string result \<Rightarrow> string \<times> gerror option" where
  "backend_text indent field r =
     (let start = indent @ indent @ quoted field @ '':'' in
      case r of Inl e \<Rightarrow> (start @ [CHR 0x0A], Some e) | Inr t \<Rightarrow> (start @ t @ [CHR 0x0A] @ [CHR 0x0A], None))"

definition TraceOptions_MarshalJSONPB :: "json_encoder \<Rightarrow> string \<Rightarrow> TraceOptions \<Rightarrow> string \<times> gerror option" where
  "TraceOptions_MarshalJSONPB je indent o0 =
     (case (case to_HTTP o0 of
              Some c \<Rightarrow> backend_text indent ''http'' (je_HTTP je indent c)
            | None \<Rightarrow>
                (case to_GRPC o0 of
                   Some c \<Rightarrow> backend_text indent ''grpc'' (je_GRPC je indent c)
                 | None \<Rightarrow>
                     (case to_Zipkin o0 of
                        Some c \<Rightarrow> backend_text indent ''zipkin'' (je_Zipkin je indent c)
                      | None \<Rightarrow>
                          (case to_File o0 of
                             Some c \<Rightarrow> backend_text indent ''file'' (je_File je indent c)
                           | None \<Rightarrow> ([], None))))) of
        (t, err) \<Rightarrow> (indent @ ''{'' @ t @ indent @ ''}'', err))"

section \<open>Exporters\<close>

text \<open>An option of \<open>otlptracehttp\<close> or \<open>otlptracegrpc\<close>, with what it is given.\<close>

datatype 'p otlp_option =
    WithEndpoint string
  | WithTimeout int64
  | WithRetry RetryOptions
  | WithCompression int
  | WithHeaders "(string, string) gomap"
  | WithURLPath string
  | WithInsecure
  | WithTLSClientConfig "'p tls_Config"
  | WithTLSCredentials "'p tls_Config"
  | WithServiceConfig string
  | WithReconnectionPeriod int64
  | WithCompressor string

text \<open>\<open>FileTracing\<close> is the exporter of the library with its file.\<close>

datatype exporter = LibExporter nat | FileTracing nat nat | NopExporter

datatype resource = Resource "(string \<times> string) list" "(string \<times> string) list" | Merged resource

text \<open>
  The libraries: the constructors of exporters, the file system, the resource and the provider. The two lists
  of a resource are the attributes that the package gives and those of the caller's options.
\<close>

record ('p, 'w) trace_lib =
  tr_http :: "'p otlp_option list \<Rightarrow> 'w \<Rightarrow> 'w \<times> (gerror + nat)"
  tr_grpc :: "'p otlp_option list \<Rightarrow> 'w \<Rightarrow> 'w \<times> (gerror + nat)"
  tr_zipkin :: "string \<Rightarrow> 'w \<Rightarrow> 'w \<times> (gerror + nat)"
  tr_Create :: "string \<Rightarrow> 'w \<Rightarrow> 'w \<times> (gerror + nat)"
  tr_stdout :: "nat \<Rightarrow> 'w \<Rightarrow> 'w \<times> (gerror + nat)"
  tr_Sync :: "nat \<Rightarrow> 'w \<Rightarrow> 'w \<times> gerror option"
  tr_CloseFile :: "nat \<Rightarrow> 'w \<Rightarrow> 'w \<times> gerror option"
  tr_resource :: "resource \<Rightarrow> 'w \<Rightarrow> 'w \<times> gerror option"
  tr_provider :: "exporter \<Rightarrow> resource \<Rightarrow> 'w \<Rightarrow> 'w \<times> nat"
  tr_ForceFlush :: "nat \<Rightarrow> 'w \<Rightarrow> 'w \<times> gerror option"
  tr_Shutdown :: "nat \<Rightarrow> 'w \<Rightarrow> 'w \<times> gerror option"

datatype 'p trace_call =
    HTTPNew "'p otlp_option list"
  | GRPCNew "'p otlp_option list"
  | ZipkinNew string
  | CreateFile string
  | StdoutNew nat
  | SyncFile nat
  | CloseFile nat
  | ResourceNew resource
  | ProviderNew exporter resource
  | ForceFlushCall nat
  | ShutdownCall nat

text \<open>
  The state: the world and the calls so far, the process-wide shutdown handler, the provider that each hook
  closes, and the two globals that \<open>NewTraceProvider\<close> sets in package \<open>otel\<close> (whether they were set).
\<close>

record ('p, 'w) trace_state =
  ts_world :: 'w
  ts_calls :: "'p trace_call list"
  ts_stop :: "Handler option"
  ts_hooks :: "(nat, nat) gomap"
  ts_otel :: bool
  ts_DefaultOptions :: "TraceOptions option"

definition do_call :: "'p trace_call \<Rightarrow> ('w \<Rightarrow> 'w \<times> 'a) \<Rightarrow> ('p, 'w) trace_state \<Rightarrow> ('p, 'w) trace_state \<times> 'a" where
  "do_call c f s = (case f (ts_world s) of (w, r) \<Rightarrow> (s\<lparr>ts_world := w, ts_calls := ts_calls s @ [c]\<rparr>, r))"

datatype tracing_error = LibError gerror | TLSError tls_error

type_synonym ('p, 'w) exporter_result = "('p, 'w) trace_state \<times> (tracing_error + exporter)"

fun lib_exporter :: "('p, 'w) trace_state \<times> (gerror + nat) \<Rightarrow> ('p, 'w) exporter_result" where
  "lib_exporter (s, Inl e) = (s, Inl (LibError e))"
| "lib_exporter (s, Inr n) = (s, Inr (LibExporter n))"

definition NewHTTPTraceExporter ::
    "'p tls_lib \<Rightarrow> ('p, 'w) trace_lib \<Rightarrow> HTTPClientOptions \<Rightarrow> ('p, 'w) trace_state \<Rightarrow> ('p, 'w) exporter_result" where
  "NewHTTPTraceExporter tlib lib c s =
     (let opts = [WithEndpoint (ht_Endpoint c), WithTimeout (ht_Timeout c), WithRetry (ht_Retry c),
                  WithCompression (ht_Compression c), WithHeaders (ht_Header c), WithURLPath (ht_URLPath c)] in
      if ht_Insecure c then
        (let opts = opts @ [WithInsecure] in lib_exporter (do_call (HTTPNew opts) (tr_http lib opts) s))
      else
        (case NewTLSConfig tlib (ht_TLSConfig c) of
           Inl err \<Rightarrow> (s, Inl (TLSError err))
         | Inr tlsConfig \<Rightarrow>
             (let opts = opts @ [WithTLSClientConfig tlsConfig] in
              lib_exporter (do_call (HTTPNew opts) (tr_http lib opts) s))))"

text \<open>The option with the credentials is made and dropped: line 62 does not append it.\<close>

definition NewGRPCTraceExporter ::
    "'p tls_lib \<Rightarrow> ('p, 'w) trace_lib \<Rightarrow> GRPCClientOptions \<Rightarrow> ('p, 'w) trace_state \<Rightarrow> ('p, 'w) exporter_result" where
  "NewGRPCTraceExporter tlib lib c s =
     (let opts = [WithEndpoint (gr_Endpoint c), WithTimeout (gr_Timeout c), WithRetry (gr_Retry c),
                  WithHeaders (gr_Header c), WithServiceConfig (gr_ServiceConfig c),
                  WithReconnectionPeriod (gr_ReconnectionPeriod c)];
          finish = (\<lambda>opts.
            let opts = (if gr_Compression c = 1 then opts @ [WithCompressor ''gzip''] else opts) in
            lib_exporter (do_call (GRPCNew opts) (tr_grpc lib opts) s)) in
      if gr_Insecure c then finish (opts @ [WithInsecure])
      else
        (case NewTLSConfig tlib (Some (gr_TLSConfig c)) of
           Inl err \<Rightarrow> (s, Inl (TLSError err))
         | Inr tlsConfig \<Rightarrow> (let _ = WithTLSCredentials tlsConfig in finish opts)))"

definition NewZipkinTraceExporter ::
    "('p, 'w) trace_lib \<Rightarrow> string \<Rightarrow> ('p, 'w) trace_state \<Rightarrow> ('p, 'w) exporter_result" where
  "NewZipkinTraceExporter lib endpoint s = lib_exporter (do_call (ZipkinNew endpoint) (tr_zipkin lib endpoint) s)"

definition NewFileTraceExporter ::
    "('p, 'w) trace_lib \<Rightarrow> string \<Rightarrow> ('p, 'w) trace_state \<Rightarrow> ('p, 'w) exporter_result" where
  "NewFileTraceExporter lib path s =
     (case do_call (CreateFile path) (tr_Create lib path) s of
        (s1, Inl err) \<Rightarrow> (s1, Inl (LibError err))
      | (s1, Inr f) \<Rightarrow>
          (case do_call (StdoutNew f) (tr_stdout lib f) s1 of
             (s2, Inl err) \<Rightarrow> (s2, Inl (LibError err))
           | (s2, Inr e) \<Rightarrow> (s2, Inr (FileTracing e f))))"

definition FileTracing_Shutdown ::
    "('p, 'w) trace_lib \<Rightarrow> nat \<Rightarrow> ('p, 'w) trace_state \<Rightarrow> ('p, 'w) trace_state \<times> gerror option" where
  "FileTracing_Shutdown lib f s =
     (case do_call (SyncFile f) (tr_Sync lib f) s of
        (s1, Some err) \<Rightarrow> (s1, Some err)
      | (s1, None) \<Rightarrow> do_call (CloseFile f) (tr_CloseFile lib f) s1)"

definition NewNopTraceExporter :: "('p, 'w) trace_state \<Rightarrow> ('p, 'w) exporter_result" where
  "NewNopTraceExporter s = (s, Inr NopExporter)"

definition nop_ExportSpans :: "'span list \<Rightarrow> gerror option" where
  "nop_ExportSpans spans = None"

definition nop_Shutdown :: "gerror option" where
  "nop_Shutdown = None"

section \<open>The provider\<close>

text \<open>A trace identifier is 16 bytes, a span identifier 8; a failed \<open>rand.Read\<close> leaves the bytes it has.\<close>

definition NewSpanID :: "byte list \<Rightarrow> byte list" where
  "NewSpanID random = random"

text \<open>\<open>uuid.Must\<close> panics on the error of \<open>NewV4\<close>.\<close>

definition NewIDs ::
    "(string \<Rightarrow> byte list result) \<Rightarrow> byte list result \<Rightarrow> string \<Rightarrow> byte list \<Rightarrow> 'c log_context \<Rightarrow>
     (byte list \<times> byte list) go" where
  "NewIDs uuid_FromString NewV4 fresh_id random ctx =
     go_bind (case uuid_FromString (GetTraceId fresh_id ctx) of
                Inl err \<Rightarrow> (case NewV4 of Inl e \<Rightarrow> Panic e | Inr tid \<Rightarrow> Ret tid)
              | Inr tid \<Rightarrow> Ret tid)
       (\<lambda>tid. Ret (tid, NewSpanID random))"

definition SetTraceOptions :: "TraceOptions option \<Rightarrow> ('p, 'w) trace_state \<Rightarrow> ('p, 'w) trace_state" where
  "SetTraceOptions o0 s = s\<lparr>ts_DefaultOptions := o0\<rparr>"

text \<open>The options of a provider are the list of their attributes.\<close>

type_synonym TraceProviderOptions = "(string \<times> string) list"

definition WithAttributes :: "(string \<times> string) list \<Rightarrow> TraceProviderOptions \<Rightarrow> TraceProviderOptions" where
  "WithAttributes attrs = (\<lambda>Attrs. Attrs @ attrs)"

definition choose_exporter ::
    "'p tls_lib \<Rightarrow> ('p, 'w) trace_lib \<Rightarrow> TraceOptions \<Rightarrow> ('p, 'w) trace_state \<Rightarrow> ('p, 'w) exporter_result" where
  "choose_exporter tlib lib o0 s =
     (case to_HTTP o0 of
        Some c \<Rightarrow> NewHTTPTraceExporter tlib lib c s
      | None \<Rightarrow>
          (case to_GRPC o0 of
             Some c \<Rightarrow> NewGRPCTraceExporter tlib lib c s
           | None \<Rightarrow>
               (case to_Zipkin o0 of
                  Some c \<Rightarrow> NewZipkinTraceExporter lib c s
                | None \<Rightarrow>
                    (case to_File o0 of
                       Some c \<Rightarrow> NewFileTraceExporter lib c s
                     | None \<Rightarrow> NewNopTraceExporter s))))"

definition resource_attrs :: "string \<Rightarrow> string \<Rightarrow> string \<Rightarrow> (string \<times> string) list" where
  "resource_attrs serviceName ns arch =
     (if length serviceName \<noteq> 0 then [(''service.name'', serviceName)] else []) @
     (if length ns \<noteq> 0 then [(''service.namespace'', ns)] else []) @ [(''host.arch'', arch)]"

text \<open>
  \<open>ns\<close> is the environment's service namespace, \<open>arch\<close> the architecture, \<open>hook\<close> the number of the new hook. The
  hook is added to the handler that has been set up; without one \<open>SignalHandler\<close> panics.
\<close>

definition NewTraceProvider ::
    "'p tls_lib \<Rightarrow> ('p, 'w) trace_lib \<Rightarrow> string \<Rightarrow> string \<Rightarrow> nat \<Rightarrow> TraceOptions \<Rightarrow>
     (TraceProviderOptions \<Rightarrow> TraceProviderOptions) list \<Rightarrow> ('p, 'w) trace_state \<Rightarrow>
     (('p, 'w) trace_state \<times> (tracing_error + nat)) go" where
  "NewTraceProvider tlib lib ns arch hook o0 opts s =
     (let options = foldl (\<lambda>a opt. opt a) [] opts in
      case choose_exporter tlib lib o0 s of
        (s1, Inl err) \<Rightarrow> Ret (s1, Inl err)
      | (s1, Inr expo) \<Rightarrow>
          let r0 = Resource (resource_attrs (to_ServiceName o0) ns arch) options in
          (case do_call (ResourceNew r0) (tr_resource lib r0) s1 of
             (s2, Some err) \<Rightarrow> Ret (s2, Inl (LibError err))
           | (s2, None) \<Rightarrow>
               (case do_call (ResourceNew (Merged r0)) (tr_resource lib (Merged r0)) s2 of
                  (s3, Some err) \<Rightarrow> Ret (s3, Inl (LibError err))
                | (s3, None) \<Rightarrow>
                    (case do_call (ProviderNew expo (Merged r0)) (tr_provider lib expo (Merged r0)) (s3\<lparr>ts_otel := True\<rparr>) of
                       (s4, tracer) \<Rightarrow>
                         go_bind (SignalHandler (ts_stop s4)) (\<lambda>h.
                         go_bind (PreStop h LevelTrace hook) (\<lambda>h'.
                           Ret (s4\<lparr>ts_stop := Some h', ts_hooks := AList.update hook tracer (ts_hooks s4)\<rparr>, Inr tracer)))))))"

text \<open>The function that the hook runs: the errors are only logged.\<close>

definition trace_hook :: "('p, 'w) trace_lib \<Rightarrow> nat \<Rightarrow> ('p, 'w) trace_state \<Rightarrow> ('p, 'w) trace_state" where
  "trace_hook lib hook s =
     (case map_of (ts_hooks s) hook of
        None \<Rightarrow> s
      | Some tracer \<Rightarrow>
          let s1 = fst (do_call (ForceFlushCall tracer) (tr_ForceFlush lib tracer) s) in
          fst (do_call (ShutdownCall tracer) (tr_Shutdown lib tracer) s1))"

section \<open>What an exporter's constructor may change\<close>

definition trace_extends :: "('p, 'w) trace_state \<Rightarrow> ('p, 'w) trace_state \<Rightarrow> 'p trace_call list \<Rightarrow> bool" where
  "trace_extends s s' new \<longleftrightarrow> s' = s\<lparr>ts_world := ts_world s', ts_calls := ts_calls s @ new\<rparr>"

lemma trace_extends_refl: "trace_extends s s []"
  by (simp add: trace_extends_def)

lemma trace_extends_call: "do_call c f s = (s', r) \<Longrightarrow> trace_extends s s' [c]"
  by (auto simp: do_call_def trace_extends_def split: prod.splits)

lemma trace_extends_trans: "trace_extends s s1 xs \<Longrightarrow> trace_extends s1 s2 ys \<Longrightarrow> trace_extends s s2 (xs @ ys)"
  by (cases s; cases s1; cases s2) (simp add: trace_extends_def)

lemma trace_extends_frame:
  "trace_extends s s' new \<Longrightarrow>
   ts_stop s' = ts_stop s \<and> ts_hooks s' = ts_hooks s \<and> ts_calls s' = ts_calls s @ new \<and>
   ts_DefaultOptions s' = ts_DefaultOptions s"
  by (cases s; cases s') (simp add: trace_extends_def)

lemma lib_exporter_eq:
  "lib_exporter x = (s', r) \<longleftrightarrow>
     s' = fst x \<and> r = (case snd x of Inl e \<Rightarrow> Inl (LibError e) | Inr n \<Rightarrow> Inr (LibExporter n))"
  by (cases x rule: lib_exporter.cases) auto

lemma lib_exporter_calls [simp]: "ts_calls (fst (lib_exporter (do_call c f s))) = ts_calls s @ [c]"
  by (cases "do_call c f s" rule: lib_exporter.cases) (auto simp: do_call_def split: prod.splits)

text \<open>
  The contract of the constructors: they make calls, at most two, and leave the shutdown handler and the hooks
  alone. What follows from it is proved once for all of them.
\<close>

locale exporter_constructor =
  fixes make :: "('p, 'w) trace_state \<Rightarrow> ('p, 'w) exporter_result"
  assumes calls_only: "make s = (s', r) \<Longrightarrow> \<exists>new. trace_extends s s' new \<and> length new \<le> 2"
begin

lemma keeps: "make s = (s', r) \<Longrightarrow> ts_stop s' = ts_stop s \<and> ts_hooks s' = ts_hooks s"
  using calls_only trace_extends_frame by metis

lemma calls: "make s = (s', r) \<Longrightarrow> \<exists>new. ts_calls s' = ts_calls s @ new \<and> length new \<le> 2"
  using calls_only trace_extends_frame by metis

end

lemma one_call_only:
  "lib_exporter (do_call c f s) = (s', r) \<Longrightarrow> \<exists>new. trace_extends s s' new \<and> length new \<le> 2"
  using trace_extends_call [of c f s "fst (do_call c f s)" "snd (do_call c f s)"]
  by (intro exI [of _ "[c]"]) (simp add: lib_exporter_eq)

lemma no_call_only: "\<exists>new. trace_extends s s new \<and> length new \<le> 2"
  by (intro exI [of _ "[]"]) (simp add: trace_extends_refl)

interpretation http_new: exporter_constructor "NewHTTPTraceExporter tlib lib c" for tlib lib c
  by unfold_locales
    (auto simp: NewHTTPTraceExporter_def Let_def no_call_only split: if_splits sum.splits intro: one_call_only)

interpretation grpc_new: exporter_constructor "NewGRPCTraceExporter tlib lib c" for tlib lib c
  by unfold_locales
    (auto simp: NewGRPCTraceExporter_def Let_def no_call_only split: if_splits sum.splits intro: one_call_only)

interpretation zipkin_new: exporter_constructor "NewZipkinTraceExporter lib c" for lib c
  by unfold_locales (auto simp: NewZipkinTraceExporter_def intro: one_call_only)

lemma file_calls:
  "NewFileTraceExporter lib path s = (s', r) \<Longrightarrow> \<exists>new. trace_extends s s' new \<and> length new \<le> 2"
proof (cases "do_call (CreateFile path) (tr_Create lib path) s")
  case (Pair s1 q)
  assume new: "NewFileTraceExporter lib path s = (s', r)"
  note one = trace_extends_call [OF Pair]
  show ?thesis
  proof (cases q)
    case (Inl e)
    then show ?thesis using new Pair one
      by (intro exI [of _ "[CreateFile path]"]) (simp add: NewFileTraceExporter_def)
  next
    case (Inr f)
    obtain s2 q2 where two: "do_call (StdoutNew f) (tr_stdout lib f) s1 = (s2, q2)" by (meson surj_pair)
    then have "s' = s2" using new Pair Inr by (auto simp: NewFileTraceExporter_def split: sum.splits)
    then show ?thesis using trace_extends_trans [OF one trace_extends_call [OF two]]
      by (intro exI [of _ "[CreateFile path, StdoutNew f]"]) simp
  qed
qed

interpretation file_new: exporter_constructor "NewFileTraceExporter lib path" for lib path
  by unfold_locales (rule file_calls)

interpretation nop_new: exporter_constructor NewNopTraceExporter
  by unfold_locales (auto simp: NewNopTraceExporter_def no_call_only)

interpretation chosen: exporter_constructor "choose_exporter tlib lib o0" for tlib lib o0
  by unfold_locales
    (auto simp: choose_exporter_def split: option.splits
      intro: http_new.calls_only grpc_new.calls_only zipkin_new.calls_only file_new.calls_only nop_new.calls_only)

section \<open>Lemmas on decoding\<close>

text \<open>A member that always fails makes the whole object fail.\<close>

lemma decode_members_fails:
  assumes "(k, v) \<in> set ms" "\<And>a. \<exists>a' e. rd k v a = (a', Failed e)"
  shows "\<exists>a' e. decode_members rd ms (a, saved) = (a', Failed e)"
  using assms(1)
proof (induction ms arbitrary: a saved)
  case (Cons m ms)
  obtain k' v' where m: "m = (k', v')" by (cases m)
  show ?case
  proof (cases "(k, v) = m")
    case True
    then show ?thesis using assms(2) [of a] m by auto
  next
    case False
    then have "(k, v) \<in> set ms" using Cons.prems by simp
    then show ?thesis using Cons.IH m by (simp split: prod.splits member_outcome.splits)
  qed
qed simp

text \<open>What no member changes is as before.\<close>

lemma decode_members_keeps:
  assumes "\<And>k v a. (k, v) \<in> set ms \<Longrightarrow> proj (fst (rd k v a)) = proj a"
  shows "proj (fst (decode_members rd ms (a, saved))) = proj a"
  using assms
proof (induction ms arbitrary: a saved)
  case (Cons m ms)
  obtain k v where m: "m = (k, v)" by (cases m)
  have rest: "proj (fst (decode_members rd ms (a', saved'))) = proj a'" for a' saved'
    by (rule Cons.IH) (rule Cons.prems, simp)
  have "proj (fst (rd k v a)) = proj a" using Cons.prems [of k v a] m by simp
  then show ?case using m rest by (auto split: prod.splits member_outcome.splits)
qed simp

lemma json_Unmarshal_members:
  "js_members js txt = Inr ms \<Longrightarrow>
   json_Unmarshal js rd txt a = (case decode_members rd ms (a, None) of (a', oc) \<Rightarrow> (a', outcome_error oc))"
  by (simp add: json_Unmarshal_def decode_nested_def)

lemma json_Unmarshal_keeps:
  "js_members js txt = Inr ms \<Longrightarrow> (\<And>k v a. (k, v) \<in> set ms \<Longrightarrow> proj (fst (rd k v a)) = proj a) \<Longrightarrow>
   json_Unmarshal js rd txt a = (c, r) \<Longrightarrow> proj c = proj a"
  using decode_members_keeps [of ms proj rd a None] by (simp add: json_Unmarshal_members split: prod.splits)

lemma read_field_keeps: "(\<And>x. proj (upd x a) = proj a) \<Longrightarrow> proj (fst (read_field r upd a)) = proj a"
  by (simp add: read_field_def split: sum.splits option.splits)

lemma own_field_keeps: "(\<And>x. proj (upd x a) = proj a) \<Longrightarrow> proj (fst (own_field r upd a)) = proj a"
  by (simp add: own_field_def split: prod.splits option.splits)

text \<open>A member without its field's name changes nothing.\<close>

lemma http_member_other:
  "k \<noteq> ''endpoint'' \<Longrightarrow> ht_Endpoint (fst (http_member js k v c)) = ht_Endpoint c"
  "k \<noteq> ''timeout'' \<Longrightarrow> ht_Timeout (fst (http_member js k v c)) = ht_Timeout c"
  "k \<noteq> ''insecure'' \<Longrightarrow> ht_Insecure (fst (http_member js k v c)) = ht_Insecure c"
  "k \<noteq> ''retry'' \<Longrightarrow> ht_Retry (fst (http_member js k v c)) = ht_Retry c"
  "k \<noteq> ''url_path'' \<Longrightarrow> ht_URLPath (fst (http_member js k v c)) = ht_URLPath c"
  unfolding http_member_def by (simp_all add: if_distrib [of fst] read_field_keeps own_field_keeps split: prod.split)

lemma grpc_member_retry: "k \<noteq> ''retry'' \<Longrightarrow> gr_Retry (fst (grpc_member js k v c)) = gr_Retry c"
  unfolding grpc_member_def by (simp add: if_distrib [of fst] read_field_keeps own_field_keeps split: prod.split)

lemma http_compression_fails: "\<exists>a' e. http_member js ''compression'' v a = (a', Failed e)"
  by (simp add: http_member_def own_field_def Compression_UnmarshalJSON_def)

lemma grpc_compression_fails: "\<exists>a' e. grpc_member js ''compression'' v a = (a', Failed e)"
  by (simp add: grpc_member_def own_field_def Compression_UnmarshalJSON_def)

lemma http_compression_refused:
  "js_members js txt = Inr ms \<Longrightarrow> (''compression'', v) \<in> set ms \<Longrightarrow>
   \<exists>c e. HTTPClientOptions_UnmarshalJSON js txt = (c, Some e)"
  using decode_members_fails [where rd = "http_member js" and k = "''compression''", OF _ http_compression_fails,
      of v ms http_defaults None]
  by (auto simp: HTTPClientOptions_UnmarshalJSON_def json_Unmarshal_members outcome_error_def)

lemma grpc_compression_refused:
  "js_members js txt = Inr ms \<Longrightarrow> (''compression'', v) \<in> set ms \<Longrightarrow>
   \<exists>c' e. decode_nested js (grpc_member js) txt c = (c', Failed e)"
  using decode_members_fails [where rd = "grpc_member js" and k = "''compression''", OF _ grpc_compression_fails,
      of v ms c None]
  by (auto simp: decode_nested_def)

lemma pointer_field_fails:
  "v \<noteq> ''null'' \<Longrightarrow> (\<And>x. \<exists>x' e. rd x = (x', Failed e)) \<Longrightarrow> \<exists>p' e. pointer_field rd new v p = (p', Failed e)"
  unfolding pointer_field_def by (metis (no_types, lifting) old.prod.case)

lemma trace_backend_fails:
  assumes "b \<in> {''http'', ''grpc''}" "w \<noteq> ''null''" "js_members js w = Inr ms" "(''compression'', v) \<in> set ms"
  shows "\<exists>a' e. trace_member js b w a = (a', Failed e)"
proof (cases "b = ''http''")
  case True
  have "\<exists>p' e. pointer_field (\<lambda>_. own_nested (HTTPClientOptions_UnmarshalJSON js w)) http_defaults w (to_HTTP a) =
      (p', Failed e)"
    by (rule pointer_field_fails [OF assms(2)])
       (use http_compression_refused [OF assms(3,4)] in \<open>auto simp: own_nested_def\<close>)
  then show ?thesis using True by (auto simp: trace_member_def)
next
  case False
  have "\<exists>p' e. pointer_field (decode_nested js (grpc_member js) w) zero_grpc w (to_GRPC a) = (p', Failed e)"
    by (rule pointer_field_fails [OF assms(2) grpc_compression_refused [OF assms(3,4)]])
  then show ?thesis using False assms(1) by (auto simp: trace_member_def)
qed

section \<open>Properties\<close>

text \<open>A library that accepts everything: exporter 1, file 2, provider 3; and texts that are read as they are.\<close>

definition ok_lib :: "(unit, unit) trace_lib" where
  "ok_lib = \<lparr>tr_http = (\<lambda>_ w. (w, Inr 1)), tr_grpc = (\<lambda>_ w. (w, Inr 1)), tr_zipkin = (\<lambda>_ w. (w, Inr 1)),
     tr_Create = (\<lambda>_ w. (w, Inr 2)), tr_stdout = (\<lambda>_ w. (w, Inr 1)), tr_Sync = (\<lambda>_ w. (w, None)),
     tr_CloseFile = (\<lambda>_ w. (w, None)), tr_resource = (\<lambda>_ w. (w, None)), tr_provider = (\<lambda>_ _ w. (w, 3)),
     tr_ForceFlush = (\<lambda>_ w. (w, Some ''timeout'')), tr_Shutdown = (\<lambda>_ w. (w, None))\<rparr>"

definition no_files :: "unit tls_lib" where
  "no_files = \<lparr>ReadFile = (\<lambda>_. Inl ''no file''), CertsFromPEM = (\<lambda>_. None), LoadX509KeyPair = (\<lambda>_ _. None)\<rparr>"

definition new_state :: "Handler option \<Rightarrow> (unit, unit) trace_state" where
  "new_state h = \<lparr>ts_world = (), ts_calls = [], ts_stop = h, ts_hooks = [], ts_otel = False, ts_DefaultOptions = None\<rparr>"

definition text_lib :: json_lib where
  "text_lib = \<lparr>js_members = (\<lambda>t. Inr (if t = ''outer'' then [(''http'', ''inner'')]
       else if t = ''inner'' then [(''endpoint'', ''host:4318''), (''compression'', quoted ''gzip'')]
       else if t = ''retry'' then [(''endpoint'', ''host:4318''), (''retry'', ''false'')]
       else [(''endpoint'', ''host:4318'')])),
     js_string = (\<lambda>t. Inr (Some t)), js_bool = (\<lambda>_. Inr None), js_int = (\<lambda>_. Inr None), js_strings = (\<lambda>_. Inr None)\<rparr>"

lemma provider_made:
  assumes "NewTraceProvider tlib lib ns arch hook o0 opts s = Ret (s', Inr p)" "ts_stop s = Some h"
  shows "\<exists>h'. PreStop h LevelTrace hook = Ret h' \<and> ts_stop s' = Some h' \<and> map_of (ts_hooks s') hook = Some p"
proof -
  obtain s1 expo where s1: "choose_exporter tlib lib o0 s = (s1, Inr expo)"
    using assms(1) by (auto simp: NewTraceProvider_def Let_def split: prod.splits sum.splits)
  note keep = chosen.keeps [OF s1]
  define r0 where "r0 = Resource (resource_attrs (to_ServiceName o0) ns arch) (foldl (\<lambda>a opt. opt a) [] opts)"
  obtain s2 where s2: "do_call (ResourceNew r0) (tr_resource lib r0) s1 = (s2, None)"
    using assms(1) s1 by (auto simp: NewTraceProvider_def Let_def r0_def split: prod.splits option.splits)
  obtain s3 where s3: "do_call (ResourceNew (Merged r0)) (tr_resource lib (Merged r0)) s2 = (s3, None)"
    using assms(1) s1 s2 by (auto simp: NewTraceProvider_def Let_def r0_def [symmetric] split: prod.splits option.splits)
  obtain s4 q where s4: "do_call (ProviderNew expo (Merged r0)) (tr_provider lib expo (Merged r0)) (s3\<lparr>ts_otel := True\<rparr>) = (s4, q)"
    by (meson surj_pair)
  have frame: "ts_stop s4 = Some h" "ts_hooks s4 = ts_hooks s"
    using keep assms(2) trace_extends_frame [OF trace_extends_call [OF s2]]
      trace_extends_frame [OF trace_extends_call [OF s3]] trace_extends_frame [OF trace_extends_call [OF s4]] by simp_all
  obtain h' where h': "PreStop h LevelTrace hook = Ret h'" and
    s': "s' = s4\<lparr>ts_stop := Some h', ts_hooks := AList.update hook q (ts_hooks s4)\<rparr>" "p = q"
    using assms(1) s1 s2 s3 s4 frame
    by (auto simp: NewTraceProvider_def Let_def r0_def [symmetric] SignalHandler_def)
  then show ?thesis by (simp add: update_conv)
qed

interpretation provider_closer: closes_on_shutdown "\<lambda>hook. NewTraceProvider tlib lib ns arch hook o0 opts" ts_stop LevelTrace
  for tlib lib ns arch o0 opts
  by unfold_locales (use provider_made in blast)

lemma trace_hook_calls:
  "map_of (ts_hooks s) hook = Some p \<Longrightarrow> ts_calls (trace_hook lib hook s) = ts_calls s @ [ForceFlushCall p, ShutdownCall p]"
  by (simp add: trace_hook_def do_call_def Let_def split: prod.splits)

text \<open>C13: A tracer provider that is made while no shutdown is going on is flushed and shut down by it: whatever
  exporter is chosen, in every continuation and interleaving the hook has run when a caller of the shutdown is
  about to exit, and running it flushes the provider and then shuts it down, also when the flush fails.\<close>

theorem provider_closed_on_shutdown:
  assumes "ts_stop s = Some h" "reachable False h" "running False h" "holder h = None"
    and "NewTraceProvider tlib lib ns arch hook o0 opts s = Ret (s', Inr p)"
  shows "\<exists>h'. ts_stop s' = Some h' \<and>
    (\<forall>u t. (step False)\<^sup>*\<^sup>* h' u \<and> pcs u t = Exiting \<longrightarrow> (LevelTrace, hook) \<in> set (hooklog u)) \<and>
    ts_calls (trace_hook lib hook s') = ts_calls s' @ [ForceFlushCall p, ShutdownCall p]"
proof -
  obtain h' where h': "ts_stop s' = Some h'" "map_of (ts_hooks s') hook = Some p"
    using provider_made [OF assms(5,1)] by blast
  show ?thesis
    using provider_closer.hook_runs [OF assms(5,1-4) h'(1)] trace_hook_calls [OF h'(2)] h'(1) by blast
qed

theorem provider_closed_on_shutdown_witness:
  "\<exists>s' h' u. NewTraceProvider no_files ok_lib [] ''amd64'' 7 TraceOptions_Reset [] (new_state (Some new_handler)) = Ret (s', Inr 3) \<and>
     ts_stop s' = Some h' \<and> (step False)\<^sup>*\<^sup>* h' u \<and> pcs u 0 = Exiting \<and> (LevelTrace, 7) \<in> set (hooklog u)"
proof -
  have levels: "LevelTrace \<le> LevelMax" by (simp add: LevelTrace_def LevelMax_def)
  define h' where "h' = new_handler\<lparr>preStopFuncs := (preStopFuncs new_handler)(LevelTrace := [7])\<rparr>"
  obtain s' where new: "NewTraceProvider no_files ok_lib [] ''amd64'' 7 TraceOptions_Reset [] (new_state (Some new_handler)) = Ret (s', Inr 3)"
    and stop: "ts_stop s' = Some h'"
    using levels by (simp add: NewTraceProvider_def choose_exporter_def TraceOptions_Reset_def NewNopTraceExporter_def
        do_call_def ok_lib_def new_state_def SignalHandler_def PreStop_def h'_def new_handler_def Let_def)
  obtain u where u: "(step False)\<^sup>*\<^sup>* h' u" "pcs u 0 = Exiting"
    using can_stop [of False h' 0] by (auto simp: h'_def running_def new_handler_def)
  have "ts_stop (new_state (Some new_handler)) = Some new_handler" by (simp add: new_state_def)
  then have "(LevelTrace, 7) \<in> set (hooklog u)"
    using provider_closed_on_shutdown [OF _ reachable.init _ _ new] stop u
    by (auto simp: running_def new_handler_def)
  then show ?thesis using new stop u by blast
qed

text \<open>The options that a gRPC exporter with TLS is made with.\<close>

definition grpc_options :: "GRPCClientOptions \<Rightarrow> 'p otlp_option list" where
  "grpc_options c = [WithEndpoint (gr_Endpoint c), WithTimeout (gr_Timeout c), WithRetry (gr_Retry c),
     WithHeaders (gr_Header c), WithServiceConfig (gr_ServiceConfig c),
     WithReconnectionPeriod (gr_ReconnectionPeriod c)] @
     (if gr_Compression c = 1 then [WithCompressor ''gzip''] else [])"

text \<open>C40: The TLS options of a gRPC exporter never reach it: two configurations that are both acceptable give the
  same exporter and the same calls, and no option with credentials is passed; the HTTP exporter, given the same
  options, is made with the configuration as its last option.\<close>

theorem grpc_ignores_tls:
  assumes "NewTLSConfig tlib (Some t) = Inr cfg" "NewTLSConfig tlib (Some t') = Inr cfg'"
    and "\<not> gr_Insecure c" "\<not> ht_Insecure hc"
  shows "NewGRPCTraceExporter tlib lib (c\<lparr>gr_TLSConfig := t\<rparr>) s = NewGRPCTraceExporter tlib lib (c\<lparr>gr_TLSConfig := t'\<rparr>) s \<and>
    (\<exists>opts. ts_calls (fst (NewGRPCTraceExporter tlib lib (c\<lparr>gr_TLSConfig := t\<rparr>) s)) = ts_calls s @ [GRPCNew opts] \<and>
      WithTLSCredentials cfg \<notin> set opts) \<and>
    (\<exists>opts. ts_calls (fst (NewHTTPTraceExporter tlib lib (hc\<lparr>ht_TLSConfig := Some t\<rparr>) s)) =
      ts_calls s @ [HTTPNew (opts @ [WithTLSClientConfig cfg])])"
proof -
  have "NewGRPCTraceExporter tlib lib (c\<lparr>gr_TLSConfig := x\<rparr>) s =
      (let opts = grpc_options c in lib_exporter (do_call (GRPCNew opts) (tr_grpc lib opts) s))"
    if "NewTLSConfig tlib (Some x) = Inr y" for x y
    using that assms(3) by (simp add: NewGRPCTraceExporter_def Let_def grpc_options_def)
  note grpc = this [OF assms(1)] this [OF assms(2)]
  define opts where "opts = [WithEndpoint (ht_Endpoint hc), WithTimeout (ht_Timeout hc), WithRetry (ht_Retry hc),
    WithCompression (ht_Compression hc), WithHeaders (ht_Header hc), WithURLPath (ht_URLPath hc) :: 'a otlp_option]"
  have "NewHTTPTraceExporter tlib lib (hc\<lparr>ht_TLSConfig := Some t\<rparr>) s =
      lib_exporter (do_call (HTTPNew (opts @ [WithTLSClientConfig cfg])) (tr_http lib (opts @ [WithTLSClientConfig cfg])) s)"
    using assms(1,4) by (simp add: NewHTTPTraceExporter_def Let_def opts_def)
  moreover have "WithTLSCredentials cfg \<notin> set (grpc_options c)" by (simp add: grpc_options_def)
  ultimately show ?thesis by (auto simp: grpc Let_def)
qed

theorem grpc_ignores_tls_witness:
  "NewGRPCTraceExporter no_files ok_lib (zero_grpc\<lparr>gr_TLSConfig := zero_tls\<lparr>ServerName := ''a''\<rparr>\<rparr>) (new_state None) =
   NewGRPCTraceExporter no_files ok_lib (zero_grpc\<lparr>gr_TLSConfig := zero_tls\<lparr>ServerName := ''b''\<rparr>\<rparr>) (new_state None)"
proof -
  have ok: "NewTLSConfig no_files (Some (zero_tls\<lparr>ServerName := n\<rparr>)) =
      Inr (wanted_config (zero_tls\<lparr>ServerName := n\<rparr>) None)" for n
    by (simp add: NewTLSConfig_wanted wanted_ca_def zero_tls_def)
  have "\<not> gr_Insecure zero_grpc" "\<not> ht_Insecure (http_defaults\<lparr>ht_Insecure := False\<rparr>)" by (simp_all add: zero_grpc_def)
  from grpc_ignores_tls [OF ok [of "''a''"] ok [of "''b''"] this, of ok_lib "new_state None"] show ?thesis by (rule conjunct1)
qed

text \<open>No configuration that names a compression can be decoded: the decoder of the field reports an error for
  every value, true and gzip included, so the options of an HTTP or gRPC exporter with such a member are refused,
  and so are the trace options around them.\<close>

theorem compression_refused:
  assumes "js_members js w = Inr ms" "(''compression'', v) \<in> set ms" "w \<noteq> ''null''"
    and "js_members js txt = Inr ms'" "(b, w) \<in> set ms'" "b \<in> {''http'', ''grpc''}"
  shows "snd (Compression_UnmarshalJSON old v) \<noteq> None \<and> snd (HTTPClientOptions_UnmarshalJSON js w) \<noteq> None \<and>
    snd (json_Unmarshal js (grpc_member js) w c) \<noteq> None \<and> snd (TraceOptions_UnmarshalJSON js o0 txt) \<noteq> None"
proof -
  obtain c1 e1 where 1: "HTTPClientOptions_UnmarshalJSON js w = (c1, Some e1)"
    using http_compression_refused [OF assms(1,2)] by blast
  obtain c2 e2 where 2: "decode_nested js (grpc_member js) w c = (c2, Failed e2)"
    using grpc_compression_refused [OF assms(1,2)] by blast
  obtain c3 e3 where 3: "decode_members (trace_member js) ms' (o0, None) = (c3, Failed e3)"
    using decode_members_fails [where rd = "trace_member js", OF assms(5) trace_backend_fails [OF assms(6,3,1,2)]] by blast
  show ?thesis using 1 2 3 assms(4)
    by (simp add: Compression_UnmarshalJSON_def json_Unmarshal_def [of js "grpc_member js"] outcome_error_def
        TraceOptions_UnmarshalJSON_def json_Unmarshal_members)
qed

theorem compression_refused_witness:
  "snd (TraceOptions_UnmarshalJSON text_lib TraceOptions_Reset ''outer'') \<noteq> None"
  using compression_refused [of text_lib "''inner''" _ "quoted ''gzip''" "''outer''" _ "''http''"]
  by (simp add: text_lib_def)

text \<open>The decoded options of an HTTP exporter have the documented default for every member that the text leaves
  out. The options of a gRPC exporter have none of them: without a retry
  member its retries are off, although DefaultRetryConfig is documented as the policy then.\<close>

theorem exporter_defaults:
  assumes "js_members js txt = Inr ms"
  defines "given \<equiv> set (map fst ms)"
    and "hc \<equiv> fst (HTTPClientOptions_UnmarshalJSON js txt)"
    and "gc \<equiv> fst (json_Unmarshal js (grpc_member js) txt zero_grpc)"
  shows "(''endpoint'' \<notin> given \<longrightarrow> ht_Endpoint hc = []) \<and> (''timeout'' \<notin> given \<longrightarrow> ht_Timeout hc = seconds 10) \<and>
    (''insecure'' \<notin> given \<longrightarrow> ht_Insecure hc) \<and> (''url_path'' \<notin> given \<longrightarrow> ht_URLPath hc = ''/v1/traces'') \<and>
    (''retry'' \<notin> given \<longrightarrow> ht_Retry hc = DefaultRetryConfig \<and> gr_Retry gc = zero_retry \<and> \<not> rt_Enabled (gr_Retry gc))"
proof -
  note keeps = json_Unmarshal_keeps [OF assms(1), where rd = "http_member js" and a = http_defaults and c = hc
      and r = "snd (HTTPClientOptions_UnmarshalJSON js txt)"]
  note gkeeps = json_Unmarshal_keeps [OF assms(1), where rd = "grpc_member js" and a = zero_grpc and c = gc
      and r = "snd (json_Unmarshal js (grpc_member js) txt zero_grpc)" and proj = gr_Retry]
  have other: "(k, v) \<in> set ms \<Longrightarrow> x \<notin> given \<Longrightarrow> k \<noteq> x" for k v x
    by (auto simp: given_def image_iff)
  have "''endpoint'' \<notin> given \<Longrightarrow> ht_Endpoint hc = ht_Endpoint http_defaults"
    "''timeout'' \<notin> given \<Longrightarrow> ht_Timeout hc = ht_Timeout http_defaults"
    "''insecure'' \<notin> given \<Longrightarrow> ht_Insecure hc = ht_Insecure http_defaults"
    "''url_path'' \<notin> given \<Longrightarrow> ht_URLPath hc = ht_URLPath http_defaults"
    "''retry'' \<notin> given \<Longrightarrow> ht_Retry hc = ht_Retry http_defaults"
    by (rule keeps, rule http_member_other, erule (1) other, simp add: hc_def HTTPClientOptions_UnmarshalJSON_def)+
  moreover have "''retry'' \<notin> given \<Longrightarrow> gr_Retry gc = gr_Retry zero_grpc"
    by (rule gkeeps, rule grpc_member_retry, erule (1) other, simp add: gc_def)
  ultimately show ?thesis by (simp add: http_defaults_def zero_grpc_def zero_retry_def)
qed

theorem exporter_defaults_witness:
  "ht_Retry (fst (HTTPClientOptions_UnmarshalJSON text_lib ''plain'')) = DefaultRetryConfig \<and>
   gr_Retry (fst (json_Unmarshal text_lib (grpc_member text_lib) ''plain'' zero_grpc)) = zero_retry"
  using exporter_defaults [of text_lib "''plain''" "[(''endpoint'', ''host:4318'')]"] by (simp add: text_lib_def)

text \<open>The protobuf JSON of trace options holds one backend only and never the service name, so it cannot be
  decoded to the options it was made from.\<close>

theorem marshal_forgets:
  "TraceOptions_MarshalJSONPB je indent (o0\<lparr>to_ServiceName := n\<rparr>) = TraceOptions_MarshalJSONPB je indent o0 \<and>
   TraceOptions_MarshalJSONPB je indent (o0\<lparr>to_File := f, to_Zipkin := z, to_GRPC := g, to_HTTP := Some c\<rparr>) =
      TraceOptions_MarshalJSONPB je indent (TraceOptions_Reset\<lparr>to_HTTP := Some c\<rparr>)"
  by (simp add: TraceOptions_MarshalJSONPB_def cong del: option.case_cong_weak)

text \<open>The spans of a context made by the loggers have the trace identifier of its log lines, when it is a UUID;
  an identifier that is not one is dropped for a random one.\<close>

lemma span_ids_follow_log:
  assumes "NewContextLogger fresh_id other_id fresh parent opts s = (s', ctx, l)" "fresh_id \<noteq> []"
    and "t = (let t = lo_traceId (apply_options opts zero_options) in if t = [] then fresh_id else t)"
  shows "uuid_FromString t = Inr tid \<Longrightarrow> NewIDs uuid_FromString NewV4 i random ctx = Ret (tid, random)"
    and "uuid_FromString t = Inl e \<Longrightarrow> NewIDs uuid_FromString (Inr v4) i random ctx = Ret (v4, random)"
proof -
  have "t \<noteq> []" using assms(2,3) by (simp add: Let_def)
  moreover have "ctx ContextTraceId = Some (CtxString t)"
    using assms(1,3) by (auto simp: NewContextLogger_def Let_def split: prod.splits)
  ultimately have "GetTraceId i ctx = t" by (simp add: GetTraceId_def)
  then show "uuid_FromString t = Inr tid \<Longrightarrow> NewIDs uuid_FromString NewV4 i random ctx = Ret (tid, random)"
    and "uuid_FromString t = Inl e \<Longrightarrow> NewIDs uuid_FromString (Inr v4) i random ctx = Ret (v4, random)"
    by (simp_all add: NewIDs_def NewSpanID_def)
qed

text \<open>A file that was created stays open when the exporter cannot be made, and so does one whose last bytes cannot be
  written at the shutdown.\<close>

lemma file_left_open:
  assumes "tr_Create lib path (ts_world s) = (w, Inr f)" "tr_stdout lib f w = (w', Inl e)"
  shows "\<exists>s'. NewFileTraceExporter lib path s = (s', Inl (LibError e)) \<and>
    ts_calls s' = ts_calls s @ [CreateFile path, StdoutNew f]"
  using assms by (simp add: NewFileTraceExporter_def do_call_def)

lemma file_not_closed:
  "tr_Sync lib f (ts_world s) = (w, Some e) \<Longrightarrow>
   \<exists>s'. FileTracing_Shutdown lib f s = (s', Some e) \<and> ts_calls s' = ts_calls s @ [SyncFile f]"
  by (simp add: FileTracing_Shutdown_def do_call_def)

end
