(* ===== verification/Template.thy ===== *)
theory Template
  imports GoPrelude
begin

text \<open>
  Templates and stringers of package \<open>w\<close> (\<open>wrapper/template.go\<close>, \<open>wrapper/strings.go\<close>). The parsers and
  executors of \<open>text/template\<close> and \<open>html/template\<close>, and the JSON texts, are arguments; a parsed template is a
  value of a type \<open>'t\<close> or \<open>'h\<close>, a function that templates may call a value of a type \<open>'fn\<close>. A method with a
  pointer receiver returns the new value.
\<close>

section \<open>Functions for templates\<close>

text \<open>
  The functions that the package registers by itself, and those that a program adds; only a value that is a
  function of the right form may be used.
\<close>

datatype 'fn template_func =
    FnToUpper | FnToLower | FnAdd | FnSub | FnTitle | FnJoin | FnMatch | FnSafeHtml | FnReReplaceAll
  | FnStringSlice | FnToMap | FnToJson | FnSafeJson | UserFn 'fn

type_synonym 'fn FuncMap = "(string, 'fn template_func) gomap"

definition defaultFuncs :: "'fn FuncMap" where
  "defaultFuncs = [(''toUpper'', FnToUpper), (''toLower'', FnToLower), (''add'', FnAdd), (''sub'', FnSub), (''title'', FnTitle),
     (''join'', FnJoin), (''match'', FnMatch), (''safeHtml'', FnSafeHtml), (''reReplaceAll'', FnReReplaceAll),
     (''stringSlice'', FnStringSlice), (''toMap'', FnToMap), (''toJson'', FnToJson), (''safeJson'', FnSafeJson)]"

text \<open>Those that are more than a call of the standard library; \<open>int\<close> is 64 bits wide.\<close>

definition fn_add :: "int64 \<Rightarrow> int64 \<Rightarrow> int64" where "fn_add a b = a + b"
definition fn_sub :: "int64 \<Rightarrow> int64 \<Rightarrow> int64" where "fn_sub a b = a - b"
definition fn_join :: "string \<Rightarrow> string list \<Rightarrow> string" where "fn_join sep s = Join s sep"
definition fn_stringSlice :: "string list \<Rightarrow> string list" where "fn_stringSlice s = s"

definition fn_toMap :: "(string \<Rightarrow> (string, string) gomap result) \<Rightarrow> string \<Rightarrow> (string, string) gomap go" where
  "fn_toMap js s = (case js s of Inl err \<Rightarrow> Panic err | Inr m \<Rightarrow> Ret m)"

text \<open>\<open>json.Marshal\<close> returns no text with an error; \<open>strings.Trim\<close> cuts a byte off both ends as often as it is there.\<close>

definition Trim :: "string \<Rightarrow> char \<Rightarrow> string" where
  "Trim s c = rev (dropWhile (\<lambda>x. x = c) (rev (dropWhile (\<lambda>x. x = c) s)))"

definition fn_toJson :: "('o \<Rightarrow> string result) \<Rightarrow> 'o \<Rightarrow> string" where
  "fn_toJson js obj = (case js obj of Inl err \<Rightarrow> [] | Inr bytes \<Rightarrow> bytes)"

definition fn_safeJson :: "('o \<Rightarrow> string result) \<Rightarrow> 'o \<Rightarrow> string" where
  "fn_safeJson js obj = Trim (case js obj of Inl err \<Rightarrow> [] | Inr bytes \<Rightarrow> bytes) (CHR 0x22)"

definition AddFuncMaps :: "string \<Rightarrow> 'fn template_func \<Rightarrow> 'fn FuncMap \<Rightarrow> 'fn FuncMap" where
  "AddFuncMaps funcName f funcMaps = AList.update funcName f funcMaps"

text \<open>\<open>init\<close> ranges over the map in an order that is an argument.\<close>

definition template_init :: "('fn FuncMap \<Rightarrow> 'fn FuncMap) \<Rightarrow> 'fn FuncMap" where
  "template_init iter = foldl (\<lambda>m (nm, f). AddFuncMaps nm f m) [] (iter defaultFuncs)"

section \<open>Templates\<close>

text \<open>
  The libraries: whether a value may be used as a function, a template that is parsed from a text (named root)
  or a file (named as its last element) with the functions, and its execution by a writer \<open>'w\<close>.
\<close>

record ('t, 'h, 'fn, 'd, 'w) template_lib =
  tl_is_func :: "'fn \<Rightarrow> bool"
  tl_text :: "'fn FuncMap \<Rightarrow> string \<Rightarrow> 't result"
  tl_textFile :: "'fn FuncMap \<Rightarrow> string \<Rightarrow> 't result"
  tl_html :: "'fn FuncMap \<Rightarrow> string \<Rightarrow> 'h result"
  tl_htmlFile :: "'fn FuncMap \<Rightarrow> string \<Rightarrow> 'h result"
  tl_execText :: "'t \<Rightarrow> string option \<Rightarrow> 'd \<Rightarrow> 'w \<Rightarrow> 'w \<times> gerror option"
  tl_execHTML :: "'h \<Rightarrow> string option \<Rightarrow> 'd \<Rightarrow> 'w \<Rightarrow> 'w \<times> gerror option"
  tl_textNames :: "'t \<Rightarrow> string \<times> string"
  tl_htmlNames :: "'h \<Rightarrow> string \<times> string"

record ('t, 'h) Template =
  tm_raw :: string
  tm_htmlTmpl :: "'h option"
  tm_textTmpl :: "'t option"

definition zero_Template :: "('t, 'h) Template" where
  "zero_Template = \<lparr>tm_raw = [], tm_htmlTmpl = None, tm_textTmpl = None\<rparr>"

text \<open>\<open>Funcs\<close> panics when a value of the map is not a function.\<close>

fun usable :: "('fn \<Rightarrow> bool) \<Rightarrow> 'fn template_func \<Rightarrow> bool" where
  "usable is_func (UserFn f) = is_func f"
| "usable is_func _ = True"

definition Funcs :: "('t, 'h, 'fn, 'd, 'w) template_lib \<Rightarrow> 'fn FuncMap \<Rightarrow> 'fn FuncMap go" where
  "Funcs lib m = (if list_all (\<lambda>(n, f). usable (tl_is_func lib) f) m then Ret m else Panic ''value is not a function'')"

text \<open>A parser that fails returns nil, which is assigned all the same.\<close>

fun set_text :: "('t, 'h) Template \<Rightarrow> 't result \<Rightarrow> ('t, 'h) Template \<times> gerror option" where
  "set_text t (Inl err) = (t\<lparr>tm_htmlTmpl := None, tm_textTmpl := None\<rparr>, Some err)"
| "set_text t (Inr p) = (t\<lparr>tm_htmlTmpl := None, tm_textTmpl := Some p\<rparr>, None)"

fun set_html :: "('t, 'h) Template \<Rightarrow> 'h result \<Rightarrow> ('t, 'h) Template \<times> gerror option" where
  "set_html t (Inl err) = (t\<lparr>tm_textTmpl := None, tm_htmlTmpl := None\<rparr>, Some err)"
| "set_html t (Inr p) = (t\<lparr>tm_textTmpl := None, tm_htmlTmpl := Some p\<rparr>, None)"

type_synonym ('t, 'h) parse = "('t, 'h) Template \<Rightarrow> string \<Rightarrow> (('t, 'h) Template \<times> gerror option) go"

definition parseTextTemplate :: "('t, 'h, 'fn, 'd, 'w) template_lib \<Rightarrow> 'fn FuncMap \<Rightarrow> ('t, 'h) parse" where
  "parseTextTemplate lib funcMaps t raw = go_bind (Funcs lib funcMaps) (\<lambda>fs. Ret (set_text t (tl_text lib fs raw)))"

definition parseTextFileTemplate :: "('t, 'h, 'fn, 'd, 'w) template_lib \<Rightarrow> 'fn FuncMap \<Rightarrow> ('t, 'h) parse" where
  "parseTextFileTemplate lib funcMaps t filename =
     go_bind (Funcs lib funcMaps) (\<lambda>fs. Ret (set_text t (tl_textFile lib fs filename)))"

definition parseHTMLFileTemplate :: "('t, 'h, 'fn, 'd, 'w) template_lib \<Rightarrow> 'fn FuncMap \<Rightarrow> ('t, 'h) parse" where
  "parseHTMLFileTemplate lib funcMaps t filename =
     go_bind (Funcs lib funcMaps) (\<lambda>fs. Ret (set_html t (tl_htmlFile lib fs filename)))"

definition parseHTMLTemplate :: "('t, 'h, 'fn, 'd, 'w) template_lib \<Rightarrow> 'fn FuncMap \<Rightarrow> ('t, 'h) parse" where
  "parseHTMLTemplate lib funcMaps t raw = go_bind (Funcs lib funcMaps) (\<lambda>fs. Ret (set_html t (tl_html lib fs raw)))"

datatype yaml_kind = DocumentNode | SequenceNode | MappingNode | ScalarNode | AliasNode

record yaml_Node =
  yn_Tag :: string
  yn_Kind :: yaml_kind
  yn_Value :: string

definition Template_MarshalYAML :: "('t, 'h) Template \<Rightarrow> string result" where
  "Template_MarshalYAML t = Inr (tm_raw t)"

definition Template_UnmarshalYAML ::
    "('t, 'h, 'fn, 'd, 'w) template_lib \<Rightarrow> 'fn FuncMap \<Rightarrow> ('t, 'h) Template \<Rightarrow> yaml_Node \<Rightarrow>
     (('t, 'h) Template \<times> gerror option) go" where
  "Template_UnmarshalYAML lib funcMaps t0 v =
     (let t = t0\<lparr>tm_raw := yn_Value v\<rparr>; unknown = Ret (t, Some (''unknown type: '' @ yn_Tag v)) in
      if yn_Tag v = ''!!str'' then
        (if yn_Kind v = ScalarNode then parseTextTemplate lib funcMaps t (yn_Value v) else unknown)
      else if yn_Tag v = ''!text'' then
        (if yn_Kind v = ScalarNode then parseTextTemplate lib funcMaps t (yn_Value v) else unknown)
      else if yn_Tag v = ''!file'' then parseTextFileTemplate lib funcMaps t (yn_Value v)
      else if yn_Tag v = ''!htmlFile'' then parseHTMLFileTemplate lib funcMaps t (yn_Value v)
      else if yn_Tag v = ''!html'' then
        (if yn_Kind v = ScalarNode then parseHTMLTemplate lib funcMaps t (yn_Value v) else unknown)
      else unknown)"

definition Template_MarshalJSON :: "('t, 'h) Template \<Rightarrow> string result" where
  "Template_MarshalJSON t = Inr (tm_raw t)"

definition NewTextTemplate ::
    "('t, 'h, 'fn, 'd, 'w) template_lib \<Rightarrow> 'fn FuncMap \<Rightarrow> string \<Rightarrow> ('t, 'h) Template result go" where
  "NewTextTemplate lib funcMaps raw =
     go_bind (parseTextTemplate lib funcMaps zero_Template raw)
       (\<lambda>(t, err). Ret (case err of Some e \<Rightarrow> Inl e | None \<Rightarrow> Inr t))"

definition NewHTMLTemplate ::
    "('t, 'h, 'fn, 'd, 'w) template_lib \<Rightarrow> 'fn FuncMap \<Rightarrow> string \<Rightarrow> ('t, 'h) Template result go" where
  "NewHTMLTemplate lib funcMaps raw =
     go_bind (parseHTMLTemplate lib funcMaps zero_Template raw)
       (\<lambda>(t, err). Ret (case err of Some e \<Rightarrow> Inl e | None \<Rightarrow> Inr t))"

definition Template_UnmarshalJSON ::
    "(string \<Rightarrow> string result) \<Rightarrow> (string \<Rightarrow> (string, string) gomap result) \<Rightarrow>
     ('t, 'h, 'fn, 'd, 'w) template_lib \<Rightarrow> 'fn FuncMap \<Rightarrow> ('t, 'h) Template \<Rightarrow> string \<Rightarrow>
     (('t, 'h) Template \<times> gerror option) go" where
  "Template_UnmarshalJSON js_string js_map lib funcMaps t txt =
     (if length txt \<ge> 2 \<and> txt ! 0 = CHR 0x22 \<and> txt ! (length txt - 1) = CHR 0x22 then
        (case js_string txt of
           Inl err \<Rightarrow> Ret (t, Some err)
         | Inr text \<Rightarrow> parseTextTemplate lib funcMaps t text)
      else
        (case js_map txt of
           Inl err \<Rightarrow> Ret (t, Some err)
         | Inr [(nm, val)] \<Rightarrow>
             if nm = ''fn::text'' then parseTextTemplate lib funcMaps t val
             else if nm = ''fn::file'' then parseTextFileTemplate lib funcMaps t val
             else if nm = ''fn::html'' then parseHTMLTemplate lib funcMaps t val
             else if nm = ''fn::htmlFile'' then parseHTMLFileTemplate lib funcMaps t val
             else Ret (t, Some (''unknown function: '' @ nm))
         | Inr _ \<Rightarrow> Ret (t, Some ''invalid format'')))"

text \<open>The handler is an interface value, which may hold a nil HTML template; its methods then panic.\<close>

datatype ('t, 'h) TemplateHandler = TextHandler 't | HTMLHandler "'h option"

definition Template_handler :: "('t, 'h) Template \<Rightarrow> ('t, 'h) TemplateHandler" where
  "Template_handler t = (case tm_textTmpl t of Some x \<Rightarrow> TextHandler x | None \<Rightarrow> HTMLHandler (tm_htmlTmpl t))"

fun handler_exec ::
    "('t, 'h, 'fn, 'd, 'w) template_lib \<Rightarrow> ('t, 'h) TemplateHandler \<Rightarrow> string option \<Rightarrow> 'd \<Rightarrow> 'w \<Rightarrow> ('w \<times> gerror option) go" where
  "handler_exec lib (TextHandler x) nm obj wr = Ret (tl_execText lib x nm obj wr)"
| "handler_exec lib (HTMLHandler (Some x)) nm obj wr = Ret (tl_execHTML lib x nm obj wr)"
| "handler_exec lib (HTMLHandler None) nm obj wr = Panic nil_deref"

fun handler_names :: "('t, 'h, 'fn, 'd, 'w) template_lib \<Rightarrow> ('t, 'h) TemplateHandler \<Rightarrow> (string \<times> string) go" where
  "handler_names lib (TextHandler x) = Ret (tl_textNames lib x)"
| "handler_names lib (HTMLHandler (Some x)) = Ret (tl_htmlNames lib x)"
| "handler_names lib (HTMLHandler None) = Panic nil_deref"

definition Template_Execute where
  "Template_Execute lib t wr obj = handler_exec lib (Template_handler t) None obj wr"

definition Template_ExecuteTemplate where
  "Template_ExecuteTemplate lib t wr nm obj = handler_exec lib (Template_handler t) (Some nm) obj wr"

definition Template_ExecuteToString ::
    "('t, 'h, 'fn, 'd, string) template_lib \<Rightarrow> ('t, 'h) Template \<Rightarrow> 'd \<Rightarrow> string result go" where
  "Template_ExecuteToString lib t obj =
     go_bind (handler_exec lib (Template_handler t) None obj [])
       (\<lambda>(buf, err). Ret (case err of Some e \<Rightarrow> Inl e | None \<Rightarrow> Inr buf))"

definition Template_Name where
  "Template_Name lib t = go_bind (handler_names lib (Template_handler t)) (\<lambda>(nm, defined). Ret nm)"

definition Template_DefinedTemplates where
  "Template_DefinedTemplates lib t = go_bind (handler_names lib (Template_handler t)) (\<lambda>(nm, defined). Ret defined)"

section \<open>Stringers\<close>

definition Stringer_String :: "(unit \<Rightarrow> string) \<Rightarrow> string" where
  "Stringer_String stringer = stringer ()"

definition NewStringer :: "(unit \<Rightarrow> string) \<Rightarrow> (unit \<Rightarrow> string)" where
  "NewStringer stringer = stringer"

definition StringEqual :: "string \<Rightarrow> string \<Rightarrow> bool" where
  "StringEqual a b \<longleftrightarrow> a = b"

text \<open>
  \<open>strings.TrimSpace\<close> on a text whose first and last other bytes are ASCII, as those of a JSON text are. The encoder
  writes the text and a line break.
\<close>

definition ascii_space :: "char \<Rightarrow> bool" where
  "ascii_space c \<longleftrightarrow> c \<in> {CHR 0x09, CHR 0x0A, CHR 0x0B, CHR 0x0C, CHR 0x0D, CHR 0x20}"

definition TrimSpace :: "string \<Rightarrow> string" where
  "TrimSpace s = rev (dropWhile ascii_space (rev (dropWhile ascii_space s)))"

definition jsonStringer_String :: "('v \<Rightarrow> string result) \<Rightarrow> 'v \<Rightarrow> string" where
  "jsonStringer_String Encode v = (case Encode v of Inl err \<Rightarrow> [] | Inr txt \<Rightarrow> TrimSpace (txt @ [CHR 0x0A]))"

section \<open>The contract of the parsers\<close>

definition has_backend :: "('t, 'h) Template \<Rightarrow> bool" where
  "has_backend t \<longleftrightarrow> tm_textTmpl t \<noteq> None \<or> tm_htmlTmpl t \<noteq> None"

definition one_backend :: "('t, 'h) Template \<Rightarrow> bool" where
  "one_backend t \<longleftrightarrow> tm_textTmpl t = None \<or> tm_htmlTmpl t = None"

text \<open>A parser replaces both templates, whatever was there, leaves the source alone and sets one when it succeeds.\<close>

locale template_parser =
  fixes parse :: "('t, 'h) parse"
  assumes replaces: "parse t raw = Ret (t', e) \<Longrightarrow>
    tm_raw t' = tm_raw t \<and> one_backend t' \<and> (has_backend t' \<longleftrightarrow> e = None)"
    and forgets: "parse (t\<lparr>tm_htmlTmpl := h, tm_textTmpl := x\<rparr>) raw = parse t raw"
begin

lemma source_kept: "parse t raw = Ret (t', e) \<Longrightarrow> tm_raw t' = tm_raw t"
  using replaces by blast

lemma again:
  assumes "parse t raw = Ret (t', e)"
  shows "parse t' raw = Ret (t', e)"
proof -
  have "t' = t\<lparr>tm_htmlTmpl := tm_htmlTmpl t', tm_textTmpl := tm_textTmpl t'\<rparr>"
    using source_kept [OF assms] by (cases t; cases t') simp
  then show ?thesis using assms forgets by metis
qed

end

lemma set_text_replaces:
  "set_text t r = (t', e) \<Longrightarrow> tm_raw t' = tm_raw t \<and> one_backend t' \<and> (has_backend t' \<longleftrightarrow> e = None)"
  by (cases r) (auto simp: has_backend_def one_backend_def)

lemma set_html_replaces:
  "set_html t r = (t', e) \<Longrightarrow> tm_raw t' = tm_raw t \<and> one_backend t' \<and> (has_backend t' \<longleftrightarrow> e = None)"
  by (cases r) (auto simp: has_backend_def one_backend_def)

lemma set_text_forgets: "set_text (t\<lparr>tm_htmlTmpl := h, tm_textTmpl := x\<rparr>) r = set_text t r"
  by (cases r) simp_all

lemma set_html_forgets: "set_html (t\<lparr>tm_htmlTmpl := h, tm_textTmpl := x\<rparr>) r = set_html t r"
  by (cases r) simp_all

interpretation text_inline: template_parser "parseTextTemplate lib funcMaps" for lib funcMaps
  by unfold_locales (auto simp: parseTextTemplate_def set_text_forgets dest: set_text_replaces)

interpretation text_file: template_parser "parseTextFileTemplate lib funcMaps" for lib funcMaps
  by unfold_locales (auto simp: parseTextFileTemplate_def set_text_forgets dest: set_text_replaces)

interpretation html_inline: template_parser "parseHTMLTemplate lib funcMaps" for lib funcMaps
  by unfold_locales (auto simp: parseHTMLTemplate_def set_html_forgets dest: set_html_replaces)

interpretation html_file: template_parser "parseHTMLFileTemplate lib funcMaps" for lib funcMaps
  by unfold_locales (auto simp: parseHTMLFileTemplate_def set_html_forgets dest: set_html_replaces)

lemmas parser_replaces = text_inline.replaces text_file.replaces html_inline.replaces html_file.replaces

text \<open>A decoder fails before it parses, and leaves the templates alone, or it is one of the parsers.\<close>

lemma UnmarshalYAML_result:
  assumes "Template_UnmarshalYAML lib fm t v = Ret (t', e)"
  shows "tm_raw t' = yn_Value v \<and>
    (t' = t\<lparr>tm_raw := yn_Value v\<rparr> \<and> e \<noteq> None \<or> one_backend t' \<and> (has_backend t' \<longleftrightarrow> e = None))"
  using assms by (auto simp: Template_UnmarshalYAML_def Let_def split: if_splits dest: parser_replaces)

lemma UnmarshalJSON_result:
  assumes "Template_UnmarshalJSON js jm lib fm t txt = Ret (t', e)"
  shows "tm_raw t' = tm_raw t \<and> (t' = t \<and> e \<noteq> None \<or> one_backend t' \<and> (has_backend t' \<longleftrightarrow> e = None))"
  using assms
  by (auto simp: Template_UnmarshalJSON_def split: if_splits sum.splits list.splits prod.splits dest: parser_replaces)

lemma handler_ready: "has_backend t \<Longrightarrow> \<exists>r. handler_exec lib (Template_handler t) nm obj wr = Ret r"
  by (auto simp: has_backend_def Template_handler_def split: option.splits)

lemma handler_missing: "\<not> has_backend t \<Longrightarrow> handler_exec lib (Template_handler t) nm obj wr = Panic nil_deref"
  by (simp add: has_backend_def Template_handler_def)

section \<open>Properties\<close>

text \<open>Functions that are registered twice or that replace one of the package's are found by their last value.\<close>

lemma template_funcs:
  "map_of (AddFuncMaps n f m) k = (if k = n then Some f else map_of m k)"
  by (simp add: AddFuncMaps_def update_conv)

text \<open>A program that registers a value that is no function makes every later parse panic.\<close>

lemma bad_func_panics:
  assumes "\<not> tl_is_func lib f"
  shows "parseTextTemplate lib (AddFuncMaps n (UserFn f) m) t raw = Panic ''value is not a function''"
proof -
  have "(n, UserFn f) \<in> set (AddFuncMaps n (UserFn f) m)"
    by (rule map_of_SomeD) (simp add: template_funcs)
  then have "\<not> list_all (\<lambda>(n, f). usable (tl_is_func lib) f) (AddFuncMaps n (UserFn f) m)"
    using assms by (auto simp: list_all_iff intro!: bexI [of _ "(n, UserFn f)"])
  then show ?thesis by (simp add: parseTextTemplate_def Funcs_def)
qed

text \<open>\<open>safeJson\<close> cuts more than the quotes of a string that ends in a quote itself, and leaves its backslash.\<close>

lemma safe_json_cuts:
  "js obj = Inr (CHR 0x22 # CHR ''a'' # CHR 0x5C # CHR 0x22 # [CHR 0x22]) \<Longrightarrow> fn_safeJson js obj = [CHR ''a'', CHR 0x5C]"
  by (simp add: fn_safeJson_def Trim_def)

text \<open>The text of a JSON stringer is that of the encoder when it is not blank at its ends.\<close>

lemma json_stringer_text:
  assumes "Encode v = Inr txt" "txt \<noteq> []" "\<not> ascii_space (hd txt)" "\<not> ascii_space (last txt)"
  shows "jsonStringer_String Encode v = txt"
proof -
  obtain x xs where x: "txt = x # xs" using assms(2) by (cases "txt") auto
  have front: "dropWhile ascii_space (txt @ [CHR 0x0A]) = txt @ [CHR 0x0A]" using assms(3) x by simp
  have "dropWhile ascii_space (rev (txt @ [CHR 0x0A])) = rev txt"
    using assms(2,4) by (cases "txt" rule: rev_cases) (simp_all add: ascii_space_def)
  then show ?thesis using front assms(1) by (simp add: jsonStringer_String_def TrimSpace_def)
qed

text \<open>A template never holds a text and an HTML template together. Decoding from YAML or JSON keeps that; after
  a decoding without error the template can be executed, and when the parser has failed executing it panics until
  another decoding succeeds.\<close>

theorem template_one_backend:
  assumes "one_backend t"
    and "Template_UnmarshalYAML lib fm t v = Ret (t', e) \<or> Template_UnmarshalJSON js jm lib fm t txt = Ret (t', e)"
  shows "one_backend t' \<and> (e = None \<longrightarrow> (\<exists>r. Template_Execute lib' t' wr obj = Ret r)) \<and>
    (e \<noteq> None \<longrightarrow> (\<exists>raw. t' = t\<lparr>tm_raw := raw\<rparr>) \<or> Template_Execute lib' t' wr obj = Panic nil_deref)"
proof -
  have "(\<exists>raw. t' = t\<lparr>tm_raw := raw\<rparr>) \<and> e \<noteq> None \<or> one_backend t' \<and> (has_backend t' \<longleftrightarrow> e = None)"
    using assms(2)
  proof
    assume "Template_UnmarshalYAML lib fm t v = Ret (t', e)"
    from UnmarshalYAML_result [OF this] show ?thesis by blast
  next
    assume "Template_UnmarshalJSON js jm lib fm t txt = Ret (t', e)"
    from UnmarshalJSON_result [OF this] have "t' = t \<and> e \<noteq> None \<or> one_backend t' \<and> (has_backend t' \<longleftrightarrow> e = None)" by blast
    moreover have "t = t\<lparr>tm_raw := tm_raw t\<rparr>" by simp
    ultimately show ?thesis by metis
  qed
  then show ?thesis
    using assms(1) handler_ready [of t' lib' None obj wr] handler_missing [of t' lib' None obj wr]
    by (auto simp: Template_Execute_def one_backend_def)
qed

text \<open>A library that accepts every text but the empty one.\<close>

definition echo_lib :: "(string, string, nat, unit, string) template_lib" where
  "echo_lib = \<lparr>tl_is_func = (\<lambda>_. True), tl_text = (\<lambda>_ s. if s = [] then Inl ''empty'' else Inr (''text '' @ s)),
     tl_textFile = (\<lambda>_ s. Inl ''no file''), tl_html = (\<lambda>_ s. Inr (''html '' @ s)), tl_htmlFile = (\<lambda>_ s. Inl ''no file''),
     tl_execText = (\<lambda>t _ _ w. (w @ t, None)), tl_execHTML = (\<lambda>t _ _ w. (w @ t, None)),
     tl_textNames = (\<lambda>t. (''root'', [])), tl_htmlNames = (\<lambda>t. (''root'', []))\<rparr>"

definition html_node :: yaml_Node where
  "html_node = \<lparr>yn_Tag = ''!html'', yn_Kind = ScalarNode, yn_Value = ''<b>''\<rparr>"

definition html_template :: "(string, string) Template" where
  "html_template = \<lparr>tm_raw = ''<b>'', tm_htmlTmpl = Some ''html <b>'', tm_textTmpl = None\<rparr>"

lemma html_node_decoded: "Template_UnmarshalYAML echo_lib [] zero_Template html_node = Ret (html_template, None)"
  by (simp add: Template_UnmarshalYAML_def html_node_def parseHTMLTemplate_def Funcs_def echo_lib_def zero_Template_def
      html_template_def Let_def)

theorem template_one_backend_witness:
  "one_backend html_template \<and> (\<exists>r. Template_Execute echo_lib html_template [] () = Ret r)"
proof -
  have "one_backend (zero_Template :: (string, string) Template)" by (simp add: one_backend_def zero_Template_def)
  from template_one_backend [OF this disjI1 [OF html_node_decoded], of echo_lib "[]" "()"]
  show ?thesis by blast
qed

text \<open>A template that was read from YAML is written as its source, and reading the source again as a plain
  string gives the same template when it was a text template. The tag is lost: an HTML template comes back as
  a text template, whose output is not escaped.\<close>

theorem template_yaml_round_trip:
  assumes "Template_UnmarshalYAML lib fm t v = Ret (t', None)" "Template_MarshalYAML t' = Inr raw"
  shows "(yn_Tag v \<in> {''!!str'', ''!text''} \<longrightarrow>
      Template_UnmarshalYAML lib fm t' \<lparr>yn_Tag = ''!!str'', yn_Kind = ScalarNode, yn_Value = raw\<rparr> = Ret (t', None)) \<and>
    (yn_Tag v = ''!html'' \<and>
      Template_UnmarshalYAML lib fm t' \<lparr>yn_Tag = ''!!str'', yn_Kind = ScalarNode, yn_Value = raw\<rparr> = Ret (t'', None) \<longrightarrow>
      tm_textTmpl t'' \<noteq> None \<and> tm_htmlTmpl t'' = None)"
proof -
  have raw: "raw = yn_Value v" "t'\<lparr>tm_raw := raw\<rparr> = t'"
    using UnmarshalYAML_result [OF assms(1)] assms(2) by (auto simp: Template_MarshalYAML_def)
  have read: "Template_UnmarshalYAML lib fm t' \<lparr>yn_Tag = ''!!str'', yn_Kind = ScalarNode, yn_Value = raw\<rparr> =
      parseTextTemplate lib fm t' raw"
    using raw(2) by (simp add: Template_UnmarshalYAML_def Let_def)
  have "yn_Tag v \<in> {''!!str'', ''!text''} \<Longrightarrow> parseTextTemplate lib fm (t\<lparr>tm_raw := yn_Value v\<rparr>) raw = Ret (t', None)"
    using assms(1) raw(1) by (auto simp: Template_UnmarshalYAML_def Let_def split: if_splits)
  then have "yn_Tag v \<in> {''!!str'', ''!text''} \<Longrightarrow> parseTextTemplate lib fm t' raw = Ret (t', None)" by (rule text_inline.again)
  moreover have "parseTextTemplate lib fm t' raw = Ret (t'', None) \<Longrightarrow> tm_textTmpl t'' \<noteq> None \<and> tm_htmlTmpl t'' = None"
    by (cases "tl_text lib fm raw") (auto simp: parseTextTemplate_def Funcs_def split: if_splits)
  ultimately show ?thesis unfolding read by blast
qed

theorem template_yaml_round_trip_witness:
  "\<exists>t''. Template_UnmarshalYAML echo_lib [] html_template \<lparr>yn_Tag = ''!!str'', yn_Kind = ScalarNode, yn_Value = ''<b>''\<rparr> =
      Ret (t'', None) \<and> tm_textTmpl t'' \<noteq> None \<and> tm_htmlTmpl t'' = None"
proof -
  have m: "Template_MarshalYAML html_template = Inr ''<b>''" by (simp add: Template_MarshalYAML_def html_template_def)
  obtain t'' where t: "Template_UnmarshalYAML echo_lib [] html_template \<lparr>yn_Tag = ''!!str'', yn_Kind = ScalarNode, yn_Value = ''<b>''\<rparr> =
      Ret (t'', None)"
    by (simp add: Template_UnmarshalYAML_def parseTextTemplate_def Funcs_def echo_lib_def Let_def)
  then have "tm_textTmpl t'' \<noteq> None \<and> tm_htmlTmpl t'' = None"
    using template_yaml_round_trip [OF html_node_decoded m, of t''] by (simp add: html_node_def)
  then show ?thesis using t by blast
qed

text \<open>A template that was read from JSON or made from a text cannot be written as JSON: its source was never
  stored, so the text is the old source, which is empty for a new template, and no JSON.\<close>

theorem template_json_lost:
  assumes "Template_UnmarshalJSON js jm lib fm t txt = Ret (t', e)" "NewTextTemplate lib fm raw = Ret (Inr new)"
  shows "Template_MarshalJSON t' = Template_MarshalJSON t \<and> Template_MarshalYAML t' = Template_MarshalYAML t \<and>
    Template_MarshalJSON new = Inr []"
  using UnmarshalJSON_result [OF assms(1)] assms(2) text_inline.source_kept [of lib fm zero_Template raw]
  by (auto simp: Template_MarshalJSON_def Template_MarshalYAML_def NewTextTemplate_def zero_Template_def split: option.splits)

theorem template_json_lost_witness:
  "\<exists>t'. Template_UnmarshalJSON (\<lambda>_. Inr ''hi'') (\<lambda>_. Inl []) echo_lib [] zero_Template (CHR 0x22 # ''hi'' @ [CHR 0x22]) = Ret (t', None) \<and>
     Template_MarshalJSON t' = Inr []"
proof -
  obtain t' where t: "Template_UnmarshalJSON (\<lambda>_. Inr ''hi'') (\<lambda>_. Inl []) echo_lib [] zero_Template (CHR 0x22 # ''hi'' @ [CHR 0x22]) = Ret (t', None)"
    by (simp add: Template_UnmarshalJSON_def parseTextTemplate_def Funcs_def echo_lib_def)
  obtain new where n: "NewTextTemplate echo_lib [] ''hi'' = Ret (Inr new)"
    by (simp add: NewTextTemplate_def parseTextTemplate_def Funcs_def echo_lib_def)
  show ?thesis using template_json_lost [OF t n] t by (auto simp: Template_MarshalJSON_def zero_Template_def)
qed

end
