(* ===== verification/TempFs.thy ===== *)
theory TempFs
  imports GoPrelude
begin

text \<open>
  The temporary file system (\<open>fs/tempfs.go\<close>): a directory made for the occasion and a record of the files
  that were opened in it. The operating system and afero's file system below the directory are the record
  \<open>temp_lib\<close> on a world \<open>'w\<close>; an open file is a number. \<open>path.Dir\<close> is written out.
\<close>

section \<open>path.Dir\<close>

fun clean_push :: "bool \<Rightarrow> string list \<Rightarrow> string \<Rightarrow> string list" where
  "clean_push rooted out c =
     (if c = [] \<or> c = ''.'' then out
      else if c = ''..'' then
        (if out \<noteq> [] \<and> last out \<noteq> ''..'' then butlast out else if rooted then out else out @ [''..''])
      else out @ [c])"

definition path_Clean :: "string \<Rightarrow> string" where
  "path_Clean p =
     (let rooted = HasPrefix p ''/'';
          r = (if rooted then ''/'' else []) @ Join (foldl (clean_push rooted) [] (Split p (CHR ''/''))) ''/'' in
      if r = [] then ''.'' else r)"

definition path_Dir :: "string \<Rightarrow> string" where
  "path_Dir p = path_Clean (take (nat (LastIndex p (CHR ''/'') + 1)) p)"

section \<open>The file system\<close>

datatype stat_error = NotExist gerror | OtherStat gerror

fun stat_text :: "stat_error \<Rightarrow> gerror" where
  "stat_text (NotExist e) = e"
| "stat_text (OtherStat e) = e"

record 'w temp_lib =
  tf_MkdirTemp :: "string \<Rightarrow> string \<Rightarrow> 'w \<Rightarrow> 'w \<times> (gerror + string)"
  tf_Stat :: "string \<Rightarrow> string \<Rightarrow> 'w \<Rightarrow> stat_error option"
  tf_MkdirAll :: "string \<Rightarrow> string \<Rightarrow> nat \<Rightarrow> 'w \<Rightarrow> 'w \<times> gerror option"
  tf_OpenFile :: "string \<Rightarrow> string \<Rightarrow> int \<Rightarrow> nat \<Rightarrow> 'w \<Rightarrow> 'w \<times> (gerror + nat)"
  tf_Open :: "string \<Rightarrow> string \<Rightarrow> 'w \<Rightarrow> 'w \<times> (gerror + nat)"
  tf_RemoveAll :: "string \<Rightarrow> 'w \<Rightarrow> 'w \<times> gerror option"

text \<open>The embedded \<open>Fs\<close> is the operating system's file system below the directory, so it is that directory.\<close>

record TempFS =
  tp_Fs :: string
  tp_tempDir :: string
  tp_files :: "string list"

definition NewTempFS :: "'w temp_lib \<Rightarrow> string \<Rightarrow> string \<Rightarrow> 'w \<Rightarrow> 'w \<times> (gerror + TempFS)" where
  "NewTempFS lib dir pattern w =
     (case tf_MkdirTemp lib dir pattern w of
        (w', Inl err) \<Rightarrow> (w', Inl err)
      | (w', Inr tempDir) \<Rightarrow> (w', Inr \<lparr>tp_Fs = tempDir, tp_tempDir = tempDir, tp_files = []\<rparr>))"

text \<open>The last step, when the parent directory is there. \<open>0o755\<close> is 493.\<close>

definition open_and_record ::
    "'w temp_lib \<Rightarrow> TempFS \<Rightarrow> string \<Rightarrow> int \<Rightarrow> nat \<Rightarrow> 'w \<Rightarrow> 'w \<times> TempFS \<times> (gerror + nat)" where
  "open_and_record lib t filename flag perm w =
     (case tf_OpenFile lib (tp_Fs t) filename flag perm w of
        (w', Inl err) \<Rightarrow> (w', t, Inl err)
      | (w', Inr f) \<Rightarrow> (w', t\<lparr>tp_files := tp_files t @ [filename]\<rparr>, Inr f))"

definition TempFS_OpenFile ::
    "'w temp_lib \<Rightarrow> TempFS \<Rightarrow> string \<Rightarrow> int \<Rightarrow> nat \<Rightarrow> 'w \<Rightarrow> 'w \<times> TempFS \<times> (gerror + nat)" where
  "TempFS_OpenFile lib t filename flag perm w =
     (let dir = path_Dir filename in
      case tf_Stat lib (tp_Fs t) dir w of
        None \<Rightarrow> open_and_record lib t filename flag perm w
      | Some (OtherStat err) \<Rightarrow> (w, t, Inl err)
      | Some (NotExist _) \<Rightarrow>
          (case tf_MkdirAll lib (tp_Fs t) dir 493 w of
             (w', Some err) \<Rightarrow> (w', t, Inl err)
           | (w', None) \<Rightarrow> open_and_record lib t filename flag perm w'))"

definition TempFS_Open :: "'w temp_lib \<Rightarrow> TempFS \<Rightarrow> string \<Rightarrow> 'w \<Rightarrow> 'w \<times> (gerror + nat)" where
  "TempFS_Open lib t filename w = tf_Open lib (tp_Fs t) filename w"

definition TempFS_List :: "TempFS \<Rightarrow> string list" where
  "TempFS_List t = tp_files t"

definition TempFS_Close :: "'w temp_lib \<Rightarrow> TempFS \<Rightarrow> 'w \<Rightarrow> 'w \<times> gerror option" where
  "TempFS_Close lib t w =
     (if tp_tempDir t = [] then (w, Some ''os: DirFS with empty root'')
      else if tp_tempDir t = ''/'' \<or> tp_tempDir t = ''./''
        then (w, Some (''The template dir is invalid: '' @ tp_tempDir t))
      else tf_RemoveAll lib (tp_tempDir t) w)"

section \<open>Properties\<close>

lemma path_Dir_examples:
  "path_Dir ''a/b/c'' = ''a/b''" "path_Dir ''c'' = ''.''" "path_Dir ''/c'' = ''/''" "path_Dir ''a/../../c'' = ''..''"
  by (simp_all add: path_Dir_def path_Clean_def HasPrefix_def)

text \<open>A name without a slash is in the directory itself.\<close>

lemma path_Dir_plain: "CHR ''/'' \<notin> set p \<Longrightarrow> path_Dir p = ''.''"
proof -
  have "CHR ''/'' \<notin> set p \<Longrightarrow> LastIndex p (CHR ''/'') = -1" by (induction p) auto
  then show "CHR ''/'' \<notin> set p \<Longrightarrow> path_Dir p = ''.''" by (simp add: path_Dir_def path_Clean_def HasPrefix_def)
qed

text \<open>A call changes nothing of the file system value but the list, which grows by the name exactly on success.\<close>

lemma OpenFile_files:
  "TempFS_OpenFile lib t n flag perm w = (w', t', r) \<Longrightarrow>
   t' = t\<lparr>tp_files := tp_files t @ (case r of Inl _ \<Rightarrow> [] | Inr _ \<Rightarrow> [n])\<rparr>"
  by (auto simp: TempFS_OpenFile_def open_and_record_def Let_def split: prod.splits sum.splits option.splits stat_error.splits)

text \<open>A sequence of calls, with their results.\<close>

fun open_all :: "'w temp_lib \<Rightarrow> TempFS \<Rightarrow> (string \<times> int \<times> nat) list \<Rightarrow> 'w \<Rightarrow> 'w \<times> TempFS \<times> (string \<times> (gerror + nat)) list" where
  "open_all lib t [] w = (w, t, [])"
| "open_all lib t ((n, flag, perm) # cs) w =
     (case TempFS_OpenFile lib t n flag perm w of (w', t', r) \<Rightarrow>
        (case open_all lib t' cs w' of (w'', t'', rs) \<Rightarrow> (w'', t'', (n, r) # rs)))"

fun opened :: "(string \<times> (gerror + nat)) list \<Rightarrow> string list" where
  "opened [] = []"
| "opened ((n, Inl e) # rs) = opened rs"
| "opened ((n, Inr f) # rs) = n # opened rs"

lemma open_all_files: "open_all lib t cs w = (w', t', rs) \<Longrightarrow> t' = t\<lparr>tp_files := tp_files t @ opened rs\<rparr>"
proof (induction lib t cs w arbitrary: w' t' rs rule: open_all.induct)
  case (2 lib t n flag perm cs w)
  obtain w1 t1 r where one: "TempFS_OpenFile lib t n flag perm w = (w1, t1, r)" by (metis prod_cases3)
  obtain w2 t2 rs' where rest: "open_all lib t1 cs w1 = (w2, t2, rs')" by (metis prod_cases3)
  have "t2 = t1\<lparr>tp_files := tp_files t1 @ opened rs'\<rparr>" using "2.IH" [OF one [symmetric] refl rest] .
  then show ?case using "2.prems" one rest OpenFile_files [OF one] by (cases r) auto
qed simp

text \<open>A new temporary file system lists exactly the files that were opened through it, in the order of the
  calls and as often as they were opened, whatever fails in between, and closing it removes its own directory,
  if that is not the root.\<close>

theorem temp_fs_list:
  assumes "NewTempFS lib dir pattern w = (w0, Inr t)" "open_all lib t cs w0 = (w1, t1, rs)"
  shows "TempFS_List t1 = opened rs \<and> tp_Fs t1 = tp_tempDir t \<and>
    (tp_tempDir t \<notin> {[], ''/'', ''./''} \<longrightarrow> TempFS_Close lib t1 w1 = tf_RemoveAll lib (tp_tempDir t) w1) \<and>
    (tp_tempDir t \<in> {[], ''/'', ''./''} \<longrightarrow> (\<exists>e. TempFS_Close lib t1 w1 = (w1, Some e)))"
proof -
  have "tp_files t = []" "tp_Fs t = tp_tempDir t"
    using assms(1) by (auto simp: NewTempFS_def split: prod.splits sum.splits)
  then show ?thesis using open_all_files [OF assms(2)] by (auto simp: TempFS_List_def TempFS_Close_def)
qed

text \<open>A file system on which only the directory d exists at first; the world is the list of its directories.\<close>

definition mem_lib :: "string list temp_lib" where
  "mem_lib = \<lparr>tf_MkdirTemp = (\<lambda>d p w. (w, Inr (d @ p))),
     tf_Stat = (\<lambda>_ p w. if p \<in> set w then None else Some (NotExist ''no entry'')),
     tf_MkdirAll = (\<lambda>_ p _ w. (p # w, None)),
     tf_OpenFile = (\<lambda>_ n _ _ w. (w, if n = ''x/bad'' then Inl ''bad'' else Inr 1)),
     tf_Open = (\<lambda>_ n w. (w, Inr 1)), tf_RemoveAll = (\<lambda>_ w. ([], None))\<rparr>"

theorem temp_fs_list_witness:
  "\<exists>w1 t1 rs. open_all mem_lib \<lparr>tp_Fs = ''/tmp/1'', tp_tempDir = ''/tmp/1'', tp_files = []\<rparr>
      [(''x/a'', 0, 420), (''x/bad'', 0, 420), (''x/a'', 0, 420)] [] = (w1, t1, rs) \<and> TempFS_List t1 = [''x/a'', ''x/a''] \<and>
     TempFS_Close mem_lib t1 w1 = ([], None)"
proof -
  let ?t = "\<lparr>tp_Fs = ''/tmp/1'', tp_tempDir = ''/tmp/1'', tp_files = []\<rparr>"
  let ?cs = "[(''x/a'', 0, 420), (''x/bad'', 0, 420), (''x/a'', 0, 420)]"
  have new: "NewTempFS mem_lib ''/tmp/'' ''1'' [] = ([], Inr ?t)" by (simp add: NewTempFS_def mem_lib_def)
  have dir: "path_Dir ''x/a'' = ''x''" "path_Dir ''x/bad'' = ''x''" by (simp_all add: path_Dir_def path_Clean_def HasPrefix_def)
  obtain w1 t1 rs where run: "open_all mem_lib ?t ?cs [] = (w1, t1, rs)" and "opened rs = [''x/a'', ''x/a'']"
    by (simp add: TempFS_OpenFile_def open_and_record_def dir mem_lib_def)
  then show ?thesis using temp_fs_list [OF new run] by (auto simp: mem_lib_def)
qed

end
