(* ===== verification/Process.thy ===== *)
theory Process
  imports Signals
begin

text \<open>
  Start-up and version of a program (\<open>wrapper/run.go\<close>, \<open>wrapper/version.go\<close>). A group of actors is the list of
  their interrupt functions. Package \<open>run\<close>, which is not part of the module, runs the actors concurrently and calls
  all interrupt functions with the error of the first that returns; the order in which it calls them is an
  argument. An interrupt function works on a world \<open>'w\<close>. The shutdown is that of theory \<open>Signals\<close>.
\<close>

section \<open>run.go\<close>

text \<open>The actor that \<open>Run\<close> adds waits for the stop channel; its interrupt function stops the program.\<close>

datatype 'w actor = Actor "(gerror option \<Rightarrow> 'w \<Rightarrow> 'w) option" | StopActor

definition ErrStopping :: gerror where
  "ErrStopping = ''program stopping''"

definition NopInterrupt :: "gerror option \<Rightarrow> 'w \<Rightarrow> 'w" where
  "NopInterrupt e w = w"

text \<open>The wait group of level 1 counts the actors that have not been interrupted.\<close>

definition Group_Add ::
    "Handler option \<Rightarrow> 'w actor list \<Rightarrow> (gerror option \<Rightarrow> 'w \<Rightarrow> 'w) option \<Rightarrow> (Handler \<times> 'w actor list) go" where
  "Group_Add stopHandler g interrupt =
     go_bind (SignalHandler stopHandler) (\<lambda>stopCh.
     go_bind (AddFor stopCh 1 1) (\<lambda>stopCh'. Ret (stopCh', g @ [Actor interrupt])))"

text \<open>The function that \<open>Add\<close> wraps around an interrupt function.\<close>

definition wrapped_interrupt ::
    "(gerror option \<Rightarrow> 'w \<Rightarrow> 'w) option \<Rightarrow> gerror option \<Rightarrow> Handler \<times> 'w \<Rightarrow> (Handler \<times> 'w) go" where
  "wrapped_interrupt interrupt err s =
     (let f = (case interrupt of None \<Rightarrow> NopInterrupt | Some f \<Rightarrow> f); w' = f err (snd s) in
      go_bind (DoneFor (fst s) 1) (\<lambda>stopCh'. Ret (stopCh', w')))"

text \<open>
  The interrupt functions in order, up to the one that is about to call \<open>SafeStop\<close>; \<open>Some\<close> holds the actors that
  come after it.
\<close>

fun interrupt_all ::
    "gerror option \<Rightarrow> 'w actor list \<Rightarrow> Handler \<times> 'w \<Rightarrow> (Handler \<times> 'w \<times> 'w actor list option) go" where
  "interrupt_all err [] s = Ret (fst s, snd s, None)"
| "interrupt_all err (StopActor # rest) s = Ret (fst s, snd s, Some rest)"
| "interrupt_all err (Actor i # rest) s = go_bind (wrapped_interrupt i err s) (interrupt_all err rest)"

text \<open>\<open>Run\<close> up to the point where the first actor has returned with \<open>err\<close> and the stop is about to begin.\<close>

definition Group_Run ::
    "('w actor list \<Rightarrow> 'w actor list) \<Rightarrow> Handler option \<Rightarrow> 'w actor list \<Rightarrow> gerror option \<Rightarrow> 'w \<Rightarrow> (Handler \<times> 'w \<times> 'w actor list option) go" where
  "Group_Run order stopHandler g err w =
     go_bind (SignalHandler stopHandler) (\<lambda>stopCh. interrupt_all err (order (g @ [StopActor])) (stopCh, w))"

section \<open>version.go\<close>

record version_info =
  vi_GitCommit :: string
  vi_BuildDate :: string
  vi_GoVersion :: string
  vi_Platform :: string
  vi_Version :: string

definition version_defaults :: version_info where
  "version_defaults = \<lparr>vi_GitCommit = [], vi_BuildDate = [], vi_GoVersion = [], vi_Platform = [], vi_Version = ''0.0.0''\<rparr>"

definition RFC3339 :: string where
  "RFC3339 = ''2006-01-02T15:04:05Z07:00''"

definition timeFormat :: "string list" where
  "timeFormat =
     [RFC3339, ''2006-01-02T15:04:05.999999999Z07:00'', ''2006-01-02 15:04:05'', ''Mon Jan _2 15:04:05 2006'',
      ''Mon Jan _2 15:04:05 MST 2006'', ''Mon Jan 02 15:04:05 -0700 2006'', ''02 Jan 06 15:04 MST'', ''02 Jan 06 15:04 -0700'',
      ''Monday, 02-Jan-06 15:04:05 MST'', ''Mon, 02 Jan 2006 15:04:05 MST'', ''Mon, 02 Jan 2006 15:04:05 -0700'',
      ''02 Jan 06 15:04 MST'', ''02 Jan 06 15:04 -0700'', ''Monday, 02-Jan-06 15:04:05 MST'',
      ''Mon, 02 Jan 2006 15:04:05 MST'', ''Mon, 02 Jan 2006 15:04:05 -0700'', ''2006-01-02T15:04:05Z0700'']"

text \<open>\<open>time.Parse\<close> and the text of a time in UTC as RFC 3339 are arguments.\<close>

fun normalise_date :: "(string \<Rightarrow> string \<Rightarrow> 'time option) \<Rightarrow> ('time \<Rightarrow> string) \<Rightarrow> string list \<Rightarrow> string \<Rightarrow> string" where
  "normalise_date parse utc [] d = d"
| "normalise_date parse utc (tf # tfs) d =
     (case parse tf d of Some t \<Rightarrow> utc t | None \<Rightarrow> normalise_date parse utc tfs d)"

text \<open>The short and the full text, which are given to the function of the caller.\<close>

definition AddVersionFlags ::
    "(string \<Rightarrow> string \<Rightarrow> 'time option) \<Rightarrow> ('time \<Rightarrow> string) \<Rightarrow> version_info \<Rightarrow> version_info \<times> string \<times> string" where
  "AddVersionFlags parse utc v0 =
     (let v = v0\<lparr>vi_BuildDate := normalise_date parse utc timeFormat (vi_BuildDate v0)\<rparr> in
      (v, vi_Version v,
       vi_Version v @ '', build '' @ vi_GitCommit v @ ''/'' @ vi_BuildDate v @ '' ['' @ vi_GoVersion v @ ''/'' @ vi_Platform v @
         '']'' @ [CHR 0x0A]))"

section \<open>Properties\<close>

lemma normalise_date_utc:
  "normalise_date parse utc tfs d \<noteq> d \<Longrightarrow> \<exists>t. normalise_date parse utc tfs d = utc t"
  by (induction tfs) (auto split: option.splits)

text \<open>Normalising the build date a second time changes nothing, when a text in RFC 3339 is read as the same time.\<close>

lemma version_flags_idempotent:
  assumes "\<And>t. parse RFC3339 (utc t) = Some (to_utc t)" "\<And>t. utc (to_utc t) = utc t"
  shows "AddVersionFlags parse utc (fst (AddVersionFlags parse utc v)) = AddVersionFlags parse utc v"
proof -
  let ?n = "normalise_date parse utc timeFormat"
  have "?n (?n d) = ?n d" for d
  proof (cases "?n d = d")
    case False
    then obtain t where "?n d = utc t" using normalise_date_utc by blast
    then show ?thesis using assms by (simp add: timeFormat_def)
  qed simp
  then show ?thesis by (simp add: AddVersionFlags_def Let_def)
qed

text \<open>Adding an actor and interrupting it leaves the wait group as it was.\<close>

definition with_wg :: "Handler \<Rightarrow> int \<Rightarrow> Handler" where
  "with_wg h n = h\<lparr>wgs := (wgs h)(1 := n)\<rparr>"

lemma with_wg_simps [simp]:
  "wgs (with_wg h n) 1 = n" "wgs (with_wg h n) (Suc 0) = n" "k \<noteq> 1 \<Longrightarrow> wgs (with_wg h n) k = wgs h k"
  "with_wg (with_wg h m) n = with_wg h n" "running r (with_wg h n) = running r h" "holder (with_wg h n) = holder h"
  "closed (with_wg h n) = closed h" "pcs (with_wg h n) = pcs h"
  by (simp_all add: with_wg_def running_def)

lemma with_wg_same: "n = wgs h 1 \<Longrightarrow> with_wg h n = h"
  by (cases h) (simp add: with_wg_def)

lemma add_for_wg: "0 \<le> wgs h 1 + d \<Longrightarrow> AddFor h 1 d = Ret (with_wg h (wgs h 1 + d))"
  by (simp add: AddFor_def with_wg_def)

fun add_actors :: "(gerror option \<Rightarrow> 'w \<Rightarrow> 'w) option list \<Rightarrow> Handler \<times> 'w actor list \<Rightarrow> (Handler \<times> 'w actor list) go" where
  "add_actors [] hg = Ret hg"
| "add_actors (i # rest) hg = go_bind (Group_Add (Some (fst hg)) (snd hg) i) (add_actors rest)"

lemma add_actors_result:
  assumes "0 \<le> wgs h 1"
  shows "add_actors as (h, g) = Ret (with_wg h (wgs h 1 + int (length as)), g @ map Actor as)"
  using assms
proof (induction as arbitrary: h g)
  case Nil
  then show ?case by (simp add: with_wg_same)
next
  case (Cons i as)
  have one: "Group_Add (Some h) g i = Ret (with_wg h (wgs h 1 + 1), g @ [Actor i])"
    using Cons.prems add_for_wg [of h 1] by (simp add: Group_Add_def SignalHandler_def del: One_nat_def)
  have "add_actors (i # as) (h, g) = add_actors as (with_wg h (wgs h 1 + 1), g @ [Actor i])" by (simp add: one)
  also have "\<dots> = Ret (with_wg h (wgs h 1 + 1 + int (length as)), (g @ [Actor i]) @ map Actor as)"
    using Cons.IH [of "with_wg h (wgs h 1 + 1)" "g @ [Actor i]"] Cons.prems by (simp del: One_nat_def)
  finally show ?case by (simp add: add.assoc)
qed

lemma interrupt_all_result:
  assumes "int (length as) \<le> wgs h 1"
  shows "\<exists>w'. interrupt_all err (map Actor as @ [StopActor]) (h, w) =
    Ret (with_wg h (wgs h 1 - int (length as)), w', Some [])"
  using assms
proof (induction as arbitrary: h w)
  case Nil
  then show ?case by (simp add: with_wg_same)
next
  case (Cons i as)
  have n: "0 \<le> wgs h 1 + - 1" "int (length as) \<le> wgs h 1 - 1" using Cons.prems by simp_all
  obtain w1 where one: "wrapped_interrupt i err (h, w) = Ret (with_wg h (wgs h 1 - 1), w1)"
    using add_for_wg [OF n(1)] by (simp add: wrapped_interrupt_def DoneFor_def Let_def del: One_nat_def)
  obtain w' where "interrupt_all err (map Actor as @ [StopActor]) (with_wg h (wgs h 1 - 1), w1) =
      Ret (with_wg h (wgs h 1 - 1 - int (length as)), w', Some [])"
    using Cons.IH [of "with_wg h (wgs h 1 - 1)" w1] n(2) by (auto simp del: One_nat_def)
  moreover have "wgs h 1 - 1 - int (length as) = wgs h 1 - int (length (i # as))" by simp
  ultimately show ?case using one by (metis append_Cons go_bind.simps(1) interrupt_all.simps(3) list.map(2))
qed



text \<open>In the opposite order the stop would begin with actors that it has to wait for.\<close>

lemma stop_first_waits:
  assumes "0 \<le> wgs h 1" "add_actors as (h, []) = Ret (h1, g)" "as \<noteq> []"
  shows "\<exists>h2 w2 rest. Group_Run rev (Some h1) g err w = Ret (h2, w2, Some rest) \<and> \<not> WaitFor_enabled h2 1 \<and>
    length rest = length as"
proof -
  have r: "h1 = with_wg h (wgs h 1 + int (length as))" "g = map Actor as"
    using add_actors_result [OF assms(1), of as "[]"] assms(2) by simp_all
  have "0 < length as" using assms(3) by simp
  then show ?thesis using assms(1)
    by (simp add: r Group_Run_def SignalHandler_def WaitFor_enabled_def del: One_nat_def length_greater_0_conv)
qed

text \<open>The stop does not wait for the actors themselves: a wait group is done as soon as the interrupt function returns.\<close>

lemma interrupt_before_return:
  "wgs h 1 = 1 \<Longrightarrow> interrupt_all err [Actor None, StopActor] (h, w) = Ret (with_wg h 0, w, Some [])"
  using add_for_wg [of h "- 1"] by (simp add: wrapped_interrupt_def NopInterrupt_def DoneFor_def Let_def)

end
