(* ===== verification/Notify.thy ===== *)
theory Notify
  imports Signals
begin

text \<open>
  The delivery of operating-system signals to the shutdown of package \<open>signals\<close>: the signals that are asked for
  (\<open>signal_posix.go\<close>, \<open>signal_windows.go\<close>), the buffered channel that \<open>SetupSignalHandler\<close> passes to
  \<open>signal.Notify\<close>, and the goroutine that receives from it once. The goroutine is number 0 of the shutdown.
\<close>

section \<open>State and steps\<close>

datatype os_signal = SIGTERM | SIGQUIT | SIGINT | SIGHUP | SIGKILL | OtherSignal nat

datatype platform = Posix | Windows

text \<open>\<open>os.Interrupt\<close> is \<open>syscall.SIGINT\<close>.\<close>

fun shutdownSignals :: "platform \<Rightarrow> os_signal list" where
  "shutdownSignals Posix = [SIGTERM, SIGQUIT, SIGINT]"
| "shutdownSignals Windows = [SIGINT]"

record sig_state =
  stopHandler :: Handler
  chan :: "os_signal list"
  received :: "os_signal option"

text \<open>The channel of \<open>make(chan os.Signal, 2)\<close>.\<close>

definition chan_cap :: nat where
  "chan_cap = 2"

definition sig_setup :: sig_state where
  "sig_setup = \<lparr>stopHandler = SetupSignalHandler None, chan = [], received = None\<rparr>"

text \<open>\<open>signal.Notify\<close> does not block: a signal that finds the channel full is dropped.\<close>

definition Notify_deliver :: "platform \<Rightarrow> os_signal \<Rightarrow> sig_state \<Rightarrow> sig_state" where
  "Notify_deliver p sig s =
     (if sig \<in> set (shutdownSignals p) \<and> length (chan s) < chan_cap then s\<lparr>chan := chan s @ [sig]\<rparr> else s)"

text \<open>
  \<open>deliver\<close>: the operating system sends a signal that was asked for (it can do what it likes with the others).
  \<open>receive\<close> and \<open>safe_stop\<close>: the two statements of the goroutine. \<open>run\<close>: any step of the rest of the program or
  of a shutdown under way; the goroutine does not call \<open>safeStop\<close> in it.
\<close>

inductive sig_step :: "platform \<Rightarrow> sig_state \<Rightarrow> sig_state \<Rightarrow> bool" for p :: platform where
  deliver: "running False (stopHandler s) \<Longrightarrow> sig \<in> set (shutdownSignals p) \<Longrightarrow> sig_step p s (Notify_deliver p sig s)"
| receive: "running False (stopHandler s) \<Longrightarrow> received s = None \<Longrightarrow> chan s = sig # rest \<Longrightarrow>
    sig_step p s (s\<lparr>chan := rest, received := Some sig\<rparr>)"
| safe_stop: "running False (stopHandler s) \<Longrightarrow> received s = Some sig \<Longrightarrow> pcs (stopHandler s) 0 = Idle \<Longrightarrow>
    sig_step p s (s\<lparr>stopHandler := SafeStop 0 (stopHandler s)\<rparr>)"
| run: "step False (stopHandler s) h \<Longrightarrow> (pcs (stopHandler s) 0 = Idle \<Longrightarrow> pcs h 0 = Idle) \<Longrightarrow>
    sig_step p s (s\<lparr>stopHandler := h\<rparr>)"

inductive sig_reachable :: "platform \<Rightarrow> sig_state \<Rightarrow> bool" for p :: platform where
  init: "sig_reachable p sig_setup"
| more: "sig_reachable p s \<Longrightarrow> sig_step p s s' \<Longrightarrow> sig_reachable p s'"

inductive_cases sig_step_cases: "sig_step p s s'"

section \<open>Lemmas\<close>

text \<open>What a step does to the handler: nothing, or one step of the shutdown.\<close>

lemma sig_step_handler:
  "sig_step p s s' \<Longrightarrow> stopHandler s' = stopHandler s \<or> step False (stopHandler s) (stopHandler s')"
  by (elim sig_step_cases) (auto simp: Notify_deliver_def intro: SafeStop_step)

lemma sig_step_received: "sig_step p s s' \<Longrightarrow> received s = Some g \<Longrightarrow> received s' = Some g"
  by (elim sig_step_cases) (auto simp: Notify_deliver_def)

lemma received_stays: "(sig_step p)\<^sup>*\<^sup>* s s' \<Longrightarrow> received s = Some g \<Longrightarrow> received s' = Some g"
  by (induction rule: rtranclp_induct) (auto dest: sig_step_received)

definition sig_inv :: "platform \<Rightarrow> sig_state \<Rightarrow> bool" where
  "sig_inv p s \<longleftrightarrow> reachable False (stopHandler s) \<and> length (chan s) \<le> chan_cap \<and>
     set (chan s) \<subseteq> set (shutdownSignals p) \<and>
     (case received s of None \<Rightarrow> pcs (stopHandler s) 0 = Idle | Some g \<Rightarrow> g \<in> set (shutdownSignals p))"

lemma sig_inv_init: "sig_inv p sig_setup"
  by (simp add: sig_inv_def sig_setup_def SetupSignalHandler_def reachable.init) (simp add: new_handler_def)

lemma sig_inv_step:
  assumes "sig_step p s s'" "sig_inv p s"
  shows "sig_inv p s'"
proof -
  have "reachable False (stopHandler s')"
    using sig_step_handler [OF assms(1)] assms(2) by (auto simp: sig_inv_def intro: reachable.more)
  then show ?thesis
    using assms by (elim sig_step_cases) (auto simp: sig_inv_def Notify_deliver_def split: option.splits)
qed

lemma sig_inv_reachable: "sig_reachable p s \<Longrightarrow> sig_inv p s"
  by (induction rule: sig_reachable.induct) (auto intro: sig_inv_init sig_inv_step)

lemma never_idle_again: "step r h h' \<Longrightarrow> pcs h t \<noteq> Idle \<Longrightarrow> pcs h' t \<noteq> Idle"
  by (elim step_cases) (auto simp: AddFor_def PreStop_def split: if_splits)

text \<open>Once the goroutine stops, every run of the shutdown is one of the program.\<close>

lemma runs_lift:
  "(step False)\<^sup>*\<^sup>* h u \<Longrightarrow> pcs h 0 \<noteq> Idle \<Longrightarrow>
   (sig_step p)\<^sup>*\<^sup>* (s\<lparr>stopHandler := h\<rparr>) (s\<lparr>stopHandler := u\<rparr>) \<and> pcs u 0 \<noteq> Idle"
proof (induction rule: rtranclp_induct)
  case (step u v)
  then have "pcs v 0 \<noteq> Idle" using never_idle_again by blast
  moreover have "sig_step p (s\<lparr>stopHandler := u\<rparr>) (s\<lparr>stopHandler := v\<rparr>)"
    using sig_step.run [of "s\<lparr>stopHandler := u\<rparr>" v p] step by simp
  ultimately show ?case using step by (meson rtranclp.rtrancl_into_rtrancl)
qed simp

section \<open>Properties\<close>

text \<open>
  C6: the delivery of signals refines the shutdown. Whatever signals arrive and whenever the goroutine is
  scheduled, the handler only takes steps of the shutdown from its first state, so all that is proved of those
  runs holds; the goroutine stops the process only after one of the signals that were asked for; at most
  two signals wait; and after the first is received, no signal does anything to the shutdown any more: a
  second interrupt is not an immediate exit.
\<close>

theorem signal_refines_shutdown:
  assumes "sig_reachable p s" "sig_step p s s'"
  shows "reachable False (stopHandler s) \<and>
    (stopHandler s' = stopHandler s \<or> step False (stopHandler s) (stopHandler s')) \<and>
    length (chan s) \<le> chan_cap \<and>
    (pcs (stopHandler s) 0 \<noteq> Idle \<longrightarrow> (\<exists>g\<in>set (shutdownSignals p). received s = Some g)) \<and>
    (\<forall>g. received s = Some g \<longrightarrow> received s' = Some g) \<and>
    stopHandler (Notify_deliver p sig s) = stopHandler s"
proof (intro conjI allI impI)
  note inv = sig_inv_reachable [OF assms(1)]
  show "reachable False (stopHandler s)" "length (chan s) \<le> chan_cap" using inv by (simp_all add: sig_inv_def)
  show "stopHandler s' = stopHandler s \<or> step False (stopHandler s) (stopHandler s')"
    by (rule sig_step_handler [OF assms(2)])
  show "\<exists>g\<in>set (shutdownSignals p). received s = Some g" if "pcs (stopHandler s) 0 \<noteq> Idle"
    using inv that by (auto simp: sig_inv_def split: option.splits)
  show "received s' = Some g" if "received s = Some g" for g by (rule sig_step_received [OF assms(2) that])
  show "stopHandler (Notify_deliver p sig s) = stopHandler s" by (simp add: Notify_deliver_def)
qed

theorem signal_refines_shutdown_witness:
  "length (chan (Notify_deliver Posix SIGINT sig_setup)) \<le> chan_cap \<and> reachable False (stopHandler (Notify_deliver Posix SIGINT sig_setup))"
proof -
  have run: "running False (stopHandler sig_setup)" by (simp add: sig_setup_def SetupSignalHandler_def running_def new_handler_def)
  let ?s = "Notify_deliver Posix SIGINT sig_setup"
  have 1: "sig_step Posix sig_setup ?s" by (rule sig_step.deliver [OF run]) simp
  have "running False (stopHandler ?s)" using run by (simp add: Notify_deliver_def)
  then have 2: "sig_step Posix ?s (Notify_deliver Posix SIGTERM ?s)" by (rule sig_step.deliver) simp
  show ?thesis using signal_refines_shutdown [OF sig_reachable.more [OF sig_reachable.init 1] 2, of SIGTERM] by blast
qed

text \<open>
  C26: a signal stops the process. When one of the signals that were asked for arrives in a running program that
  has received none yet, there is a run in which the goroutine receives a signal and comes to the call of
  \<open>os.Exit\<close>, if nothing holds the mutex and the wait groups are idle; on the way it closes the channel and runs every hook.
\<close>

theorem signal_stops_process:
  assumes "sig_reachable p s" "sig \<in> set (shutdownSignals p)" "running False (stopHandler s)" "received s = None"
    and "holder (stopHandler s) = None" "\<And>k. wgs (stopHandler s) k = 0"
  shows "\<exists>u g. (sig_step p)\<^sup>*\<^sup>* (Notify_deliver p sig s) u \<and> received u = Some g \<and> g \<in> set (shutdownSignals p) \<and>
    pcs (stopHandler u) 0 = Exiting \<and> Channel_closed (stopHandler u) \<and>
    mset (hooklog (stopHandler u)) = mset (due (preStopFuncs (stopHandler u)) 0)"
proof -
  let ?s1 = "Notify_deliver p sig s" and ?h = "stopHandler s"
  have inv: "sig_inv p s" by (rule sig_inv_reachable [OF assms(1)])
  have h: "stopHandler ?s1 = ?h" "received ?s1 = None" using assms(4) by (simp_all add: Notify_deliver_def)
  have r1: "sig_reachable p ?s1" by (rule sig_reachable.more [OF assms(1) sig_step.deliver [OF assms(3,2)]])
  have "chan ?s1 \<noteq> []" using assms(2) by (cases "chan s") (auto simp: Notify_deliver_def chan_cap_def)
  then obtain g rest where c: "chan ?s1 = g # rest" by (cases "chan ?s1") auto
  then have g: "g \<in> set (shutdownSignals p)" using sig_inv_reachable [OF r1] by (auto simp: sig_inv_def)
  let ?s2 = "?s1\<lparr>chan := rest, received := Some g\<rparr>"
  have s2: "sig_step p ?s1 ?s2" by (rule sig_step.receive) (use h assms(3) c in simp_all)
  have idle: "pcs ?h 0 = Idle" using inv assms(4) by (simp add: sig_inv_def)
  let ?s3 = "?s2\<lparr>stopHandler := SafeStop 0 ?h\<rparr>"
  have s3: "sig_step p ?s2 ?s3" using sig_step.safe_stop [of ?s2 g p] h assms(3) idle by simp
  have "\<not> closed ?h"
    using inv inv_free [OF inv_reachable [of ?h]] assms(3,5) by (auto simp: sig_inv_def running_def)
  then obtain v where v: "(step False)\<^sup>*\<^sup>* (SafeStop 0 ?h) v" "pcs v 0 = Exiting"
    using can_stop_locked [of False "SafeStop 0 ?h" 0] assms(3,5,6) by (auto simp: SafeStop_def running_def)
  have "(sig_step p)\<^sup>*\<^sup>* ?s3 (?s3\<lparr>stopHandler := v\<rparr>)"
    using runs_lift [OF v(1), of p ?s3] by (simp add: SafeStop_def)
  then have run: "(sig_step p)\<^sup>*\<^sup>* ?s1 (?s3\<lparr>stopHandler := v\<rparr>)"
    using s2 s3 by (meson converse_rtranclp_into_rtranclp)
  have "reachable False v"
    using reachable_steps [OF v(1)] reachable.more [OF _ SafeStop_step] inv idle assms(3)
    by (auto simp: sig_inv_def)
  then have "closed v \<and> mset (hooklog v) = mset (due (preStopFuncs v) 0)"
    using inv_progress [OF inv_reachable, of v 0] v(2) by simp
  then show ?thesis
    by (intro exI [of _ "?s3\<lparr>stopHandler := v\<rparr>"] exI [of _ g]) (use run g v(2) in \<open>simp add: Channel_closed_def\<close>)
qed

theorem signal_stops_process_witness:
  "\<exists>u g. (sig_step Windows)\<^sup>*\<^sup>* (Notify_deliver Windows SIGINT sig_setup) u \<and> received u = Some g \<and> pcs (stopHandler u) 0 = Exiting"
  using signal_stops_process [OF sig_reachable.init, of SIGINT Windows]
  by (auto simp: sig_setup_def SetupSignalHandler_def running_def new_handler_def)

end
