(* ===== verification/StopProgress.thy ===== *)
theory StopProgress
  imports Signals
begin

text \<open>
  How long a stop of \<open>signals/signal.go\<close> takes: the steps that the goroutine in \<open>safeStop\<close> still has to make
  itself, whatever the other goroutines do in between. Hooks cannot be added while it holds the mutex, so the
  number is fixed when it takes the mutex, and it never waits for anything but a hook or a wait group.
\<close>

section \<open>The work that is left\<close>

text \<open>A level takes a step to start its hooks, one for each of them, one after the last and one for the wait group.\<close>

fun levels_below :: "(nat \<Rightarrow> nat list) \<Rightarrow> nat \<Rightarrow> nat" where
  "levels_below funcs 0 = 0"
| "levels_below funcs (Suc l) = levels_below funcs l + 3 + length (funcs l)"

fun work_left :: "(nat \<Rightarrow> nat list) \<Rightarrow> pc \<Rightarrow> nat" where
  "work_left funcs Closing = 2 + levels_below funcs (LevelMax + 1)"
| "work_left funcs (Level l) = 1 + levels_below funcs (l + 1)"
| "work_left funcs (Hooks l fs) = 3 + levels_below funcs l + length fs"
| "work_left funcs (WaitLevel l) = 2 + levels_below funcs l"
| "work_left funcs Exiting = 1"
| "work_left funcs _ = 0"

text \<open>The number of steps of goroutine \<open>t\<close> in a run.\<close>

fun own_steps :: "nat \<Rightarrow> Handler list \<Rightarrow> nat" where
  "own_steps t (a # b # run) = (if pcs b t = pcs a t then 0 else 1) + own_steps t (b # run)"
| "own_steps t _ = 0"

lemma levels_below_eq: "levels_below funcs l = 3 * l + length (concat (map funcs [0..<l]))"
  by (induction l) simp_all

lemma due_length: "length (due funcs 0) = length (concat (map funcs [0..<LevelMax + 1]))"
  by (simp add: due_def length_concat o_def del: upt_Suc)

lemma work_at_start: "work_left funcs Closing = 98 + length (due funcs 0)"
  unfolding due_length by (simp add: levels_below_eq LevelMax_def del: upt_Suc levels_below.simps length_concat)

section \<open>One step\<close>

definition stopping :: "nat \<Rightarrow> Handler \<Rightarrow> bool" where
  "stopping t s \<longleftrightarrow> holder s = Some t \<or> pcs s t = Finished"

lemma finished_stays: "step r s s' \<Longrightarrow> pcs s t = Finished \<Longrightarrow> pcs s' t = Finished"
  by (elim step_cases) (auto simp: AddFor_def PreStop_def split: if_splits)

text \<open>A step of the holder takes exactly one off the work; the others change neither it nor the hooks.\<close>

lemma holder_step:
  assumes "step False s s'" "shutdown_inv s" "holder s = Some t"
  shows "if pcs s' t = pcs s t then holder s' = Some t \<and> preStopFuncs s' = preStopFuncs s
    else stopping t s' \<and> preStopFuncs s' = preStopFuncs s \<and>
      work_left (preStopFuncs s) (pcs s t) = Suc (work_left (preStopFuncs s) (pcs s' t))"
proof -
  have h: "holding (pcs s u) \<longleftrightarrow> u = t" for u using inv_holder [OF assms(2), of u] assms(3) by auto
  have t: "holding (pcs s t)" by (simp add: h)
  note prog = inv_progress [OF assms(2) t]
  have other: "u \<noteq> t" if "\<not> holding (pcs s u)" for u using that h by blast
  have me: "u = t" if "holding (pcs s u)" for u using that h by blast
  from assms(1) show ?thesis
  proof (cases rule: step.cases)
    case (call u)
    then show ?thesis using other [of u] assms(3) by simp
  next
    case (timeout u)
    then show ?thesis using assms(3) by simp
  next
    case (lock u)
    then show ?thesis using assms(3) by simp
  next
    case (close u)
    then show ?thesis using me [of u] assms(3) by (simp add: stopping_def del: levels_below.simps)
  next
    case (close_closed u)
    then show ?thesis using me [of u] prog by simp
  next
    case (start_hooks u l)
    then show ?thesis using me [of u] assms(3) by (simp add: stopping_def)
  next
    case (hook_done u l fs f)
    then have "length fs = Suc (length (remove1 f fs))"
      using length_pos_if_in_set [of f fs] by (simp add: length_remove1)
    then show ?thesis using hook_done me [of u] assms(3) by (auto simp: stopping_def)
  next
    case (hooks_done u l)
    then show ?thesis using me [of u] assms(3) by (simp add: stopping_def)
  next
    case (waited u l)
    then show ?thesis using me [of u] assms(3) by (cases l) (simp_all add: stopping_def)
  next
    case (exit u)
    then show ?thesis using me [of u] by (simp add: stopping_def)
  next
    case (add_for l d)
    then show ?thesis using assms(3) by (auto simp: AddFor_def split: if_splits)
  next
    case (add_for_panics l d m)
    then show ?thesis using assms(3) by simp
  next
    case (pre_stop l f)
    then show ?thesis using assms(3) by simp
  qed
qed

lemma run_work:
  assumes "successively (step False) (s # run)" "shutdown_inv s" "stopping t s"
  shows "stopping t (last (s # run)) \<and>
    own_steps t (s # run) + work_left (preStopFuncs (last (s # run))) (pcs (last (s # run)) t) =
      work_left (preStopFuncs s) (pcs s t)"
  using assms
proof (induction run arbitrary: s)
  case (Cons b run)
  have step: "step False s b" and run: "successively (step False) (b # run)" using Cons.prems(1) by simp_all
  have inv: "shutdown_inv b" by (rule inv_step [OF step Cons.prems(2)])
  show ?case
  proof (cases "holder s = Some t")
    case True
    have "stopping t b" "own_steps t [s, b] + work_left (preStopFuncs b) (pcs b t) = work_left (preStopFuncs s) (pcs s t)"
      using holder_step [OF step Cons.prems(2) True] by (auto simp: stopping_def split: if_splits)
    then show ?thesis using Cons.IH [OF run inv] by simp
  next
    case False
    then have fin: "pcs s t = Finished" using Cons.prems(3) by (simp add: stopping_def)
    then have "pcs b t = Finished" by (rule finished_stays [OF step])
    then show ?thesis using Cons.IH [OF run inv] fin by (simp add: stopping_def)
  qed
qed simp

lemma update_pcs: "pcs (goto t p s) t = p"
  by simp

text \<open>While the wait groups are idle the holder can always go on.\<close>

lemma holder_goes_on:
  assumes "shutdown_inv s" "running False s" "holder s = Some t" "\<And>k. wgs s k = 0"
  shows "\<exists>s'. step False s s' \<and> pcs s' t \<noteq> pcs s t"
proof -
  have h: "holding (pcs s t)" using inv_holder [OF assms(1), of t] assms(3) by simp
  note p = inv_progress [OF assms(1) h]
  show ?thesis
  proof (cases "pcs s t")
    case Closing
    then show ?thesis using p step.close [OF assms(2) Closing] by fastforce
  next
    case (Level l)
    then show ?thesis using step.start_hooks [OF assms(2) Level] by fastforce
  next
    case (Hooks l fs)
    show ?thesis
    proof (cases fs)
      case Nil
      then show ?thesis using step.hooks_done [OF assms(2)] Hooks by fastforce
    next
      case (Cons f fs')
      then have "step False s (goto t (Hooks l fs') (s\<lparr>hooklog := hooklog s @ [(l, f)]\<rparr>))"
        using step.hook_done [OF assms(2) Hooks, of f] by simp
      then show ?thesis using Hooks Cons by fastforce
    qed
  next
    case (WaitLevel l)
    have "WaitFor_enabled s l" using assms(4) by (simp add: WaitFor_enabled_def)
    then have "step False s (goto t (if l = 0 then Exiting else Level (l - 1)) s)"
      by (rule step.waited [OF assms(2) WaitLevel])
    moreover have "(if l = 0 then Exiting else Level (l - 1)) \<noteq> pcs s t" using WaitLevel by simp
    ultimately show ?thesis by (metis fun_upd_same update_pcs)
  next
    case Exiting
    then show ?thesis using step.exit [OF assms(2) Exiting] by fastforce
  qed (use h in simp_all)
qed

text \<open>The work is bounded by what it is when the mutex is taken.\<close>

lemma due_split:
  "l \<le> LevelMax + 1 \<Longrightarrow> length (concat (map funcs [0..<l])) + length (due funcs l) = length (due funcs 0)"
proof -
  assume "l \<le> LevelMax + 1"
  then have "[0..<LevelMax + 1] = [0..<l] @ [l..<LevelMax + 1]" by (metis le_add_diff_inverse upt_add_eq_append zero_le)
  then have "due funcs 0 = concat (map (\<lambda>k. map (Pair k) (funcs k)) [0..<l]) @ due funcs l"
    unfolding due_def by (metis concat_append map_append)
  then show ?thesis by (simp add: length_concat o_def)
qed

lemma work_bound:
  assumes "progress funcs hs cl p"
  shows "work_left funcs p \<le> 98 + length (due funcs 0)"
proof (cases p)
  case (Level l)
  then show ?thesis
    using assms due_split [of "l + 1" funcs] by (simp add: levels_below_eq LevelMax_def del: levels_below.simps upt_Suc)
next
  case (Hooks l fs)
  then have "l \<le> LevelMax" "size (mset hs + mset (map (Pair l) fs)) = length (due funcs l)"
    using assms by simp_all
  then show ?thesis using Hooks due_split [of l funcs] by (simp add: levels_below_eq LevelMax_def)
next
  case (WaitLevel l)
  then show ?thesis using assms due_split [of l funcs] by (simp add: levels_below_eq LevelMax_def)
qed (use assms work_at_start [of funcs] in simp_all)

section \<open>Properties\<close>

text \<open>
  C7: a stop ends. Once a goroutine holds the mutex it makes at most 98 steps and one for each registered hook,
  in every interleaving with any number of other goroutines, and when it has made them all it has called
  \<open>exitFunc\<close>; and it can always make its next step unless a wait group is in use.
\<close>

theorem shutdown_terminates:
  assumes "reachable False s" "holder s = Some t" "successively (step False) (s # run)"
  shows "own_steps t (s # run) \<le> 98 + length (due (preStopFuncs s) 0) \<and>
    (own_steps t (s # run) = work_left (preStopFuncs s) (pcs s t) \<longrightarrow> pcs (last (s # run)) t = Finished) \<and>
    (running False (last (s # run)) \<and> pcs (last (s # run)) t \<noteq> Finished \<and> (\<forall>k. wgs (last (s # run)) k = 0) \<longrightarrow>
      (\<exists>s'. step False (last (s # run)) s' \<and> pcs s' t \<noteq> pcs (last (s # run)) t))"
proof (intro conjI impI)
  let ?u = "last (s # run)"
  have inv: "shutdown_inv s" by (rule inv_reachable [OF assms(1)])
  have "reachable False ?u" using assms(1,3)
  proof (induction run arbitrary: s)
    case (Cons b run)
    then show ?case using Cons.IH [of b] reachable.more [of False s b] by simp
  qed simp
  then have inv_u: "shutdown_inv ?u" by (rule inv_reachable)
  have hold: "holding (pcs s t)" using inv_holder [OF inv, of t] assms(2) by simp
  have w: "stopping t ?u" "own_steps t (s # run) + work_left (preStopFuncs ?u) (pcs ?u t) = work_left (preStopFuncs s) (pcs s t)"
    using run_work [OF assms(3) inv] assms(2) by (simp_all add: stopping_def)
  show "own_steps t (s # run) \<le> 98 + length (due (preStopFuncs s) 0)"
    using w(2) work_bound [OF inv_progress [OF inv hold]] by linarith
  show "pcs ?u t = Finished" if "own_steps t (s # run) = work_left (preStopFuncs s) (pcs s t)"
  proof (rule ccontr)
    assume "pcs ?u t \<noteq> Finished"
    then have "holding (pcs ?u t)" using w(1) inv_holder [OF inv_u, of t] by (simp add: stopping_def)
    then have "work_left (preStopFuncs ?u) (pcs ?u t) > 0" by (cases "pcs ?u t") simp_all
    then show False using w(2) that by linarith
  qed
  show "\<exists>s'. step False ?u s' \<and> pcs s' t \<noteq> pcs ?u t"
    if "running False ?u \<and> pcs ?u t \<noteq> Finished \<and> (\<forall>k. wgs ?u k = 0)"
    using that w(1) by (intro holder_goes_on [OF inv_u]) (simp_all add: stopping_def)
qed

theorem shutdown_terminates_witness:
  "\<exists>s. reachable False s \<and> pcs s 0 = Closing \<and> own_steps 0 [s] \<le> 98 \<and> (\<exists>s'. step False s s' \<and> pcs s' 0 \<noteq> Closing)"
proof -
  let ?s1 = "SafeStop 0 new_handler"
  let ?s2 = "goto 0 Closing (?s1\<lparr>holder := Some 0\<rparr>)"
  have "step False new_handler ?s1" by (rule SafeStop_step) (simp_all add: running_def new_handler_def)
  moreover have "step False ?s1 ?s2" by (rule step.lock) (simp_all add: running_def new_handler_def SafeStop_def)
  ultimately have r: "reachable False ?s2" by (meson reachable.init reachable.more)
  have "due (\<lambda>_. []) 0 = []" by (simp add: due_def del: upt_Suc)
  then show ?thesis
    using shutdown_terminates [OF r, of 0 "[]"] r
    by (intro exI [of _ ?s2]) (simp add: running_def new_handler_def SafeStop_def)
qed

end
